(* ===== verification/Prelude.thy ===== *)
theory Prelude
  imports Main "HOL-Library.Word" "HOL-Library.AList" "HOL-Library.Sublist"
    "HOL-Library.Char_ord" "HOL-Library.List_Lexorder" "HOL-Library.Code_Target_Nat"
begin

text \<open>
  Shared vocabulary of the development.

  \<^item> Results: Rust's \<open>Result<T, E>\<close> is a sum, \<open>Ok\<close> on the right and \<open>Err\<close> on the left.
  \<^item> Strings: a Rust \<open>str\<close> is its UTF-8 byte sequence, so \<open>string\<close> (a list of 8-bit
    characters) is used byte for byte. The functions of \<open>core::str\<close> the sources call
    (\<open>trim\<close>, \<open>split\<close>, \<open>strip_prefix\<close>, \<open>split_once\<close>, \<open>join\<close>, integer parsing and
    printing, UTF-8 validation) are modelled here with the standard library's behaviour,
    the Unicode white space of \<open>trim\<close> included.
  \<^item> Maps: a \<open>HashMap\<close> is an association list with distinct keys (theory \<open>AList\<close>), so every
    definition stays executable; nothing proved depends on the iteration order.
  \<^item> Time: an \<open>Instant\<close> is a \<open>nat\<close> of nanoseconds, a \<open>NaiveDateTime\<close> an \<open>int\<close> of
    nanoseconds since the Unix epoch.

  The locale at the end states the contract shared by every stateful component: an initial
  state and operations that keep an invariant.
\<close>

named_theorems rust_std \<open>defining equations of the modelled standard library\<close>
named_theorems keeps \<open>operations keep the invariant of their component\<close>

subsection \<open>Results\<close>

type_synonym ('a, 'e) result = "'e + 'a"

abbreviation Ok :: "'a \<Rightarrow> ('a, 'e) result" where "Ok \<equiv> Inr"
abbreviation Err :: "'e \<Rightarrow> ('a, 'e) result" where "Err \<equiv> Inl"

definition is_ok :: "('a, 'e) result \<Rightarrow> bool" where
  "is_ok r \<longleftrightarrow> (case r of Inr _ \<Rightarrow> True | Inl _ \<Rightarrow> False)"

definition ok_or :: "'e \<Rightarrow> 'a option \<Rightarrow> ('a, 'e) result" where
  "ok_or e x = (case x of Some a \<Rightarrow> Ok a | None \<Rightarrow> Err e)"

lemma is_ok_simps [simp]: "is_ok (Inr a)" "\<not> is_ok (Inl e)"
  by (simp_all add: is_ok_def)

lemma is_ok_iff: "is_ok r \<longleftrightarrow> (\<exists>a. r = Ok a)"
  by (cases r) auto

lemma ok_or_Ok [simp]: "ok_or e x = Inr a \<longleftrightarrow> x = Some a"
  by (auto simp: ok_or_def split: option.splits)

lemma ok_or_Err [simp]: "ok_or e x = Inl e' \<longleftrightarrow> x = None \<and> e' = e"
  by (auto simp: ok_or_def split: option.splits)

subsection \<open>Time\<close>

type_synonym instant = nat
type_synonym duration = nat
type_synonym datetime = int
type_synonym uuid = "128 word"

definition nanos :: nat where
  "nanos = 1000000000"

lemma nanos_pos [simp]: "0 < nanos"
  by (simp add: nanos_def)

subsection \<open>Byte classes of \<open>u8\<close> and \<open>char\<close>\<close>

definition byte :: "char \<Rightarrow> nat" where
  "byte c = of_char c"

definition is_ascii_digit :: "char \<Rightarrow> bool" where
  "is_ascii_digit c \<longleftrightarrow> 48 \<le> byte c \<and> byte c \<le> 57"

definition is_ascii_alphanumeric :: "char \<Rightarrow> bool" where
  "is_ascii_alphanumeric c \<longleftrightarrow>
     is_ascii_digit c \<or> (65 \<le> byte c \<and> byte c \<le> 90) \<or> (97 \<le> byte c \<and> byte c \<le> 122)"

definition is_ascii_hexdigit :: "char \<Rightarrow> bool" where
  "is_ascii_hexdigit c \<longleftrightarrow>
     is_ascii_digit c \<or> (65 \<le> byte c \<and> byte c \<le> 70) \<or> (97 \<le> byte c \<and> byte c \<le> 102)"

lemma byte_less [simp]: "byte c < 256"
  by (simp add: byte_def)

lemma byte_inj: "byte c = byte d \<longleftrightarrow> c = d"
  by (simp add: byte_def of_char_eq_iff)

subsection \<open>\<open>str::trim\<close>\<close>

text \<open>The UTF-8 encodings of the characters with the Unicode property \<open>White_Space\<close>.\<close>

definition white_space :: "string list" where
  "white_space =
     [[CHR 0x09], [CHR 0x0A], [CHR 0x0B], [CHR 0x0C], [CHR 0x0D], [CHR 0x20],
      [CHR 0xC2, CHR 0x85], [CHR 0xC2, CHR 0xA0], [CHR 0xE1, CHR 0x9A, CHR 0x80],
      [CHR 0xE2, CHR 0x80, CHR 0x80], [CHR 0xE2, CHR 0x80, CHR 0x81],
      [CHR 0xE2, CHR 0x80, CHR 0x82], [CHR 0xE2, CHR 0x80, CHR 0x83],
      [CHR 0xE2, CHR 0x80, CHR 0x84], [CHR 0xE2, CHR 0x80, CHR 0x85],
      [CHR 0xE2, CHR 0x80, CHR 0x86], [CHR 0xE2, CHR 0x80, CHR 0x87],
      [CHR 0xE2, CHR 0x80, CHR 0x88], [CHR 0xE2, CHR 0x80, CHR 0x89],
      [CHR 0xE2, CHR 0x80, CHR 0x8A], [CHR 0xE2, CHR 0x80, CHR 0xA8],
      [CHR 0xE2, CHR 0x80, CHR 0xA9], [CHR 0xE2, CHR 0x80, CHR 0xAF],
      [CHR 0xE2, CHR 0x81, CHR 0x9F], [CHR 0xE3, CHR 0x80, CHR 0x80]]"

function strip_seqs :: "string list \<Rightarrow> string \<Rightarrow> string" where
  "strip_seqs ws s =
     (case find (\<lambda>w. w \<noteq> [] \<and> prefix w s) ws of
        None \<Rightarrow> s
      | Some w \<Rightarrow> strip_seqs ws (drop (length w) s))"
  by pat_completeness auto
termination
proof (relation "measure (\<lambda>(ws, s). length s)")
  fix ws :: "string list" and s w
  assume "find (\<lambda>w. w \<noteq> [] \<and> prefix w s) ws = Some w"
  then have "w \<noteq> []" and "prefix w s"
    by (auto simp: find_Some_iff)
  then have "0 < length w" and "s \<noteq> []" by auto
  then show "((ws, drop (length w) s), ws, s) \<in> measure (\<lambda>(ws, s). length s)"
    by simp
qed simp

declare strip_seqs.simps [simp del]

definition trim_start :: "string \<Rightarrow> string" where
  "trim_start s = strip_seqs white_space s"

definition trim_end :: "string \<Rightarrow> string" where
  "trim_end s = rev (strip_seqs (map rev white_space) (rev s))"

definition trim :: "string \<Rightarrow> string" where
  "trim s = trim_end (trim_start s)"

lemma strip_seqs_suffix: "suffix (strip_seqs ws s) s"
proof (induction ws s rule: strip_seqs.induct)
  case (1 ws s)
  show ?case
  proof (cases "find (\<lambda>w. w \<noteq> [] \<and> prefix w s) ws")
    case None
    then show ?thesis by (subst strip_seqs.simps) simp
  next
    case (Some w)
    with 1 have "suffix (strip_seqs ws (drop (length w) s)) (drop (length w) s)" by blast
    also have "suffix (drop (length w) s) s" by (rule suffix_drop)
    finally show ?thesis using Some by (subst strip_seqs.simps) simp
  qed
qed

lemma strip_seqs_Nil [simp]: "strip_seqs ws [] = []"
  using strip_seqs_suffix [of ws "[]"] by simp

lemma strip_seqs_id:
  "(\<And>w. w \<in> set ws \<Longrightarrow> w \<noteq> [] \<Longrightarrow> \<not> prefix w s) \<Longrightarrow> strip_seqs ws s = s"
  by (subst strip_seqs.simps) (auto simp: find_Some_iff split: option.splits)

lemma set_trim: "set (trim s) \<subseteq> set s"
proof -
  have "set (trim s) \<subseteq> set (trim_start s)"
    using set_mono_suffix [OF strip_seqs_suffix [of "map rev white_space" "rev (trim_start s)"]]
    by (simp add: trim_def trim_end_def)
  also have "\<dots> \<subseteq> set s"
    using set_mono_suffix [OF strip_seqs_suffix] by (simp add: trim_start_def)
  finally show ?thesis .
qed

text \<open>A string without a white space lead or trail byte at its ends is its own trim.\<close>

definition ws_lead :: "char set" where
  "ws_lead = set (map hd white_space)"

definition ws_trail :: "char set" where
  "ws_trail = set (map last white_space)"

lemma trim_id:
  assumes "s \<noteq> [] \<Longrightarrow> hd s \<notin> ws_lead" and "s \<noteq> [] \<Longrightarrow> last s \<notin> ws_trail"
  shows "trim s = s"
proof -
  have start: "trim_start s = s"
    unfolding trim_start_def
  proof (rule strip_seqs_id)
    fix w assume w: "w \<in> set white_space" "w \<noteq> []"
    then have "hd w \<in> ws_lead" by (simp add: ws_lead_def)
    moreover have "prefix w s \<Longrightarrow> s \<noteq> [] \<and> hd s = hd w" using w(2) by (auto simp: prefix_def)
    ultimately show "\<not> prefix w s" using assms(1) by metis
  qed
  have "strip_seqs (map rev white_space) (rev s) = rev s"
  proof (rule strip_seqs_id)
    fix w assume w: "w \<in> set (map rev white_space)" "w \<noteq> []"
    then obtain v where v: "v \<in> set white_space" "w = rev v" by auto
    then have "last v \<in> ws_trail" by (simp add: ws_trail_def)
    moreover have "prefix w (rev s) \<Longrightarrow> s \<noteq> [] \<and> last s = last v"
      using w(2) v(2) by (auto simp: prefix_def hd_rev [symmetric])
    ultimately show "\<not> prefix w (rev s)" using assms(2) by metis
  qed
  then show ?thesis by (simp add: trim_def start trim_end_def)
qed

lemma trim_Nil [simp]: "trim [] = []"
  by (rule trim_id) simp_all


subsection \<open>\<open>str::split\<close>, \<open>split_once\<close>, \<open>strip_prefix\<close>, \<open>join\<close>\<close>

fun split_on :: "char \<Rightarrow> string \<Rightarrow> string list" where
  "split_on c [] = [[]]"
| "split_on c (x # xs) =
     (if x = c then [] # split_on c xs
      else (case split_on c xs of [] \<Rightarrow> [[x]] | p # ps \<Rightarrow> (x # p) # ps))"

fun split_once :: "char \<Rightarrow> string \<Rightarrow> (string \<times> string) option" where
  "split_once c [] = None"
| "split_once c (x # xs) =
     (if x = c then Some ([], xs)
      else map_option (\<lambda>(a, b). (x # a, b)) (split_once c xs))"

definition strip_prefix :: "string \<Rightarrow> string \<Rightarrow> string option" where
  "strip_prefix p s = (if prefix p s then Some (drop (length p) s) else None)"

fun join :: "string \<Rightarrow> string list \<Rightarrow> string" where
  "join sep [] = []"
| "join sep [x] = x"
| "join sep (x # xs) = x @ sep @ join sep xs"

lemma split_on_nonempty [simp]: "split_on c s \<noteq> []"
  by (induction s) (auto split: list.splits)

lemma split_on_no_sep: "p \<in> set (split_on c s) \<Longrightarrow> c \<notin> set p"
  by (induction s arbitrary: p) (auto split: list.splits if_splits)

lemma split_on_subset: "p \<in> set (split_on c s) \<Longrightarrow> set p \<subseteq> set s"
  by (induction s arbitrary: p) (fastforce split: list.splits if_splits)+

lemma split_on_id: "c \<notin> set s \<Longrightarrow> split_on c s = [s]"
  by (induction s) auto

lemma split_on_append:
  "c \<notin> set a \<Longrightarrow> split_on c (a @ c # b) = a # split_on c b"
  by (induction a) auto

lemma split_on_join:
  "ps \<noteq> [] \<Longrightarrow> (\<And>p. p \<in> set ps \<Longrightarrow> c \<notin> set p) \<Longrightarrow> split_on c (join [c] ps) = ps"
  by (induction "[c]" ps rule: join.induct) (auto simp: split_on_append split_on_id)

lemma join_split_on: "join [c] (split_on c s) = s"
proof (induction s)
  case (Cons x s)
  then show ?case
    by (cases "split_on c s"; cases "tl (split_on c s)") (auto split: list.splits)
qed simp

lemma split_once_append: "c \<notin> set a \<Longrightarrow> split_once c (a @ c # b) = Some (a, b)"
  by (induction a) auto

lemma strip_prefix_append [simp]: "strip_prefix p (p @ s) = Some s"
  by (simp add: strip_prefix_def)

lemma strip_prefix_Some: "strip_prefix p s = Some t \<longleftrightarrow> s = p @ t"
  by (auto simp: strip_prefix_def prefix_def)

text \<open>The fields of a comma-separated setting: split, trimmed, empty ones dropped.\<close>

definition comma_entries :: "string \<Rightarrow> string list" where
  "comma_entries raw = filter (\<lambda>e. e \<noteq> []) (map trim (split_on (CHR '','') raw))"

subsection \<open>Integer parsing and printing\<close>

definition digit_of :: "char \<Rightarrow> nat" where
  "digit_of c = byte c - 48"

definition digits_value :: "string \<Rightarrow> nat" where
  "digits_value s = fold (\<lambda>c n. 10 * n + digit_of c) s 0"

text \<open>
  \<open>FromStr\<close> of a primitive integer with range \<open>lo..=hi\<close>: an optional sign (\<open>-\<close> only for a
  signed type), at least one decimal digit, nothing else, and a value in range.
\<close>

definition parse_int :: "int \<Rightarrow> int \<Rightarrow> string \<Rightarrow> int option" where
  "parse_int lo hi s =
     (let neg = (case s of c # _ \<Rightarrow> lo < 0 \<and> c = CHR ''-'' | [] \<Rightarrow> False);
          pos = (case s of c # _ \<Rightarrow> c = CHR ''+'' | [] \<Rightarrow> False);
          ds = (if neg \<or> pos then tl s else s);
          v = (if neg then - int (digits_value ds) else int (digits_value ds))
      in if ds \<noteq> [] \<and> list_all is_ascii_digit ds \<and> lo \<le> v \<and> v \<le> hi then Some v else None)"

definition parse_i64 :: "string \<Rightarrow> int option" where
  "parse_i64 = parse_int (- (2 ^ 63)) (2 ^ 63 - 1)"

definition parse_u16 :: "string \<Rightarrow> int option" where
  "parse_u16 = parse_int 0 (2 ^ 16 - 1)"

definition parse_usize :: "string \<Rightarrow> int option" where
  "parse_usize = parse_int 0 (2 ^ 64 - 1)"

fun nat_digits :: "nat \<Rightarrow> string" where
  "nat_digits n = (if n < 10 then [char_of (48 + n)] else nat_digits (n div 10) @ [char_of (48 + n mod 10)])"

declare nat_digits.simps [simp del]

definition show_int :: "int \<Rightarrow> string" where
  "show_int i = (if i < 0 then CHR ''-'' # nat_digits (nat (- i)) else nat_digits (nat i))"

lemma byte_char_of: "n < 256 \<Longrightarrow> byte (char_of n) = n"
  by (simp add: byte_def)

lemma digits_value_snoc: "digits_value (s @ [c]) = 10 * digits_value s + digit_of c"
  by (simp add: digits_value_def)

lemma digits_value_nat_digits: "digits_value (nat_digits n) = n"
proof (induction n rule: nat_digits.induct)
  case (1 n)
  show ?case
  proof (cases "n < 10")
    case True
    then show ?thesis
      by (subst nat_digits.simps) (simp add: digits_value_def digit_of_def byte_char_of)
  next
    case False
    then have "digits_value (nat_digits (n div 10)) = n div 10" by (rule 1)
    with False show ?thesis
      by (subst nat_digits.simps) (simp add: digits_value_snoc digit_of_def byte_char_of)
  qed
qed

lemma nat_digits_digits: "c \<in> set (nat_digits n) \<Longrightarrow> is_ascii_digit c"
proof (induction n arbitrary: c rule: nat_digits.induct)
  case (1 n)
  have last: "is_ascii_digit (char_of (48 + n mod 10))"
    by (simp add: is_ascii_digit_def byte_char_of)
  show ?case
  proof (cases "n < 10")
    case True
    with 1(2) show ?thesis
      by (subst (asm) nat_digits.simps) (simp add: is_ascii_digit_def byte_char_of)
  next
    case False
    with 1 last show ?thesis
      by (subst (asm) (2) nat_digits.simps) auto
  qed
qed

lemma nat_digits_nonempty [simp]: "nat_digits n \<noteq> []"
  by (subst nat_digits.simps) simp

lemma nat_digits_hd_not_sign:
  "hd (nat_digits n) \<noteq> CHR ''-''" "hd (nat_digits n) \<noteq> CHR ''+''"
  using nat_digits_digits [of "hd (nat_digits n)" n]
  by (auto simp: is_ascii_digit_def byte_def)

lemma parse_int_range: "parse_int lo hi s = Some v \<Longrightarrow> lo \<le> v \<and> v \<le> hi"
  unfolding parse_int_def Let_def by (simp only: option.simps split: if_splits)

lemma parse_int_show:
  assumes "lo \<le> i" "i \<le> hi"
  shows "parse_int lo hi (show_int i) = Some i"
proof -
  obtain c cs where c: "nat_digits (nat \<bar>i\<bar>) = c # cs"
    using nat_digits_nonempty [of "nat \<bar>i\<bar>"] by (cases "nat_digits (nat \<bar>i\<bar>)") auto
  have sign: "c \<noteq> CHR ''-''" "c \<noteq> CHR ''+''"
    using nat_digits_hd_not_sign [of "nat \<bar>i\<bar>"] by (simp_all add: c)
  have ds: "list_all is_ascii_digit (c # cs)"
    using nat_digits_digits [of _ "nat \<bar>i\<bar>"] by (simp only: c list_all_iff) auto
  have v: "digits_value (c # cs) = nat \<bar>i\<bar>"
    using digits_value_nat_digits [of "nat \<bar>i\<bar>"] by (simp add: c)
  show ?thesis
    using assms sign ds v c by (auto simp: parse_int_def show_int_def Let_def)
qed


subsection \<open>\<open>String::from_utf8\<close>\<close>

definition cont :: "char \<Rightarrow> bool" where
  "cont c \<longleftrightarrow> 0x80 \<le> byte c \<and> byte c \<le> 0xBF"

definition in_range :: "nat \<Rightarrow> nat \<Rightarrow> char \<Rightarrow> bool" where
  "in_range lo hi c \<longleftrightarrow> lo \<le> byte c \<and> byte c \<le> hi"

text \<open>The length of the well-formed UTF-8 sequence a byte string starts with, if any.\<close>

fun utf8_head :: "string \<Rightarrow> nat option" where
  "utf8_head [] = None"
| "utf8_head (a # s) =
     (if byte a < 0x80 then Some 1
      else if in_range 0xC2 0xDF a then
        (case s of b # _ \<Rightarrow> if cont b then Some 2 else None | _ \<Rightarrow> None)
      else if in_range 0xE0 0xEF a then
        (case s of b # c # _ \<Rightarrow>
           if (if byte a = 0xE0 then in_range 0xA0 0xBF b
               else if byte a = 0xED then in_range 0x80 0x9F b else cont b) \<and> cont c
           then Some 3 else None
         | _ \<Rightarrow> None)
      else if in_range 0xF0 0xF4 a then
        (case s of b # c # d # _ \<Rightarrow>
           if (if byte a = 0xF0 then in_range 0x90 0xBF b
               else if byte a = 0xF4 then in_range 0x80 0x8F b else cont b) \<and> cont c \<and> cont d
           then Some 4 else None
         | _ \<Rightarrow> None)
      else None)"

lemma utf8_head_pos: "utf8_head s = Some n \<Longrightarrow> 0 < n \<and> s \<noteq> []"
  by (cases s) (auto split: if_splits list.splits)

function is_utf8 :: "string \<Rightarrow> bool" where
  "is_utf8 s \<longleftrightarrow>
     s = [] \<or> (case utf8_head s of None \<Rightarrow> False | Some n \<Rightarrow> is_utf8 (drop n s))"
  by pat_completeness auto
termination
  by (relation "measure length") (auto dest: utf8_head_pos)

declare is_utf8.simps [simp del]

definition from_utf8 :: "string \<Rightarrow> string option" where
  "from_utf8 bs = (if is_utf8 bs then Some bs else None)"

lemma is_utf8_Nil [simp]: "is_utf8 []"
  by (subst is_utf8.simps) simp

lemma is_utf8_ascii: "list_all (\<lambda>c. byte c < 0x80) s \<Longrightarrow> is_utf8 s"
proof (induction s)
  case (Cons a s)
  then show ?case by (subst is_utf8.simps) simp
qed simp

subsection \<open>\<open>HashMap\<close> as an association list\<close>

abbreviation keys :: "('k \<times> 'v) list \<Rightarrow> 'k set" where
  "keys m \<equiv> fst ` set m"

abbreviation map_wf :: "('k \<times> 'v) list \<Rightarrow> bool" where
  "map_wf m \<equiv> distinct (map fst m)"

lemma keys_map_of: "k \<in> keys m \<longleftrightarrow> (\<exists>v. map_of m k = Some v)"
  by (induction m) auto

lemma map_of_None_keys: "map_of m k = None \<longleftrightarrow> k \<notin> keys m"
  by (rule map_of_eq_None_iff)

lemma keys_update [simp]: "keys (AList.update k v m) = insert k (keys m)"
  by (induction m) auto

lemma keys_delete [simp]: "keys (AList.delete k m) = keys m - {k}"
  by (induction m) auto

lemma length_update:
  "length (AList.update k v m) = (if k \<in> keys m then length m else Suc (length m))"
  by (induction m) auto

lemma length_delete:
  "map_wf m \<Longrightarrow> length (AList.delete k m) = (if k \<in> keys m then length m - 1 else length m)"
proof (induction m)
  case (Cons a m)
  then show ?case
    by (cases m) (auto simp: AList.delete_eq filter_id_conv)
qed simp

lemma map_of_update [simp]: "map_of (AList.update k v m) = (map_of m)(k \<mapsto> v)"
  by (rule AList.update_conv')

lemma map_of_delete [simp]: "map_of (AList.delete k m) = (map_of m)(k := None)"
  by (rule AList.delete_conv')

lemma map_wf_update [simp]: "map_wf m \<Longrightarrow> map_wf (AList.update k v m)"
  by (rule AList.distinct_update)

lemma map_wf_delete [simp]: "map_wf m \<Longrightarrow> map_wf (AList.delete k m)"
  by (rule AList.distinct_delete)

lemma map_wf_filter [simp]: "map_wf m \<Longrightarrow> map_wf (filter P m)"
  by (induction m) (auto simp: image_iff)

lemma length_keys: "map_wf m \<Longrightarrow> length m = card (keys m)"
  using distinct_card [of "map fst m"] by simp

lemma map_of_retain:
  "map_wf m \<Longrightarrow>
     map_of (filter (\<lambda>(k, v). P k v) m) k =
       (case map_of m k of Some v \<Rightarrow> if P k v then Some v else None | None \<Rightarrow> None)"
proof (induction m)
  case (Cons a m)
  obtain k' v' where a: "a = (k', v')" by (cases a)
  have "map_of m k' = None" using Cons.prems by (simp add: a map_of_None_keys)
  then show ?case using Cons by (auto simp: a split: option.splits)
qed simp

subsection \<open>The contract of a stateful component\<close>

text \<open>
  A component has an initial state and operations; its invariant holds initially and every
  operation keeps it. Runs are sequences of operations, so the invariant holds in every
  state a run reaches.
\<close>

locale component =
  fixes init :: 's
    and step :: "'op \<Rightarrow> 's \<Rightarrow> 's"
    and inv :: "'s \<Rightarrow> bool"
  assumes init_inv: "inv init"
    and step_inv: "inv s \<Longrightarrow> inv (step op s)"
begin

lemma run_inv: "inv s \<Longrightarrow> inv (fold step ops s)"
  by (induction ops arbitrary: s) (simp_all add: step_inv)

lemma reach_inv: "inv (fold step ops init)"
  by (rule run_inv [OF init_inv])

end

end
