(* ===== verification/Errors.thy ===== *)
theory Errors
  imports Prelude
begin

text \<open>
  Application errors and their rendering, \<open>src/error.rs\<close>, and the rejections of the request
  extractors, \<open>src/extract.rs\<close>. A \<open>serde_json::Value\<close> is the datatype \<open>json\<close>; a database error
  is what the code can observe of it.
\<close>

datatype json =
    JNull
  | JBool bool
  | JInt int
  | JStr string
  | JArr "json list"
  | JObj "(string \<times> json) list"

datatype db_err =
    DbConn
  | DbUnique string
  | DbForeignKey string
  | DbRecordNotUpdated
  | DbCustom string

datatype app_error =
    DbError db_err
  | InvalidInput string
  | Unauthorized string
  | Forbidden string
  | NotFound
  | Conflict string
  | ConflictWithDetails string json
  | TooManyRequests string
  | BodyRejected nat string
  | Internal
  | VaultNotConfigured
  | VaultUnreachable

record response =
  status :: nat
  body :: json

text \<open>The flat match of \<open>into_response\<close>: a status and the text of the \<open>error\<close> field.\<close>

fun error_status :: "app_error \<Rightarrow> nat \<times> string" where
  "error_status (DbError _) = (500, ''Internal database error'')"
| "error_status (InvalidInput msg) = (400, msg)"
| "error_status (Unauthorized msg) = (401, msg)"
| "error_status (Forbidden msg) = (403, msg)"
| "error_status NotFound = (404, ''Resource not found'')"
| "error_status (Conflict msg) = (409, msg)"
| "error_status (ConflictWithDetails msg _) = (409, msg)"
| "error_status (TooManyRequests msg) = (429, msg)"
| "error_status (BodyRejected st msg) = (st, msg)"
| "error_status Internal = (500, ''An internal server error occurred'')"
| "error_status VaultNotConfigured =
     (503, ''simply_ip_vault sync is not configured on this instance'')"
| "error_status VaultUnreachable = (502, ''Could not reach simply_ip_vault'')"

definition into_response :: "app_error \<Rightarrow> response" where
  "into_response e =
     (case e of
        ConflictWithDetails message details \<Rightarrow>
          \<lparr>status = 409,
           body = JObj (case details of
                          JObj extra \<Rightarrow> fold (\<lambda>kv. AList.update (fst kv) (snd kv)) extra
                                        [(''error'', JStr message)]
                        | _ \<Rightarrow> [(''error'', JStr message)])\<rparr>
      | _ \<Rightarrow>
          (case error_status e of
             (st, message) \<Rightarrow> \<lparr>status = st, body = JObj [(''error'', JStr message)]\<rparr>))"

subsection \<open>Extractors\<close>

text \<open>
  What axum's own extractors answer: a value, a body whose content is at fault, or any other
  rejection with the status axum chose.
\<close>

datatype 'a extracted =
    Extracted 'a
  | JsonDataError string
  | JsonSyntaxError string
  | OtherRejection nat string

fun strict_json :: "'a extracted \<Rightarrow> ('a, app_error) result" where
  "strict_json (Extracted v) = Ok v"
| "strict_json (JsonDataError text) = Err (InvalidInput text)"
| "strict_json (JsonSyntaxError text) = Err (InvalidInput text)"
| "strict_json (OtherRejection st text) = Err (BodyRejected st text)"

text \<open>\<open>StrictPath\<close> and \<open>StrictQuery\<close>: any rejection is an invalid input.\<close>

definition strict_path :: "(uuid, string) result \<Rightarrow> (uuid, app_error) result" where
  "strict_path r = (case r of Ok v \<Rightarrow> Ok v | Err text \<Rightarrow> Err (InvalidInput text))"

definition strict_query :: "('a, string) result \<Rightarrow> ('a, app_error) result" where
  "strict_query r = (case r of Ok v \<Rightarrow> Ok v | Err text \<Rightarrow> Err (InvalidInput text))"

subsection \<open>Properties\<close>

lemma keys_fold_update:
  "keys (fold (\<lambda>kv. AList.update (fst kv) (snd kv)) kvs m) = keys m \<union> keys kvs"
proof (induction kvs arbitrary: m)
  case (Cons kv kvs)
  show ?case using Cons [of "AList.update (fst kv) (snd kv) m"] by simp
qed simp

lemma lookup_fold_update:
  "k \<notin> keys kvs \<Longrightarrow> map_of (fold (\<lambda>kv. AList.update (fst kv) (snd kv)) kvs m) k = map_of m k"
proof (induction kvs arbitrary: m)
  case (Cons kv kvs)
  then show ?case using Cons.IH [of "AList.update (fst kv) (snd kv) m"] by auto
qed simp

text \<open>
  The error envelope. Every error is rendered as a JSON object that has an \<open>error\<close> field,
  whatever structured details are merged into it; and unless the details themselves carry an
  \<open>error\<close> field, that field is the error's own message.
\<close>

theorem into_response_envelope:
  "\<exists>fields. body (into_response e) = JObj fields \<and> ''error'' \<in> keys fields
     \<and> (case e of
          ConflictWithDetails _ (JObj extra) \<Rightarrow>
            (''error'' \<in> keys extra) \<or> map_of fields ''error'' = Some (JStr (snd (error_status e)))
        | _ \<Rightarrow> map_of fields ''error'' = Some (JStr (snd (error_status e))))"
proof (cases e)
  case (ConflictWithDetails message details)
  show ?thesis
  proof (cases details)
    case (JObj extra)
    have "map_of (fold (\<lambda>kv. AList.update (fst kv) (snd kv)) extra [(''error'', JStr message)]) ''error''
        = Some (JStr message)" if "''error'' \<notin> keys extra"
      using lookup_fold_update [OF that] by simp
    then show ?thesis
      by (auto simp: ConflictWithDetails JObj into_response_def keys_fold_update)
  qed (simp_all add: ConflictWithDetails into_response_def)
qed (simp_all add: into_response_def)

end
