(* ===== verification/Database.thy ===== *)
theory Database
  imports Errors
begin

text \<open>
  The tables of \<open>src/entities\<close> with the constraints of \<open>src/migration\<close>, and the statements the
  handlers issue through SeaORM. A table is the list of its rows. The engine enforces the
  schema: \<open>db_valid\<close> is the conjunction of the constraints the migrations declare, and a write
  whose result violates them is refused and changes nothing. Deleting a key applies the
  declared referential actions.
\<close>

subsection \<open>Rows\<close>

record api_key =
  key_id :: uuid
  key_name :: string
  key_prefix :: string
  key_hash :: string
  signing_secret :: "string option"
  key_bound_ips :: "string option"
  is_master :: bool
  can_manage_keys :: bool
  parent_key_id :: "uuid option"
  key_owner_key_id :: "uuid option"
  key_created_at :: datetime
  key_updated_at :: datetime

record endpoint =
  ep_id :: uuid
  owner_key_id :: "uuid option"
  ep_name :: string
  description :: "string option"
  token_secret :: string
  vault_groups :: string
  ttl_seconds :: int
  max_age_seconds :: int
  ep_bound_ips :: "string option"
  filter_rfc1918 :: bool
  filter_bogons :: bool
  filter_loopback :: bool
  ep_last_synced_at :: "datetime option"
  ep_created_at :: datetime
  ep_updated_at :: datetime

record vault_group_permission =
  perm_id :: uuid
  perm_api_key_id :: uuid
  vault_group_id :: uuid
  vault_group_name :: string
  perm_created_at :: datetime

record audit_log =
  log_id :: uuid
  log_api_key_id :: "uuid option"
  log_api_key_name :: string
  log_api_key_prefix :: string
  log_client_ip :: string
  log_action :: string
  target_resource :: "string option"
  log_details :: "string option"
  log_timestamp :: datetime

text \<open>The engine behind a connection; the library may know others.\<close>

datatype backend = Sqlite | Postgres | MySql | OtherBackend string

record database =
  engine :: backend
  api_keys :: "api_key list"
  endpoints :: "endpoint list"
  permissions :: "vault_group_permission list"
  audit_logs :: "audit_log list"
  indexes :: "(string \<times> string) list"

subsection \<open>Constraints\<close>

definition MARKER_INDEX :: string where "MARKER_INDEX = ''idx_api_keys_master_marker''"

definition masters :: "database \<Rightarrow> api_key list" where
  "masters d = filter is_master (api_keys d)"

text \<open>\<open>api_keys\<close>: the primary key, the unique hash, and the unique index over the generated
  column that is 1 for a master and NULL otherwise.\<close>

definition api_keys_valid :: "database \<Rightarrow> bool" where
  "api_keys_valid d \<longleftrightarrow>
     distinct (map key_id (api_keys d)) \<and> distinct (map key_hash (api_keys d))
     \<and> ((''api_keys'', MARKER_INDEX) \<in> set (indexes d) \<longrightarrow> length (masters d) \<le> 1)"

definition key_exists :: "database \<Rightarrow> uuid \<Rightarrow> bool" where
  "key_exists d k \<longleftrightarrow> k \<in> set (map key_id (api_keys d))"

definition nullable_fk :: "database \<Rightarrow> uuid option \<Rightarrow> bool" where
  "nullable_fk d r = (case r of None \<Rightarrow> True | Some k \<Rightarrow> key_exists d k)"

definition endpoints_valid :: "database \<Rightarrow> bool" where
  "endpoints_valid d \<longleftrightarrow>
     distinct (map ep_id (endpoints d)) \<and> distinct (map token_secret (endpoints d))
     \<and> list_all (\<lambda>e. nullable_fk d (owner_key_id e)) (endpoints d)"

definition permissions_valid :: "database \<Rightarrow> bool" where
  "permissions_valid d \<longleftrightarrow>
     distinct (map perm_id (permissions d))
     \<and> distinct (map (\<lambda>p. (perm_api_key_id p, vault_group_id p)) (permissions d))
     \<and> list_all (\<lambda>p. key_exists d (perm_api_key_id p)) (permissions d)"

definition audit_logs_valid :: "database \<Rightarrow> bool" where
  "audit_logs_valid d \<longleftrightarrow>
     distinct (map log_id (audit_logs d))
     \<and> list_all (\<lambda>l. nullable_fk d (log_api_key_id l)) (audit_logs d)"

definition db_valid :: "database \<Rightarrow> bool" where
  "db_valid d \<longleftrightarrow> api_keys_valid d \<and> endpoints_valid d \<and> permissions_valid d \<and> audit_logs_valid d"

text \<open>The schema the migrations leave on an empty database.\<close>

definition migrated :: database where
  "migrated =
     \<lparr>engine = Sqlite, api_keys = [], endpoints = [], permissions = [], audit_logs = [],
      indexes = [(''api_keys'', ''idx_api_keys_prefix''), (''api_keys'', ''idx_api_keys_parent_key_id''),
                 (''api_keys'', ''idx_api_keys_owner_key_id''), (''api_keys'', MARKER_INDEX),
                 (''endpoints'', ''idx_endpoints_owner_key_id''), (''endpoints'', ''idx_endpoints_token_secret''),
                 (''audit_logs'', ''idx_audit_logs_action''), (''audit_logs'', ''idx_audit_logs_timestamp''),
                 (''audit_logs'', ''idx_audit_logs_api_key_id''),
                 (''vault_group_permissions'', ''idx_vault_group_permissions_key_group'')]\<rparr>"

subsection \<open>Statements\<close>

type_synonym 'a statement = "database \<Rightarrow> ('a \<times> database, db_err) result"

definition query :: "(database \<Rightarrow> 'a) \<Rightarrow> 'a statement" where
  "query q d = Ok (q d, d)"

definition enforce :: "'a \<Rightarrow> database \<Rightarrow> ('a \<times> database, db_err) result" where
  "enforce a d = (if db_valid d then Ok (a, d) else Err (DbUnique ''constraint failed''))"

definition find_key :: "uuid \<Rightarrow> database \<Rightarrow> api_key option" where
  "find_key k d = find (\<lambda>r. key_id r = k) (api_keys d)"

definition find_key_by_hash :: "string \<Rightarrow> database \<Rightarrow> api_key option" where
  "find_key_by_hash h d = find (\<lambda>r. key_hash r = h) (api_keys d)"

definition find_endpoint :: "uuid \<Rightarrow> database \<Rightarrow> endpoint option" where
  "find_endpoint e d = find (\<lambda>r. ep_id r = e) (endpoints d)"

definition find_endpoint_by_token :: "string \<Rightarrow> database \<Rightarrow> endpoint option" where
  "find_endpoint_by_token t d = find (\<lambda>r. token_secret r = t) (endpoints d)"

definition find_permission :: "uuid \<Rightarrow> database \<Rightarrow> vault_group_permission option" where
  "find_permission p d = find (\<lambda>r. perm_id r = p) (permissions d)"

definition owned_by :: "uuid \<Rightarrow> database \<Rightarrow> endpoint list" where
  "owned_by k d = filter (\<lambda>e. owner_key_id e = Some k) (endpoints d)"

definition permissions_of :: "uuid \<Rightarrow> database \<Rightarrow> vault_group_permission list" where
  "permissions_of k d = filter (\<lambda>p. perm_api_key_id p = k) (permissions d)"

definition insert_key :: "api_key \<Rightarrow> api_key statement" where
  "insert_key r d = enforce r (d\<lparr>api_keys := api_keys d @ [r]\<rparr>)"

definition insert_endpoint :: "endpoint \<Rightarrow> endpoint statement" where
  "insert_endpoint r d = enforce r (d\<lparr>endpoints := endpoints d @ [r]\<rparr>)"

definition insert_permission :: "vault_group_permission \<Rightarrow> vault_group_permission statement" where
  "insert_permission r d = enforce r (d\<lparr>permissions := permissions d @ [r]\<rparr>)"

definition insert_audit_log :: "audit_log \<Rightarrow> unit statement" where
  "insert_audit_log r d = enforce () (d\<lparr>audit_logs := audit_logs d @ [r]\<rparr>)"

text \<open>\<open>active.update\<close>: the columns that were set are written to the row as it is now, and the
  row is returned; a row that is gone is an error.\<close>

definition update_key :: "uuid \<Rightarrow> (api_key \<Rightarrow> api_key) \<Rightarrow> api_key statement" where
  "update_key k f d =
     (case find_key k d of
        None \<Rightarrow> Err DbRecordNotUpdated
      | Some r \<Rightarrow>
          enforce (f r) (d\<lparr>api_keys := map (\<lambda>r. if key_id r = k then f r else r) (api_keys d)\<rparr>))"

definition update_endpoint_row :: "uuid \<Rightarrow> (endpoint \<Rightarrow> endpoint) \<Rightarrow> endpoint statement" where
  "update_endpoint_row e f d =
     (case find_endpoint e d of
        None \<Rightarrow> Err DbRecordNotUpdated
      | Some r \<Rightarrow>
          enforce (f r) (d\<lparr>endpoints := map (\<lambda>r. if ep_id r = e then f r else r) (endpoints d)\<rparr>))"

text \<open>\<open>update_many\<close> of the endpoints a key owns.\<close>

definition reassign_owned :: "uuid \<Rightarrow> uuid \<Rightarrow> datetime \<Rightarrow> unit statement" where
  "reassign_owned k target now d =
     enforce () (d\<lparr>endpoints :=
       map (\<lambda>e. if owner_key_id e = Some k then e\<lparr>owner_key_id := Some target, ep_updated_at := now\<rparr> else e)
         (endpoints d)\<rparr>)"

definition unlink :: "uuid \<Rightarrow> uuid option \<Rightarrow> uuid option" where
  "unlink k r = (if r = Some k then None else r)"

text \<open>Deleting a key: endpoints and audit entries lose the link (SET NULL), grants go with it
  (CASCADE). The result is the number of rows deleted.\<close>

definition delete_key_by_id :: "uuid \<Rightarrow> nat statement" where
  "delete_key_by_id k d =
     enforce (length (filter (\<lambda>r. key_id r = k) (api_keys d)))
       (d\<lparr>api_keys := filter (\<lambda>r. key_id r \<noteq> k) (api_keys d),
          endpoints := map (\<lambda>e. e\<lparr>owner_key_id := unlink k (owner_key_id e)\<rparr>) (endpoints d),
          permissions := filter (\<lambda>p. perm_api_key_id p \<noteq> k) (permissions d),
          audit_logs := map (\<lambda>l. l\<lparr>log_api_key_id := unlink k (log_api_key_id l)\<rparr>) (audit_logs d)\<rparr>)"

definition delete_endpoint_by_id :: "uuid \<Rightarrow> nat statement" where
  "delete_endpoint_by_id e d =
     enforce (length (filter (\<lambda>r. ep_id r = e) (endpoints d)))
       (d\<lparr>endpoints := filter (\<lambda>r. ep_id r \<noteq> e) (endpoints d)\<rparr>)"

definition delete_permissions :: "uuid list \<Rightarrow> nat statement" where
  "delete_permissions ids d =
     enforce (length (filter (\<lambda>p. perm_id p \<in> set ids) (permissions d)))
       (d\<lparr>permissions := filter (\<lambda>p. perm_id p \<notin> set ids) (permissions d)\<rparr>)"

text \<open>
  \<open>has_index\<close> of \<open>src/db.rs\<close>: the catalogue query of the engine, which counts the indexes of
  that name on that table; an engine without a known query is an error.
\<close>

definition index_catalog_query :: "backend \<Rightarrow> (string, db_err) result" where
  "index_catalog_query b =
     (case b of
        Sqlite \<Rightarrow>
          Ok ''SELECT COUNT(*) AS hits FROM sqlite_master WHERE type = 'index' AND name = ? AND tbl_name = ?''
      | Postgres \<Rightarrow>
          Ok ''SELECT COUNT(*) AS hits FROM pg_indexes WHERE indexname = $1 AND tablename = $2''
      | MySql \<Rightarrow>
          Ok (''SELECT COUNT(*) AS hits FROM information_schema.statistics ''
            @ ''WHERE index_name = ? AND table_name = ? AND table_schema = DATABASE()'')
      | OtherBackend other \<Rightarrow>
          Err (DbCustom (''no catalog query is known for backend '' @ other
            @ ''; refusing to assume an index exists'')))"

definition has_index :: "string \<Rightarrow> string \<Rightarrow> bool statement" where
  "has_index tbl idx d =
     (case index_catalog_query (engine d) of
        Err e \<Rightarrow> Err e
      | Ok _ \<Rightarrow>
          let hits = length (filter (\<lambda>r. r = (tbl, idx)) (indexes d))
          in Ok (0 < hits, d))"

lemma has_index_Ok:
  "has_index tbl idx d = Ok (b, d') \<Longrightarrow> d' = d \<and> (b \<longleftrightarrow> (tbl, idx) \<in> set (indexes d))"
  by (auto simp: has_index_def Let_def filter_empty_conv split: sum.splits)

subsection \<open>Every statement keeps the schema\<close>

lemma enforce_Ok: "enforce a d = Ok (b, d') \<longleftrightarrow> db_valid d \<and> b = a \<and> d' = d"
  by (auto simp: enforce_def)

lemma migrated_valid: "db_valid migrated"
  by (simp add: db_valid_def migrated_def api_keys_valid_def endpoints_valid_def permissions_valid_def
      audit_logs_valid_def masters_def)

lemma find_key_Some: "find_key k d = Some r \<Longrightarrow> r \<in> set (api_keys d) \<and> key_id r = k"
  by (auto simp: find_key_def find_Some_iff)

lemma find_endpoint_Some: "find_endpoint e d = Some r \<Longrightarrow> r \<in> set (endpoints d) \<and> ep_id r = e"
  by (auto simp: find_endpoint_def find_Some_iff)

lemma find_permission_Some: "find_permission p d = Some r \<Longrightarrow> r \<in> set (permissions d) \<and> perm_id r = p"
  by (auto simp: find_permission_def find_Some_iff)

text \<open>A row is its key: two rows of a valid table with the same id are the same row.\<close>

lemma distinct_map_eq: "distinct (map f xs) \<Longrightarrow> x \<in> set xs \<Longrightarrow> y \<in> set xs \<Longrightarrow> f x = f y \<Longrightarrow> x = y"
  by (simp add: distinct_map inj_on_def)

lemma key_row_unique:
  "db_valid d \<Longrightarrow> r \<in> set (api_keys d) \<Longrightarrow> r' \<in> set (api_keys d) \<Longrightarrow> key_id r = key_id r' \<Longrightarrow> r = r'"
  unfolding db_valid_def api_keys_valid_def by (metis distinct_map_eq)

lemma find_key_unique: "db_valid d \<Longrightarrow> r \<in> set (api_keys d) \<Longrightarrow> find_key (key_id r) d = Some r"
proof -
  assume v: "db_valid d" and r: "r \<in> set (api_keys d)"
  then obtain r' where "find_key (key_id r) d = Some r'"
    unfolding find_key_def by (metis (mono_tags, lifting) find_None_iff not_None_eq)
  then show ?thesis using find_key_Some key_row_unique [OF v r] by metis
qed

end
