(* ===== verification/Gate.thy ===== *)
theory Gate
  imports Prelude "HOL-Library.Extended_Nat"
begin

text \<open>
  The contract shared by the keyed memories of the program: the feed's rate limiter
  (\<open>src/ratelimit.rs\<close>), the API's replay guard (\<open>src/replay.rs\<close>) and the DNS cache
  (\<open>src/dns_cache.rs\<close>). Each remembers a value per key, and the value is live for a while.

  \<open>retention\<close> says how long the memory lasts: a step taken while an entry is live keeps it,
  as long as the entry has slack left, and uses up at most one unit of slack. Slack is how
  many further steps an entry is safe from eviction; a memory that never evicts has infinite
  slack. \<open>gate\<close> adds an admission call. The client lemma: once a key is admitted, no call
  for that key is admitted again inside the window, whatever other steps are interleaved.
\<close>

locale retention =
  fixes inv :: "'s \<Rightarrow> bool"
    and step :: "'op \<Rightarrow> 's \<Rightarrow> 's"
    and stamp :: "'op \<Rightarrow> instant"
    and entry :: "'s \<Rightarrow> 'k \<Rightarrow> 'v option"
    and live :: "instant \<Rightarrow> 'v \<Rightarrow> bool"
    and slack :: "'s \<Rightarrow> 'k \<Rightarrow> enat"
  assumes step_inv: "inv s \<Longrightarrow> inv (step op s)"
    and keep: "inv s \<Longrightarrow> entry s k = Some v \<Longrightarrow> live (stamp op) v \<Longrightarrow> 0 < slack s k \<Longrightarrow>
          entry (step op s) k = Some v \<and> slack s k \<le> eSuc (slack (step op s) k)"
begin

lemma run_inv: "inv s \<Longrightarrow> inv (fold step ops s)"
  by (induction ops arbitrary: s) (simp_all add: step_inv)

lemma run_keep:
  "inv s \<Longrightarrow> entry s k = Some v \<Longrightarrow> \<forall>op \<in> set ops. live (stamp op) v \<Longrightarrow>
     enat (length ops) \<le> slack s k \<Longrightarrow> entry (fold step ops s) k = Some v"
proof (induction ops arbitrary: s)
  case (Cons op ops)
  from Cons.prems(4) have long: "eSuc (enat (length ops)) \<le> slack s k"
    by (simp add: eSuc_enat)
  have "0 < slack s k" using Cons.prems(4) by (cases "slack s k") (auto simp: zero_enat_def)
  with Cons.prems have kept: "entry (step op s) k = Some v"
    and slack: "slack s k \<le> eSuc (slack (step op s) k)"
    using keep [of s k v op] by auto
  have "enat (length ops) \<le> slack (step op s) k"
    using order_trans [OF long slack] by simp
  with kept Cons show ?case by (simp add: step_inv)
qed simp

end

locale gate = retention inv step stamp entry live slack
  for inv :: "'s \<Rightarrow> bool" and step :: "'op \<Rightarrow> 's \<Rightarrow> 's" and stamp :: "'op \<Rightarrow> instant"
    and entry :: "'s \<Rightarrow> 'k \<Rightarrow> 'v option" and live :: "instant \<Rightarrow> 'v \<Rightarrow> bool"
    and slack :: "'s \<Rightarrow> 'k \<Rightarrow> enat" +
  fixes admit :: "instant \<Rightarrow> 'k \<Rightarrow> 's \<Rightarrow> bool \<times> 's"
    and window :: "'s \<Rightarrow> duration"
  assumes admit_inv: "inv s \<Longrightarrow> inv (snd (admit now k s))"
    and refuse: "inv s \<Longrightarrow> entry s k = Some v \<Longrightarrow> live now v \<Longrightarrow> \<not> fst (admit now k s)"
    and remember: "inv s \<Longrightarrow> fst (admit now k s) \<Longrightarrow>
          \<exists>v. entry (snd (admit now k s)) k = Some v \<and> (\<forall>u < now + window s. live u v)"
begin

lemma no_second_admission:
  assumes "inv s" and first: "admit t k s = (True, s')"
    and early: "\<forall>op \<in> set ops. stamp op < t + window s"
    and room: "enat (length ops) \<le> slack s' k"
    and u: "u < t + window s"
  shows "\<not> fst (admit u k (fold step ops s'))"
proof -
  obtain v where "inv s'" and v: "entry s' k = Some v" and live: "\<forall>u < t + window s. live u v"
    using admit_inv [of s t k] remember [of s t k] assms(1) first by auto
  have "entry (fold step ops s') k = Some v"
    using run_keep [OF \<open>inv s'\<close> v _ room] live early by blast
  then show ?thesis using refuse [OF run_inv [OF \<open>inv s'\<close>]] live u by blast
qed

end

end
