(* ===== verification/Ip_Addr.thy ===== *)
theory Ip_Addr
  imports Prelude
begin

text \<open>
  \<open>std::net::IpAddr\<close>: the two address families as words of their width, the standard
  library's textual forms (\<open>FromStr\<close> and \<open>Display\<close>, function by function after
  \<open>core::net\<close>), and the crate's own \<open>normalize_ip\<close> of \<open>src/dns_cache.rs\<close>.
\<close>

datatype ipaddr = V4 "32 word" | V6 "128 word"

subsection \<open>\<open>IpAddr::from_str\<close>\<close>

type_synonym 'a reader = "string \<Rightarrow> ('a \<times> string) option"

definition hex_value :: "char \<Rightarrow> nat" where
  "hex_value c =
     (if is_ascii_digit c then byte c - 48
      else if 97 \<le> byte c then byte c - 87 else byte c - 55)"

definition is_digit_in :: "nat \<Rightarrow> char \<Rightarrow> bool" where
  "is_digit_in radix c \<longleftrightarrow> is_ascii_hexdigit c \<and> hex_value c < radix"

text \<open>\<open>Parser::read_number\<close>: digits of a radix, at most \<open>max_digits\<close>, value at most \<open>hi\<close>.\<close>

definition read_number :: "nat \<Rightarrow> nat \<Rightarrow> bool \<Rightarrow> nat \<Rightarrow> nat reader" where
  "read_number radix max_digits allow_zero_prefix hi s =
     (let ds = takeWhile (is_digit_in radix) s;
          v = fold (\<lambda>c n. radix * n + hex_value c) ds 0
      in if ds = [] \<or> max_digits < length ds then None
         else if \<not> allow_zero_prefix \<and> hd ds = CHR ''0'' \<and> 1 < length ds then None
         else if hi < v then None
         else Some (v, drop (length ds) s))"

definition read_given_char :: "char \<Rightarrow> unit reader" where
  "read_given_char c s = (case s of x # r \<Rightarrow> if x = c then Some ((), r) else None | [] \<Rightarrow> None)"

definition read_separator :: "char \<Rightarrow> nat \<Rightarrow> 'a reader \<Rightarrow> 'a reader" where
  "read_separator sep index inner s =
     (if 0 < index then
        (case read_given_char sep s of None \<Rightarrow> None | Some (_, r) \<Rightarrow> inner r)
      else inner s)"

text \<open>\<open>for (i, slot) in groups.iter_mut().enumerate()\<close> of \<open>read_ipv4_addr\<close>.\<close>

fun read_octets :: "nat \<Rightarrow> nat \<Rightarrow> nat list reader" where
  "read_octets 0 i s = Some ([], s)"
| "read_octets (Suc n) i s =
     (case read_separator (CHR ''.'') i (read_number 10 3 False 255) s of
        None \<Rightarrow> None
      | Some (g, r) \<Rightarrow>
          (case read_octets n (Suc i) r of
             None \<Rightarrow> None
           | Some (gs, r') \<Rightarrow> Some (g # gs, r')))"

definition read_ipv4_addr :: "nat list reader" where
  "read_ipv4_addr s = read_octets 4 0 s"

fun read_groups :: "nat \<Rightarrow> nat \<Rightarrow> string \<Rightarrow> nat list \<times> bool \<times> string" where
  "read_groups 0 i s = ([], False, s)"
| "read_groups (Suc n) i s =
     (case (if 0 < n then read_separator (CHR '':'') i read_ipv4_addr s else None) of
        Some (os, r) \<Rightarrow> ([256 * os ! 0 + os ! 1, 256 * os ! 2 + os ! 3], True, r)
      | None \<Rightarrow>
          (case read_separator (CHR '':'') i (read_number 16 4 True 65535) s of
             None \<Rightarrow> ([], False, s)
           | Some (g, r) \<Rightarrow>
               (case read_groups n (Suc i) r of (gs, v4, r') \<Rightarrow> (g # gs, v4, r'))))"

definition read_ipv6_addr :: "nat list reader" where
  "read_ipv6_addr s =
     (case read_groups 8 0 s of (head, head_ipv4, r) \<Rightarrow>
        if length head = 8 then Some (head, r)
        else if head_ipv4 then None
        else
          (case strip_prefix ''::'' r of
             None \<Rightarrow> None
           | Some r' \<Rightarrow>
               (case read_groups (8 - (length head + 1)) 0 r' of (tail, _, r'') \<Rightarrow>
                  Some (head @ replicate (8 - length head - length tail) 0 @ tail, r''))))"

definition be_value :: "nat \<Rightarrow> nat list \<Rightarrow> nat" where
  "be_value base gs = fold (\<lambda>g n. base * n + g) gs 0"

definition v4_of_octets :: "nat list \<Rightarrow> ipaddr" where
  "v4_of_octets os = V4 (word_of_nat (be_value 256 os))"

definition v6_of_segments :: "nat list \<Rightarrow> ipaddr" where
  "v6_of_segments gs = V6 (word_of_nat (be_value 65536 gs))"

definition parse_ip :: "string \<Rightarrow> ipaddr option" where
  "parse_ip s =
     (case read_ipv4_addr s of
        Some (os, r) \<Rightarrow> if r = [] then Some (v4_of_octets os) else None
      | None \<Rightarrow>
          (case read_ipv6_addr s of
             Some (gs, r) \<Rightarrow> if r = [] then Some (v6_of_segments gs) else None
           | None \<Rightarrow> None))"

subsection \<open>\<open>Display\<close>\<close>

definition octets :: "32 word \<Rightarrow> nat list" where
  "octets w =
     (let n = unat w in [n div 2 ^ 24, n div 2 ^ 16 mod 256, n div 2 ^ 8 mod 256, n mod 256])"

definition segments :: "128 word \<Rightarrow> nat list" where
  "segments w = map (\<lambda>i. unat w div 2 ^ (16 * i) mod 65536) [7, 6, 5, 4, 3, 2, 1, 0]"

definition show_v4 :: "32 word \<Rightarrow> string" where
  "show_v4 w = join ''.'' (map nat_digits (octets w))"

fun hex_digits :: "nat \<Rightarrow> string" where
  "hex_digits n =
     (let d = (\<lambda>k. char_of (if k < 10 then 48 + k else 87 + k))
      in if n < 16 then [d n] else hex_digits (n div 16) @ [d (n mod 16)])"

declare hex_digits.simps [simp del]

text \<open>The first longest run of zero segments, as (start, length).\<close>

fun zero_span :: "nat \<Rightarrow> nat \<times> nat \<Rightarrow> nat \<times> nat \<Rightarrow> nat list \<Rightarrow> nat \<times> nat" where
  "zero_span i current longest [] = longest"
| "zero_span i current longest (g # gs) =
     (if g = 0 then
        (let current' = (if snd current = 0 then (i, 1) else (fst current, Suc (snd current)));
             longest' = (if snd longest < snd current' then current' else longest)
         in zero_span (Suc i) current' longest' gs)
      else zero_span (Suc i) (0, 0) longest gs)"

definition to_ipv4_mapped :: "128 word \<Rightarrow> 32 word option" where
  "to_ipv4_mapped w = (if unat w div 2 ^ 32 = 0xFFFF then Some (word_of_nat (unat w mod 2 ^ 32)) else None)"

definition fmt_subslice :: "nat list \<Rightarrow> string" where
  "fmt_subslice gs = join '':'' (map hex_digits gs)"

definition show_v6 :: "128 word \<Rightarrow> string" where
  "show_v6 w =
     (case to_ipv4_mapped w of
        Some v4 \<Rightarrow> ''::ffff:'' @ show_v4 v4
      | None \<Rightarrow>
          (let gs = segments w; (start, len) = zero_span 0 (0, 0) (0, 0) gs
           in if 1 < len then fmt_subslice (take start gs) @ ''::'' @ fmt_subslice (drop (start + len) gs)
              else fmt_subslice gs))"

definition show_ip :: "ipaddr \<Rightarrow> string" where
  "show_ip a = (case a of V4 w \<Rightarrow> show_v4 w | V6 w \<Rightarrow> show_v6 w)"

subsection \<open>\<open>normalize_ip\<close> (src/dns_cache.rs)\<close>

definition normalize_ip :: "ipaddr \<Rightarrow> ipaddr" where
  "normalize_ip ip =
     (case ip of
        V6 v6 \<Rightarrow> (case to_ipv4_mapped v6 of Some v4 \<Rightarrow> V4 v4 | None \<Rightarrow> V6 v6)
      | v4 \<Rightarrow> v4)"

lemma normalize_ip_V4 [simp]: "normalize_ip (V4 w) = V4 w"
  by (simp add: normalize_ip_def)

lemma normalize_ip_idem [simp]: "normalize_ip (normalize_ip ip) = normalize_ip ip"
  by (auto simp: normalize_ip_def split: ipaddr.splits option.splits)

text \<open>A normalised address is never an IPv4-mapped one: each host has one spelling.\<close>

lemma normalize_ip_not_mapped: "normalize_ip ip = V6 w \<Longrightarrow> to_ipv4_mapped w = None"
  by (auto simp: normalize_ip_def split: ipaddr.splits option.splits)

subsection \<open>Printing and reading back\<close>

lemma is_digit_in_10: "is_digit_in 10 c \<longleftrightarrow> is_ascii_digit c"
  by (auto simp: is_digit_in_def is_ascii_hexdigit_def hex_value_def is_ascii_digit_def)

lemma hex_value_digit: "is_ascii_digit c \<Longrightarrow> hex_value c = digit_of c"
  by (simp add: hex_value_def digit_of_def)

lemma fold_hex_value:
  "list_all is_ascii_digit ds \<Longrightarrow>
     fold (\<lambda>c n. 10 * n + hex_value c) ds k = fold (\<lambda>c n. 10 * n + digit_of c) ds k"
  by (induction ds arbitrary: k) (auto simp: hex_value_digit)

lemma nat_digits_length: "n < 1000 \<Longrightarrow> length (nat_digits n) \<le> 3"
  by (subst nat_digits.simps, subst nat_digits.simps, subst nat_digits.simps) auto

lemma nat_digits_no_zero_prefix: "0 < n \<Longrightarrow> hd (nat_digits n) \<noteq> CHR ''0''"
proof (induction n rule: nat_digits.induct)
  case (1 n)
  show ?case
  proof (cases "n < 10")
    case True
    then have "byte (hd (nat_digits n)) = 48 + n"
      by (subst nat_digits.simps) (simp add: byte_char_of)
    moreover have "byte (CHR ''0'') = 48" by (simp add: byte_def)
    ultimately show ?thesis using 1(2) by force
  next
    case False
    then have "hd (nat_digits (n div 10)) \<noteq> CHR ''0''" using 1 by simp
    with False show ?thesis by (subst nat_digits.simps) (simp add: hd_append)
  qed
qed

lemma takeWhile_digits:
  assumes "r = [] \<or> \<not> is_ascii_digit (hd r)"
  shows "takeWhile is_ascii_digit (nat_digits n @ r) = nat_digits n"
proof -
  have "takeWhile is_ascii_digit r = []" using assms by (cases r) auto
  then show ?thesis by (subst takeWhile_append2) (simp_all add: nat_digits_digits)
qed

lemma read_number_nat_digits:
  assumes "n \<le> 255" and "r = [] \<or> \<not> is_ascii_digit (hd r)"
  shows "read_number 10 3 False 255 (nat_digits n @ r) = Some (n, r)"
proof -
  have ds: "takeWhile (is_digit_in 10) (nat_digits n @ r) = nat_digits n"
    using takeWhile_digits [OF assms(2)] by (simp add: is_digit_in_10 [abs_def])
  have v: "fold (\<lambda>c n. 10 * n + hex_value c) (nat_digits n) 0 = n"
    using digits_value_nat_digits [of n]
    by (simp add: fold_hex_value list_all_iff nat_digits_digits digits_value_def)
  have z: "\<not> (hd (nat_digits n) = CHR ''0'' \<and> 1 < length (nat_digits n))"
  proof (cases "n = 0")
    case True
    then show ?thesis by (simp add: nat_digits.simps [of 0])
  next
    case False
    then show ?thesis using nat_digits_no_zero_prefix by simp
  qed
  show ?thesis
    using assms(1) ds v z nat_digits_length [of n]
    by (simp add: read_number_def Let_def)
qed

lemma octet_bounds: "o1 \<in> set (octets w) \<Longrightarrow> o1 \<le> 255"
proof -
  have "unat w < 2 ^ 32" using unsigned_less [of w] by simp
  then have "unat w div 2 ^ 24 \<le> 255" by (simp add: less_mult_imp_div_less less_Suc_eq_le [symmetric])
  then show "o1 \<in> set (octets w) \<Longrightarrow> o1 \<le> 255" by (auto simp: octets_def Let_def)
qed

lemma be_value_octets: "be_value 256 (octets w) = unat w"
proof -
  have "n div 16777216 = n div 256 div 256 div 256" and "n div 65536 = n div 256 div 256" for n :: nat
    by (simp_all add: div_mult2_eq [symmetric])
  then show ?thesis
    by (simp add: be_value_def octets_def Let_def)
qed

lemma read_separator_octet:
  assumes "n \<le> 255" and "r = [] \<or> \<not> is_ascii_digit (hd r)"
  shows "read_separator (CHR ''.'') (Suc i) (read_number 10 3 False 255)
           (CHR ''.'' # nat_digits n @ r) = Some (n, r)"
  using read_number_nat_digits [OF assms]
  by (simp add: read_separator_def read_given_char_def)

lemma dot_not_digit [simp]: "\<not> is_ascii_digit (CHR ''.'')"
  by (simp add: is_ascii_digit_def byte_def)

lemma read_ipv4_show: "read_ipv4_addr (show_v4 w) = Some (octets w, [])"
proof -
  obtain a b c d where os: "octets w = [a, b, c, d]" by (simp add: octets_def Let_def)
  have le: "a \<le> 255" "b \<le> 255" "c \<le> 255" "d \<le> 255"
    using octet_bounds [of _ w] by (simp_all add: os)
  have a: "read_separator (CHR ''.'') 0 (read_number 10 3 False 255)
      (nat_digits a @ CHR ''.'' # r) = Some (a, CHR ''.'' # r)" for r
    using read_number_nat_digits [OF le(1), of "CHR ''.'' # r"] by (simp add: read_separator_def)
  have four: "4 = Suc (Suc (Suc (Suc 0)))" by simp
  show ?thesis
    by (simp add: show_v4_def os read_ipv4_addr_def four a
        read_separator_octet [OF le(2)] read_separator_octet [OF le(3)]
        read_separator_octet [OF le(4), of "[]", simplified])
qed

lemma parse_ip_show_v4: "parse_ip (show_ip (V4 w)) = Some (V4 w)"
  by (simp add: parse_ip_def show_ip_def read_ipv4_show v4_of_octets_def be_value_octets)

end
