(* ===== verification/Ip_Net.thy ===== *)
theory Ip_Net
  imports Ip_Addr
begin

text \<open>
  Networks come from the crate \<open>ipnet\<close>, which is not part of the sources: the record
  \<open>ipnet\<close> lists the functions the code calls, every definition takes it as an argument, and
  the locale \<open>ipnet_laws\<close> states the documented behaviour the code relies on: a network
  contains its own network address, a network made from an address contains exactly that
  address, two CIDR blocks that share an address are nested, and aggregation changes the
  list but not the set of addresses it covers.

  The second half is a reference implementation of that interface, used wherever a concrete
  instance is needed: CIDR blocks of both families, the textual form \<open>address/prefix\<close>, and
  an aggregation that absorbs nested blocks and merges sibling halves. Interpreting
  \<open>ipnet_laws\<close> on it shows that the documented behaviour is consistent.
\<close>

record 'net ipnet =
  net_parse :: "string \<Rightarrow> 'net option"
  net_from :: "ipaddr \<Rightarrow> 'net"
  net_contains :: "'net \<Rightarrow> ipaddr \<Rightarrow> bool"
  net_network :: "'net \<Rightarrow> ipaddr"
  net_aggregate :: "'net list \<Rightarrow> 'net list"
  net_to_string :: "'net \<Rightarrow> string"

definition covers :: "'net ipnet \<Rightarrow> 'net list \<Rightarrow> ipaddr \<Rightarrow> bool" where
  "covers I ns a \<longleftrightarrow> list_ex (\<lambda>n. net_contains I n a) ns"

locale ipnet_laws =
  fixes I :: "'net ipnet"
  assumes contains_from: "net_contains I (net_from I a) b \<longleftrightarrow> b = a"
    and contains_network: "net_contains I n (net_network I n)"
    and nested: "net_contains I m a \<Longrightarrow> net_contains I n a \<Longrightarrow>
          net_contains I m (net_network I n) \<or> net_contains I n (net_network I m)"
    and aggregate_covers: "covers I (net_aggregate I ns) a \<longleftrightarrow> covers I ns a"

subsection \<open>A reference implementation\<close>

datatype cidr = Cidr ipaddr nat

definition ip_width :: "ipaddr \<Rightarrow> nat" where
  "ip_width a = (case a of V4 _ \<Rightarrow> 32 | V6 _ \<Rightarrow> 128)"

definition ip_val :: "ipaddr \<Rightarrow> nat" where
  "ip_val a = (case a of V4 w \<Rightarrow> unat w | V6 w \<Rightarrow> unat w)"

definition mk_ip :: "nat \<Rightarrow> nat \<Rightarrow> ipaddr" where
  "mk_ip width n = (if width = 32 then V4 (word_of_nat n) else V6 (word_of_nat n))"

text \<open>A block: family width, prefix length, and the value of its prefix bits.\<close>

type_synonym block = "nat \<times> nat \<times> nat"

definition prefix_bits :: "nat \<Rightarrow> ipaddr \<Rightarrow> nat" where
  "prefix_bits p a = ip_val a div 2 ^ (ip_width a - p)"

definition block_of :: "cidr \<Rightarrow> block" where
  "block_of n = (case n of Cidr a p \<Rightarrow> (ip_width a, min p (ip_width a), prefix_bits p a))"

definition in_block :: "block \<Rightarrow> ipaddr \<Rightarrow> bool" where
  "in_block b a = (case b of (w, p, k) \<Rightarrow> ip_width a = w \<and> prefix_bits p a = k)"

definition cidr_contains :: "cidr \<Rightarrow> ipaddr \<Rightarrow> bool" where
  "cidr_contains n a =
     (case n of Cidr b p \<Rightarrow>
        if ip_width a = ip_width b then prefix_bits p a = prefix_bits p b else False)"

lemma cidr_contains_block: "cidr_contains n a \<longleftrightarrow> in_block (block_of n) a"
  by (cases n)
    (auto simp: cidr_contains_def in_block_def block_of_def prefix_bits_def min_def)

definition block_base :: "block \<Rightarrow> ipaddr" where
  "block_base b = (case b of (w, p, k) \<Rightarrow> mk_ip w (k * 2 ^ (w - p)))"

definition cidr_network :: "cidr \<Rightarrow> ipaddr" where
  "cidr_network n = block_base (block_of n)"

definition cidr_of_block :: "block \<Rightarrow> cidr" where
  "cidr_of_block b = (case b of (w, p, k) \<Rightarrow> Cidr (block_base b) p)"

definition within :: "block \<Rightarrow> block \<Rightarrow> bool" where
  "within b c = (case (b, c) of ((w, p, k), (w', p', k')) \<Rightarrow>
     w = w' \<and> p' \<le> p \<and> k div 2 ^ (p - p') = k')"

definition sibling :: "block \<Rightarrow> block" where
  "sibling b = (case b of (w, p, k) \<Rightarrow> (w, p, if even k then k + 1 else k - 1))"

text \<open>Insert a block: absorbed by a larger one, merged with its other half, or added.\<close>

fun agg_insert :: "nat \<Rightarrow> nat \<Rightarrow> nat \<Rightarrow> block list \<Rightarrow> block list" where
  "agg_insert w p k bs =
     (if list_ex (within (w, p, k)) bs then bs
      else if 0 < p \<and> sibling (w, p, k) \<in> set bs
      then agg_insert w (p - 1) (k div 2) (filter (\<lambda>b. b \<noteq> sibling (w, p, k)) bs)
      else (w, p, k) # filter (\<lambda>b. \<not> within b (w, p, k)) bs)"

declare agg_insert.simps [simp del]

definition cidr_aggregate :: "cidr list \<Rightarrow> cidr list" where
  "cidr_aggregate ns =
     map cidr_of_block (fold (\<lambda>n. case block_of n of (w, p, k) \<Rightarrow> agg_insert w p k) ns [])"

definition cidr_parse :: "string \<Rightarrow> cidr option" where
  "cidr_parse s =
     (case split_once (CHR ''/'') s of
        None \<Rightarrow> None
      | Some (a, p) \<Rightarrow>
          (case (parse_ip a, parse_int 0 128 p) of
             (Some ip, Some n) \<Rightarrow> if nat n \<le> ip_width ip then Some (Cidr ip (nat n)) else None
           | _ \<Rightarrow> None))"

definition cidr_to_string :: "cidr \<Rightarrow> string" where
  "cidr_to_string n = (case n of Cidr a p \<Rightarrow> show_ip a @ ''/'' @ nat_digits p)"

definition cidr_ipnet :: "cidr ipnet" where
  "cidr_ipnet =
     \<lparr>net_parse = cidr_parse, net_from = (\<lambda>a. Cidr a (ip_width a)),
      net_contains = cidr_contains, net_network = cidr_network,
      net_aggregate = cidr_aggregate, net_to_string = cidr_to_string\<rparr>"

lemma cidr_ipnet_simps [simp]:
  "net_parse cidr_ipnet = cidr_parse"
  "net_from cidr_ipnet = (\<lambda>a. Cidr a (ip_width a))"
  "net_contains cidr_ipnet = cidr_contains"
  "net_network cidr_ipnet = cidr_network"
  "net_aggregate cidr_ipnet = cidr_aggregate"
  "net_to_string cidr_ipnet = cidr_to_string"
  by (simp_all add: cidr_ipnet_def)

subsection \<open>Blocks\<close>

lemma ip_val_less: "ip_val a < 2 ^ ip_width a"
proof (cases a)
  case (V4 w)
  then show ?thesis using unsigned_less [of w] by (simp add: ip_val_def ip_width_def)
next
  case (V6 w)
  then show ?thesis using unsigned_less [of w] by (simp add: ip_val_def ip_width_def)
qed

lemma ip_width_cases: "ip_width a = 32 \<or> ip_width a = 128"
  by (cases a) (simp_all add: ip_width_def)

lemma mk_ip_simps:
  assumes "w = 32 \<or> w = 128" and "n < 2 ^ w"
  shows "ip_width (mk_ip w n) = w" "ip_val (mk_ip w n) = n"
proof -
  have "unat (word_of_nat n :: 32 word) = n" if "n < 2 ^ 32"
    using that by (simp add: unat_of_nat take_bit_nat_eq_self)
  moreover have "unat (word_of_nat n :: 128 word) = n" if "n < 2 ^ 128"
    using that by (simp add: unat_of_nat take_bit_nat_eq_self)
  ultimately show "ip_width (mk_ip w n) = w" "ip_val (mk_ip w n) = n"
    using assms by (auto simp: mk_ip_def ip_width_def ip_val_def)
qed

definition block_wf :: "block \<Rightarrow> bool" where
  "block_wf b = (case b of (w, p, k) \<Rightarrow> (w = 32 \<or> w = 128) \<and> p \<le> w \<and> k < 2 ^ p)"

lemma prefix_bits_min: "prefix_bits (min p (ip_width a)) a = prefix_bits p a"
  by (cases "p \<le> ip_width a") (simp_all add: prefix_bits_def min_def)

lemma prefix_bits_less: "p \<le> ip_width a \<Longrightarrow> prefix_bits p a < 2 ^ p"
proof -
  assume p: "p \<le> ip_width a"
  have "ip_val a < 2 ^ p * 2 ^ (ip_width a - p)"
    using ip_val_less [of a] p by (simp add: power_add [symmetric])
  then show ?thesis
    unfolding prefix_bits_def by (simp add: less_mult_imp_div_less)
qed

lemma block_of_wf: "block_wf (block_of n)"
proof (cases n)
  case (Cidr a p)
  have "prefix_bits p a < 2 ^ min p (ip_width a)"
    using prefix_bits_less [of "min p (ip_width a)" a] by (simp add: prefix_bits_min)
  then show ?thesis using ip_width_cases [of a] by (simp add: Cidr block_of_def block_wf_def)
qed

lemma block_base_value:
  assumes "block_wf (w, p, k)"
  shows "ip_width (block_base (w, p, k)) = w" "ip_val (block_base (w, p, k)) = k * 2 ^ (w - p)"
proof -
  have "k * 2 ^ (w - p) < 2 ^ p * 2 ^ (w - p)"
    using assms by (simp add: block_wf_def)
  also have "\<dots> = 2 ^ w" using assms by (simp add: block_wf_def power_add [symmetric])
  finally show "ip_width (block_base (w, p, k)) = w" "ip_val (block_base (w, p, k)) = k * 2 ^ (w - p)"
    using assms by (simp_all add: block_base_def mk_ip_simps block_wf_def)
qed

lemma prefix_bits_shorter:
  assumes "p \<le> q" "q \<le> ip_width a"
  shows "prefix_bits p a = prefix_bits q a div 2 ^ (q - p)"
proof -
  have "ip_width a - p = (ip_width a - q) + (q - p)" using assms by simp
  then show ?thesis by (simp add: prefix_bits_def power_add div_mult2_eq)
qed

lemma within_contains:
  assumes "within b c" "block_wf b" "in_block b a"
  shows "in_block c a"
  using assms prefix_bits_shorter [of _ _ a]
  by (auto simp: within_def in_block_def block_wf_def split: prod.splits)

lemma block_base_in: "block_wf b \<Longrightarrow> in_block b (block_base b)"
  by (cases b) (simp add: in_block_def block_base_value prefix_bits_def)

text \<open>Two blocks that share an address are nested, and then one holds the other's base.\<close>

lemma share_within:
  assumes "in_block b a" "in_block c a" "block_wf b" "block_wf c"
  shows "within b c \<or> within c b"
proof -
  obtain w p k where b: "b = (w, p, k)" by (cases b)
  obtain w' p' k' where c: "c = (w', p', k')" by (cases c)
  have eq: "w' = w" "ip_width a = w" "prefix_bits p a = k" "prefix_bits p' a = k'"
    and le: "p \<le> w" "p' \<le> w"
    using assms by (auto simp: b c in_block_def block_wf_def)
  show ?thesis
  proof (cases "p' \<le> p")
    case True
    then show ?thesis using eq le prefix_bits_shorter [of p' p a] by (simp add: b c within_def)
  next
    case False
    then show ?thesis using eq le prefix_bits_shorter [of p p' a] by (simp add: b c within_def)
  qed
qed

lemma block_nested:
  assumes "in_block b a" "in_block c a" "block_wf b" "block_wf c"
  shows "in_block b (block_base c) \<or> in_block c (block_base b)"
  using share_within [OF assms] within_contains block_base_in assms(3,4) by blast

lemma cidr_of_block_inverse: "block_wf b \<Longrightarrow> block_of (cidr_of_block b) = b"
  by (cases b)
    (simp add: cidr_of_block_def block_of_def block_base_value prefix_bits_def block_wf_def)

subsection \<open>Aggregation keeps the covered addresses\<close>

lemma sibling_wf: "block_wf (w, p, k) \<Longrightarrow> 0 < p \<Longrightarrow> block_wf (sibling (w, p, k))"
proof -
  assume wf: "block_wf (w, p, k)" and p: "0 < p"
  obtain q where q: "p = Suc q" using p by (cases p) auto
  have "even k \<Longrightarrow> k + 1 < 2 ^ p"
    using wf by (auto simp: block_wf_def q elim!: evenE)
  then show ?thesis using wf by (auto simp: sibling_def block_wf_def)
qed

lemma parent_wf: "block_wf (w, p, k) \<Longrightarrow> 0 < p \<Longrightarrow> block_wf (w, p - 1, k div 2)"
  by (cases p) (auto simp: block_wf_def)

lemma parent_covers:
  assumes "block_wf (w, p, k)" "0 < p"
  shows "in_block (w, p - 1, k div 2) a \<longleftrightarrow> in_block (w, p, k) a \<or> in_block (sibling (w, p, k)) a"
proof (cases "ip_width a = w")
  case True
  have "prefix_bits (p - 1) a = prefix_bits p a div 2"
    using prefix_bits_shorter [of "p - 1" p a] assms True by (simp add: block_wf_def)
  moreover have "m div 2 = k div 2 \<longleftrightarrow> m = k \<or> m = (if even k then k + 1 else k - 1)" for m :: nat
    by (auto elim!: evenE oddE)
  ultimately show ?thesis
    unfolding in_block_def sibling_def prod.case using True by metis
qed (simp add: in_block_def sibling_def)

definition block_covers :: "block list \<Rightarrow> ipaddr \<Rightarrow> bool" where
  "block_covers bs a \<longleftrightarrow> (\<exists>b \<in> set bs. in_block b a)"

lemma agg_insert_spec:
  "block_wf (w, p, k) \<Longrightarrow> (\<forall>b \<in> set bs. block_wf b) \<Longrightarrow>
     (\<forall>b \<in> set (agg_insert w p k bs). block_wf b)
     \<and> (\<forall>a. block_covers (agg_insert w p k bs) a \<longleftrightarrow> in_block (w, p, k) a \<or> block_covers bs a)"
proof (induction w p k bs rule: agg_insert.induct)
  case (1 w p k bs)
  let ?b = "(w, p, k)"
  let ?rest = "filter (\<lambda>b. b \<noteq> sibling ?b) bs"
  consider (absorbed) "list_ex (within ?b) bs"
    | (merged) "\<not> list_ex (within ?b) bs" "0 < p" "sibling ?b \<in> set bs"
    | (added) "\<not> list_ex (within ?b) bs" "\<not> (0 < p \<and> sibling ?b \<in> set bs)"
    by blast
  then show ?case
  proof cases
    case absorbed
    then have "in_block ?b a \<Longrightarrow> block_covers bs a" for a
      using within_contains [OF _ 1(2)] unfolding list_ex_iff block_covers_def by blast
    with absorbed 1(3) show ?thesis by (subst (1 2) agg_insert.simps) auto
  next
    case merged
    have rest: "block_covers bs a \<longleftrightarrow> in_block (sibling ?b) a \<or> block_covers ?rest a" for a
      using merged(3) unfolding block_covers_def set_filter by blast
    have "(\<forall>b \<in> set (agg_insert w (p - 1) (k div 2) ?rest). block_wf b)
        \<and> (\<forall>a. block_covers (agg_insert w (p - 1) (k div 2) ?rest) a \<longleftrightarrow>
              in_block (w, p - 1, k div 2) a \<or> block_covers ?rest a)"
      using 1(1) [OF merged(1)] merged(2,3) parent_wf [OF 1(2) merged(2)] 1(3) by auto
    moreover have "agg_insert w p k bs = agg_insert w (p - 1) (k div 2) ?rest"
      using merged by (subst agg_insert.simps) simp
    ultimately show ?thesis
      using rest parent_covers [OF 1(2) merged(2)] by auto
  next
    case added
    then have eq: "agg_insert w p k bs = ?b # filter (\<lambda>b. \<not> within b ?b) bs"
      by (subst agg_insert.simps) auto
    have "block_covers bs a \<Longrightarrow> in_block ?b a \<or> block_covers (filter (\<lambda>b. \<not> within b ?b) bs) a" for a
      using within_contains 1(3) by (fastforce simp: block_covers_def)
    then show ?thesis unfolding eq using 1(2,3) by (auto simp: block_covers_def)
  qed
qed

lemma agg_fold_spec:
  "(\<forall>b \<in> set bs. block_wf b) \<Longrightarrow>
     (\<forall>b \<in> set (fold (\<lambda>n. case block_of n of (w, p, k) \<Rightarrow> agg_insert w p k) ns bs). block_wf b)
     \<and> (\<forall>a. block_covers (fold (\<lambda>n. case block_of n of (w, p, k) \<Rightarrow> agg_insert w p k) ns bs) a \<longleftrightarrow>
          (\<exists>n \<in> set ns. cidr_contains n a) \<or> block_covers bs a)"
proof (induction ns arbitrary: bs)
  case (Cons n ns)
  obtain w p k where n: "block_of n = (w, p, k)" by (cases "block_of n")
  note ins = agg_insert_spec [of w p k bs] block_of_wf [of n]
  with Cons.prems have wf: "\<forall>b \<in> set (agg_insert w p k bs). block_wf b"
    and cov: "\<And>a. block_covers (agg_insert w p k bs) a \<longleftrightarrow> cidr_contains n a \<or> block_covers bs a"
    by (auto simp: n cidr_contains_block)
  show ?case using Cons.IH [OF wf] cov by (auto simp: n)
qed (simp add: block_covers_def)

lemma cidr_aggregate_covers: "covers cidr_ipnet (cidr_aggregate ns) a \<longleftrightarrow> covers cidr_ipnet ns a"
proof -
  let ?bs = "fold (\<lambda>n. case block_of n of (w, p, k) \<Rightarrow> agg_insert w p k) ns []"
  have wf: "\<forall>b \<in> set ?bs. block_wf b"
    and cov: "block_covers ?bs a \<longleftrightarrow> (\<exists>n \<in> set ns. cidr_contains n a)"
    using agg_fold_spec [of "[]" ns] by (auto simp: block_covers_def)
  have "covers cidr_ipnet (cidr_aggregate ns) a \<longleftrightarrow> block_covers ?bs a"
    using wf by (auto simp: covers_def list_ex_iff cidr_aggregate_def cidr_contains_block
        block_covers_def cidr_of_block_inverse)
  then show ?thesis by (simp add: cov covers_def list_ex_iff)
qed

lemma contains_host: "cidr_contains (Cidr a (ip_width a)) b \<longleftrightarrow> b = a"
  by (cases a; cases b)
    (auto simp: cidr_contains_block in_block_def block_of_def prefix_bits_def ip_width_def ip_val_def
      dest: word_unat_eq_iff [THEN iffD2])

interpretation cidr: ipnet_laws cidr_ipnet
proof unfold_locales
  fix m n :: cidr and a
  assume "net_contains cidr_ipnet m a" and "net_contains cidr_ipnet n a"
  then show "net_contains cidr_ipnet m (net_network cidr_ipnet n)
      \<or> net_contains cidr_ipnet n (net_network cidr_ipnet m)"
    using block_nested block_of_wf by (simp add: cidr_contains_block cidr_network_def)
next
  show "net_contains cidr_ipnet n (net_network cidr_ipnet n)" for n :: cidr
    by (simp add: cidr_contains_block cidr_network_def block_base_in block_of_wf)
qed (simp_all add: contains_host cidr_aggregate_covers)

end
