(* ===== verification/Dns_Cache.thy ===== *)
theory Dns_Cache
  imports Gate Ip_Net
begin

text \<open>
  The shared DNS cache and the hostname rule of \<open>src/dns_cache.rs\<close>. The name service is
  outside the program: a lookup is the parameter \<open>lookup\<close>, from a name to the addresses the
  system resolver returned, or \<open>None\<close> when it failed. \<open>resolve\<close> holds the read lock, then the
  write lock: the two sections are \<open>resolve_read\<close> and \<open>resolve_write\<close>, and each reads the
  clock for itself.
\<close>

definition POSITIVE_TTL :: duration where "POSITIVE_TTL = 30 * nanos"
definition NEGATIVE_TTL :: duration where "NEGATIVE_TTL = 5 * nanos"

record 'net hostname_state =
  addresses :: "'net list"
  attempted_at :: instant
  resolved :: bool

definition is_fresh :: "instant \<Rightarrow> duration \<Rightarrow> duration \<Rightarrow> 'net hostname_state \<Rightarrow> bool" where
  "is_fresh now positive negative st \<longleftrightarrow>
     (let ttl = if resolved st then positive else negative in now - attempted_at st < ttl)"

record 'net dns_resolver =
  positive_ttl :: duration
  negative_ttl :: duration
  dns_cache :: "(string \<times> 'net hostname_state) list"

definition dns_resolver_new :: "'net dns_resolver" where
  "dns_resolver_new =
     \<lparr>positive_ttl = POSITIVE_TTL, negative_ttl = NEGATIVE_TTL, dns_cache = []\<rparr>"

type_synonym name_service = "string \<Rightarrow> ipaddr list option"

definition lookup_hostname :: "'net ipnet \<Rightarrow> name_service \<Rightarrow> string \<Rightarrow> 'net list" where
  "lookup_hostname I lookup hostname =
     (case lookup hostname of
        Some addrs \<Rightarrow> map (\<lambda>addr. net_from I (normalize_ip addr)) addrs
      | None \<Rightarrow> [])"

text \<open>\<open>attempted\<close> is the clock after the lookup returned.\<close>

definition refresh_locked ::
    "'net ipnet \<Rightarrow> name_service \<Rightarrow> instant \<Rightarrow> string \<Rightarrow> 'net dns_resolver
       \<Rightarrow> 'net list \<times> 'net dns_resolver" where
  "refresh_locked I lookup attempted hostname d =
     (let found = lookup_hostname I lookup hostname
      in (found,
          d\<lparr>dns_cache := AList.update hostname
              \<lparr>addresses = found, attempted_at = attempted, resolved = (found \<noteq> [])\<rparr>
              (dns_cache d)\<rparr>))"

definition resolve_read :: "instant \<Rightarrow> string \<Rightarrow> 'net dns_resolver \<Rightarrow> 'net list option" where
  "resolve_read now hostname d =
     (case map_of (dns_cache d) hostname of
        Some st \<Rightarrow>
          if is_fresh now (positive_ttl d) (negative_ttl d) st then Some (addresses st) else None
      | None \<Rightarrow> None)"

definition resolve_write ::
    "'net ipnet \<Rightarrow> name_service \<Rightarrow> instant \<Rightarrow> instant \<Rightarrow> string \<Rightarrow> 'net dns_resolver
       \<Rightarrow> 'net list \<times> 'net dns_resolver" where
  "resolve_write I lookup now attempted hostname d =
     (case resolve_read now hostname d of
        Some found \<Rightarrow> (found, d)
      | None \<Rightarrow> refresh_locked I lookup attempted hostname d)"

definition resolve ::
    "'net ipnet \<Rightarrow> name_service \<Rightarrow> instant \<Rightarrow> string \<Rightarrow> 'net dns_resolver
       \<Rightarrow> 'net list \<times> 'net dns_resolver" where
  "resolve I lookup now hostname d =
     (case resolve_read now hostname d of
        Some found \<Rightarrow> (found, d)
      | None \<Rightarrow> resolve_write I lookup now now hostname d)"

definition force_resolve ::
    "'net ipnet \<Rightarrow> name_service \<Rightarrow> instant \<Rightarrow> string \<Rightarrow> 'net dns_resolver
       \<Rightarrow> 'net list \<times> 'net dns_resolver" where
  "force_resolve I lookup attempted hostname d = refresh_locked I lookup attempted hostname d"

subsection \<open>Which entries can be names\<close>

definition hostname_rejection :: "string \<Rightarrow> string option" where
  "hostname_rejection entry =
     (if entry = [] then Some ''empty''
      else if 253 < length entry
      then Some ''longer than the 253-character limit on a DNS name''
      else if CHR ''/'' \<in> set entry \<or> CHR '':'' \<in> set entry
      then Some (''contains '' @ [CHR 0x27, CHR ''/'', CHR 0x27] @ '' or ''
             @ [CHR 0x27, CHR '':'', CHR 0x27]
             @ '', which appear only in CIDR and IPv6 syntax, so this is a malformed address rather than a hostname'')
      else if \<not> (is_ascii_alphanumeric (hd entry) \<and> is_ascii_alphanumeric (last entry))
      then Some ''a hostname must begin and end with a letter or a digit''
      else if list_all (\<lambda>c. is_ascii_digit c \<or> c = CHR ''.'') entry
      then Some ''made only of digits and dots, so this is a malformed IPv4 literal''
      else if \<not> list_all (\<lambda>c. is_ascii_alphanumeric c \<or> c = CHR ''-'' \<or> c = CHR ''.'' \<or> c = CHR ''_'') entry
      then Some ''contains characters that cannot appear in a DNS name''
      else None)"

subsection \<open>The cache keeps what is fresh\<close>

text \<open>An atomic section of the resolver that can change it: a re-check under the write lock, or
  a forced attempt. Clock values are those the section reads.\<close>

datatype dns_section =
    ResolveWrite name_service instant instant string
  | ForceResolve name_service instant string

fun dns_step :: "'net ipnet \<Rightarrow> dns_section \<Rightarrow> 'net dns_resolver \<Rightarrow> 'net dns_resolver" where
  "dns_step I (ResolveWrite lookup now attempted h) d = snd (resolve_write I lookup now attempted h d)"
| "dns_step I (ForceResolve lookup attempted h) d = snd (force_resolve I lookup attempted h d)"

text \<open>Every entry records an outcome that is consistent with its addresses, and the reuse
  windows are the configured ones.\<close>

definition dns_inv :: "'net dns_resolver \<Rightarrow> bool" where
  "dns_inv d \<longleftrightarrow>
     positive_ttl d = POSITIVE_TTL \<and> negative_ttl d = NEGATIVE_TTL
     \<and> (\<forall>h st. map_of (dns_cache d) h = Some st \<longrightarrow> (resolved st \<longleftrightarrow> addresses st \<noteq> []))"

lemma dns_inv_new [keeps]: "dns_inv dns_resolver_new"
  by (simp add: dns_inv_def dns_resolver_new_def)

lemma dns_inv_refresh [keeps]: "dns_inv d \<Longrightarrow> dns_inv (snd (refresh_locked I lookup t h d))"
  by (auto simp: dns_inv_def refresh_locked_def Let_def)

lemma dns_inv_write [keeps]: "dns_inv d \<Longrightarrow> dns_inv (snd (resolve_write I lookup now t h d))"
  by (auto simp: resolve_write_def keeps split: option.splits)

lemma dns_inv_resolve [keeps]: "dns_inv d \<Longrightarrow> dns_inv (snd (resolve I lookup now h d))"
  by (auto simp: resolve_def keeps split: option.splits)

lemma dns_inv_step [keeps]: "dns_inv d \<Longrightarrow> dns_inv (dns_step I sec d)"
  by (cases sec) (simp_all add: keeps force_resolve_def)

interpretation dns: component dns_resolver_new "dns_step I" dns_inv for I
  by unfold_locales (simp_all add: keeps)

lemma resolve_write_keeps_fresh:
  assumes "map_of (dns_cache d) h = Some st" and "is_fresh now (positive_ttl d) (negative_ttl d) st"
  shows "map_of (dns_cache (snd (resolve_write I lookup now attempted h' d))) h = Some st"
  using assms
  by (auto simp: resolve_write_def resolve_read_def refresh_locked_def Let_def split: option.splits)

text \<open>As a memory of names: a re-check keeps every fresh attempt, and nothing is evicted.\<close>

interpretation dns_memory: retention dns_inv
  "\<lambda>(lookup, now, attempted, h) d. snd (resolve_write I lookup now attempted h d)"
  "\<lambda>(lookup, now, attempted, h). now" "\<lambda>d. map_of (dns_cache d)"
  "\<lambda>now. is_fresh now POSITIVE_TTL NEGATIVE_TTL" "\<lambda>_ _. \<infinity>" for I
proof unfold_locales
  show "dns_inv ((\<lambda>(lookup, now, attempted, h) d. snd (resolve_write I lookup now attempted h d)) op d)"
    if "dns_inv d" for d :: "'a dns_resolver" and op
    using that by (cases op) (simp add: keeps)
qed (auto simp: resolve_write_keeps_fresh dns_inv_def)

subsection \<open>What a name denotes during a request\<close>

text \<open>
  The networks a name stands for at \<open>now\<close>: its remembered attempt while fresh, a lookup
  otherwise. Resolving any name leaves this denotation of every name unchanged, so a loop of
  resolutions can be read as a pure function of the resolver it started from.
\<close>

definition host_nets :: "'net ipnet \<Rightarrow> name_service \<Rightarrow> instant \<Rightarrow> 'net dns_resolver \<Rightarrow> string \<Rightarrow> 'net list" where
  "host_nets I lookup now d h =
     (case resolve_read now h d of Some found \<Rightarrow> found | None \<Rightarrow> lookup_hostname I lookup h)"

lemma resolve_fst: "fst (resolve I lookup now h d) = host_nets I lookup now d h"
  by (simp add: resolve_def resolve_write_def refresh_locked_def host_nets_def Let_def
      split: option.splits)

lemma host_nets_resolve:
  assumes "dns_inv d"
  shows "host_nets I lookup now (snd (resolve I lookup now h d)) h' = host_nets I lookup now d h'"
  using assms
  by (auto simp: resolve_def resolve_write_def refresh_locked_def host_nets_def resolve_read_def
      is_fresh_def Let_def dns_inv_def POSITIVE_TTL_def NEGATIVE_TTL_def split: option.splits)

subsection \<open>Properties\<close>

text \<open>
  C35: what a resolution can return. The addresses come either from an attempt still inside
  its reuse window, 30 seconds after a success and 5 after a failure, with no lookup and no
  change, or they are what a lookup made by this call found, which is then remembered with
  its outcome.
\<close>

theorem resolve_answer:
  assumes "dns_inv d" and "resolve I lookup now h d = (found, d')"
  shows "(\<exists>st. map_of (dns_cache d) h = Some st \<and> found = addresses st \<and> d' = d
            \<and> now < attempted_at st + (if found = [] then NEGATIVE_TTL else POSITIVE_TTL))
    \<or> (found = lookup_hostname I lookup h
        \<and> map_of (dns_cache d') h = Some \<lparr>addresses = found, attempted_at = now, resolved = (found \<noteq> [])\<rparr>)"
proof (cases "resolve_read now h d")
  case None
  then show ?thesis
    using assms(2)
    by (auto simp: resolve_def resolve_write_def refresh_locked_def Let_def lookup_hostname_def)
next
  case (Some r)
  then obtain st where st: "map_of (dns_cache d) h = Some st" "r = addresses st"
    and fresh: "is_fresh now POSITIVE_TTL NEGATIVE_TTL st"
    using assms(1) by (auto simp: resolve_read_def dns_inv_def split: option.splits if_splits)
  have eq: "found = addresses st" "d' = d" using assms(2) Some st by (auto simp: resolve_def)
  have "resolved st \<longleftrightarrow> found \<noteq> []" using assms(1) st eq by (auto simp: dns_inv_def)
  then have "now < attempted_at st + (if found = [] then NEGATIVE_TTL else POSITIVE_TTL)"
    using fresh by (auto simp: is_fresh_def Let_def split: if_splits)
  with st eq show ?thesis by blast
qed

theorem resolve_answer_witness:
  "fst (resolve cidr_ipnet (\<lambda>_. Some [V6 0xFFFF08080808]) 7 ''dns.google'' dns_resolver_new)
     = [Cidr (V4 0x08080808) 32]"
proof -
  obtain found d' where r: "resolve cidr_ipnet (\<lambda>_. Some [V6 0xFFFF08080808]) 7 ''dns.google'' dns_resolver_new
      = (found, d')" by fastforce
  have "found = lookup_hostname cidr_ipnet (\<lambda>_. Some [V6 0xFFFF08080808]) ''dns.google''"
    using resolve_answer [OF dns_inv_new r] by (auto simp: dns_resolver_new_def)
  moreover have "lookup_hostname cidr_ipnet (\<lambda>_. Some [V6 0xFFFF08080808]) ''dns.google''
      = [Cidr (V4 0x08080808) 32]" by code_simp
  ultimately show ?thesis using r by simp
qed

text \<open>
  lookups are bounded under concurrency. After an attempt for a name, every re-check of
  that name in the next five seconds, however many requests are queued behind the lock and
  whatever other names are resolved in between, answers from memory: it returns what the
  attempt found and leaves the cache alone, whether the attempt succeeded or failed.
\<close>

theorem resolve_write_no_amplification:
  assumes "dns_inv d" and "refresh_locked I lookup t h d = (found, d')"
    and "\<forall>(_, now, _, _) \<in> set others. now < t + NEGATIVE_TTL"
    and "u < t + NEGATIVE_TTL"
    and "d'' = fold (\<lambda>(lookup, now, attempted, h) d. snd (resolve_write I lookup now attempted h d)) others d'"
  shows "resolve_write I lookup' u u h d'' = (found, d'')"
proof -
  let ?st = "\<lparr>addresses = found, attempted_at = t, resolved = (found \<noteq> [])\<rparr>"
  have inv: "dns_inv d'" using dns_inv_refresh [OF assms(1), of I lookup t h] assms(2) by simp
  have st: "map_of (dns_cache d') h = Some ?st"
    using assms(2) by (auto simp: refresh_locked_def Let_def)
  have fresh: "is_fresh now POSITIVE_TTL NEGATIVE_TTL ?st" if "now < t + NEGATIVE_TTL" for now
    using that by (auto simp: is_fresh_def Let_def POSITIVE_TTL_def NEGATIVE_TTL_def nanos_def)
  have "map_of (dns_cache d'') h = Some ?st"
    unfolding assms(5) using assms(3) fresh
    by (intro dns_memory.run_keep [OF inv st]) auto
  moreover have "dns_inv d''"
    unfolding assms(5) by (rule dns_memory.run_inv [OF inv])
  ultimately show ?thesis
    using fresh [OF assms(4)] by (auto simp: resolve_write_def resolve_read_def dns_inv_def)
qed

theorem resolve_write_no_amplification_witness:
  "resolve_write cidr_ipnet (\<lambda>_. Some [V4 1]) 20 20 ''proxy''
      (snd (refresh_locked cidr_ipnet (\<lambda>_. None) 10 ''proxy'' dns_resolver_new))
    = ([], snd (refresh_locked cidr_ipnet (\<lambda>_. None) 10 ''proxy'' dns_resolver_new))"
  by (rule resolve_write_no_amplification [where t = 10 and others = "[]" and d = dns_resolver_new
        and lookup = "\<lambda>_. None" and h = "''proxy''"])
    (simp_all add: dns_inv_new refresh_locked_def lookup_hostname_def NEGATIVE_TTL_def nanos_def)

text \<open>The shape of a name, in one line.\<close>

definition hostname_shape :: "string \<Rightarrow> bool" where
  "hostname_shape s \<longleftrightarrow>
     s \<noteq> [] \<and> length s \<le> 253
     \<and> is_ascii_alphanumeric (hd s) \<and> is_ascii_alphanumeric (last s)
     \<and> list_all (\<lambda>c. is_ascii_alphanumeric c \<or> c \<in> {CHR ''-'', CHR ''.'', CHR ''_''}) s
     \<and> list_ex (\<lambda>c. \<not> is_ascii_digit c \<and> c \<noteq> CHR ''.'') s"

text \<open>
  which entries are accepted as hostnames: exactly the strings of 1 to 253 letters,
  digits, hyphens, dots and underscores that begin and end with a letter or digit and are
  not made of digits and dots alone.
\<close>

theorem hostname_rejection_shape: "hostname_rejection s = None \<longleftrightarrow> hostname_shape s"
proof -
  have no: "\<not> is_ascii_alphanumeric (CHR ''/'')" "\<not> is_ascii_alphanumeric (CHR '':'')"
    by code_simp+
  show ?thesis
    unfolding hostname_rejection_def hostname_shape_def list_all_iff list_ex_iff
    using no by (auto simp: not_less)
qed

end
