(* ===== verification/Bound_Ips.thy ===== *)
theory Bound_Ips
  imports Dns_Cache
begin

text \<open>
  \<open>bound_ips\<close> parsing and enforcement, \<open>src/bound_ips.rs\<close>. The error message of the code is
  formatted from the offending entry and the reason; the model's error is that pair.
\<close>

datatype 'net bound_ip_entry = BoundNetwork 'net | BoundHostname string

text \<open>The loop of \<open>parse_bound_ips\<close>; \<open>entries\<close> is the vector pushed to so far.\<close>

fun parse_bound_entries ::
    "'net ipnet \<Rightarrow> 'net bound_ip_entry list \<Rightarrow> string list
       \<Rightarrow> ('net bound_ip_entry list, string \<times> string) result" where
  "parse_bound_entries I entries [] = Ok entries"
| "parse_bound_entries I entries (entry # rest) =
     (case net_parse I entry of
        Some net \<Rightarrow> parse_bound_entries I (entries @ [BoundNetwork net]) rest
      | None \<Rightarrow>
          (case parse_ip entry of
             Some addr \<Rightarrow> parse_bound_entries I (entries @ [BoundNetwork (net_from I addr)]) rest
           | None \<Rightarrow>
               (case hostname_rejection entry of
                  None \<Rightarrow> parse_bound_entries I (entries @ [BoundHostname entry]) rest
                | Some reason \<Rightarrow> Err (entry, reason))))"

definition parse_bound_ips ::
    "'net ipnet \<Rightarrow> string \<Rightarrow> ('net bound_ip_entry list, string \<times> string) result" where
  "parse_bound_ips I raw = parse_bound_entries I [] (comma_entries raw)"

definition validate_bound_ips :: "'net ipnet \<Rightarrow> string \<Rightarrow> (unit, string \<times> string) result" where
  "validate_bound_ips I raw =
     (case parse_bound_ips I raw of Ok _ \<Rightarrow> Ok () | Err e \<Rightarrow> Err e)"

fun is_allowed ::
    "'net ipnet \<Rightarrow> name_service \<Rightarrow> instant \<Rightarrow> 'net bound_ip_entry list \<Rightarrow> ipaddr \<Rightarrow> 'net dns_resolver
       \<Rightarrow> bool \<times> 'net dns_resolver" where
  "is_allowed I lookup now [] client_ip dns = (False, dns)"
| "is_allowed I lookup now (BoundNetwork net # rest) client_ip dns =
     (if net_contains I net client_ip then (True, dns)
      else is_allowed I lookup now rest client_ip dns)"
| "is_allowed I lookup now (BoundHostname name # rest) client_ip dns =
     (case resolve I lookup now name dns of
        (found, dns') \<Rightarrow>
          if list_ex (\<lambda>net. net_contains I net client_ip) found then (True, dns')
          else is_allowed I lookup now rest client_ip dns')"

subsection \<open>What an allow-list admits\<close>

fun entry_nets :: "(string \<Rightarrow> 'net list) \<Rightarrow> 'net bound_ip_entry \<Rightarrow> 'net list" where
  "entry_nets nets_of (BoundNetwork net) = [net]"
| "entry_nets nets_of (BoundHostname name) = nets_of name"

lemma set_entry_nets:
  "x \<in> set (entry_nets f e) \<longleftrightarrow> e = BoundNetwork x \<or> (\<exists>name. e = BoundHostname name \<and> x \<in> set (f name))"
  by (cases e) auto

lemma dns_inv_is_allowed [keeps]:
  "dns_inv dns \<Longrightarrow> dns_inv (snd (is_allowed I lookup now entries ip dns))"
proof (induction I lookup now entries ip dns rule: is_allowed.induct)
  case (3 I lookup now name rest ip dns)
  obtain found dns' where r: "resolve I lookup now name dns = (found, dns')" by fastforce
  with dns_inv_resolve [OF 3(2), of I lookup now name] have "dns_inv dns'" by simp
  with 3(1) [OF r [symmetric]] r show ?case by auto
qed auto

lemma is_allowed_nets:
  "dns_inv dns \<Longrightarrow> fst (is_allowed I lookup now entries ip dns) \<longleftrightarrow>
     covers I (concat (map (entry_nets (host_nets I lookup now dns)) entries)) ip"
proof (induction I lookup now entries ip dns rule: is_allowed.induct)
  case (3 I lookup now name rest ip dns)
  obtain found dns' where r: "resolve I lookup now name dns = (found, dns')" by fastforce
  have inv: "dns_inv dns'" using dns_inv_resolve [OF 3(2), of I lookup now name] r by simp
  have found: "found = host_nets I lookup now dns name"
    using resolve_fst [of I lookup now name dns] r by simp
  have same: "host_nets I lookup now dns' = host_nets I lookup now dns"
    using host_nets_resolve [OF 3(2), of I lookup now name] r by auto
  show ?case
    using 3(1) [OF r [symmetric] _ inv] by (auto simp: r found same covers_def)
qed (auto simp: covers_def)

text \<open>
  C34: the allow-list decision. A client is admitted exactly when some literal network of the
  list contains it, or some hostname of the list denotes, by a fresh remembered attempt or
  else by a lookup made now, a network that contains it. The order of the entries, and what
  resolving one name does to the shared cache, do not matter.
\<close>

theorem is_allowed_exact:
  assumes "dns_inv dns"
  shows "fst (is_allowed I lookup now entries ip dns) \<longleftrightarrow>
    (\<exists>net. BoundNetwork net \<in> set entries \<and> net_contains I net ip)
    \<or> (\<exists>name net. BoundHostname name \<in> set entries \<and> net \<in> set (host_nets I lookup now dns name)
         \<and> net_contains I net ip)"
proof -
  have "x \<in> set (concat (map (entry_nets f) entries)) \<longleftrightarrow>
      BoundNetwork x \<in> set entries \<or> (\<exists>name. BoundHostname name \<in> set entries \<and> x \<in> set (f name))"
    for x and f :: "string \<Rightarrow> 'a list"
    by (auto simp: set_entry_nets)
  then show ?thesis
    unfolding is_allowed_nets [OF assms] covers_def list_ex_iff by blast
qed

theorem is_allowed_exact_witness:
  "fst (is_allowed cidr_ipnet (\<lambda>_. Some [V4 1]) 5 [BoundHostname ''proxy''] (V4 1) dns_resolver_new)"
proof -
  have "host_nets cidr_ipnet (\<lambda>_. Some [V4 1]) 5 dns_resolver_new ''proxy'' = [Cidr (V4 1) 32]"
    by (simp add: host_nets_def resolve_read_def dns_resolver_new_def lookup_hostname_def ip_width_def)
  moreover have "net_contains cidr_ipnet (Cidr (V4 1) 32) (V4 1)" by code_simp
  ultimately show ?thesis using is_allowed_exact [OF dns_inv_new] by fastforce
qed

end
