(* ===== verification/Config.thy ===== *)
theory Config
  imports Bound_Ips
begin

text \<open>
  Configuration and client address resolution, \<open>src/config.rs\<close>. The process environment is
  the parameter \<open>env\<close>, from variable names to values. A request's headers come from the
  \<open>http\<close> crate: \<open>headers name\<close> is the value of the first such header when it is printable
  text, which is what \<open>headers.get(name).and_then(|h| h.to_str().ok())\<close> returns.
  The DNS resolver that \<open>TrustedProxies\<close> holds is shared with the rest of the program, so it
  is passed to and returned by the operations that use it.
\<close>

type_synonym header_map = "string \<Rightarrow> string option"
type_synonym environment = "string \<Rightarrow> string option"

definition DEFAULT_BIND_HOST :: ipaddr where "DEFAULT_BIND_HOST = V4 0"
definition DEFAULT_BIND_PORT :: int where "DEFAULT_BIND_PORT = 3002"
definition DEFAULT_SIGNATURE_MAX_AGE_SECONDS :: int where "DEFAULT_SIGNATURE_MAX_AGE_SECONDS = 300"
definition TRUSTED_PROXIES_ENV :: string where "TRUSTED_PROXIES_ENV = ''TRUSTED_PROXIES''"
definition BOOT_GRACE_PERIOD :: duration where "BOOT_GRACE_PERIOD = 60 * nanos"

subsection \<open>The trusted proxies\<close>

datatype 'net proxy_matcher = ProxyNetwork 'net | ProxyHostname string

record invalid_proxy_entry =
  invalid_entry :: string
  invalid_reason :: string

record 'net trusted_proxies =
  matchers :: "'net proxy_matcher list"
  networks :: "'net list"
  hostnames :: "string list"

definition trusted_proxies_new :: "'net proxy_matcher list \<Rightarrow> 'net trusted_proxies" where
  "trusted_proxies_new ms =
     \<lparr>matchers = ms,
      networks = List.map_filter (\<lambda>m. case m of ProxyNetwork net \<Rightarrow> Some net | ProxyHostname _ \<Rightarrow> None) ms,
      hostnames = List.map_filter (\<lambda>m. case m of ProxyHostname name \<Rightarrow> Some name | ProxyNetwork _ \<Rightarrow> None) ms\<rparr>"

definition trusted_proxies_default :: "'net trusted_proxies" where
  "trusted_proxies_default = \<lparr>matchers = [], networks = [], hostnames = []\<rparr>"

text \<open>One iteration of the loop of \<open>parse_trusted_proxies\<close>, on the two vectors it fills.\<close>

definition parse_proxy_entry ::
    "'net ipnet \<Rightarrow> string \<Rightarrow> 'net proxy_matcher list \<times> invalid_proxy_entry list
       \<Rightarrow> 'net proxy_matcher list \<times> invalid_proxy_entry list" where
  "parse_proxy_entry I entry acc =
     (case acc of (ms, invalid) \<Rightarrow>
        (case net_parse I entry of
           Some net \<Rightarrow> (ms @ [ProxyNetwork net], invalid)
         | None \<Rightarrow>
             (case parse_ip entry of
                Some addr \<Rightarrow> (ms @ [ProxyNetwork (net_from I addr)], invalid)
              | None \<Rightarrow>
                  (case hostname_rejection entry of
                     None \<Rightarrow> (ms @ [ProxyHostname entry], invalid)
                   | Some reason \<Rightarrow>
                       (ms, invalid @ [\<lparr>invalid_entry = entry, invalid_reason = reason\<rparr>])))))"

definition parse_trusted_proxies ::
    "'net ipnet \<Rightarrow> string \<Rightarrow> ('net proxy_matcher list, invalid_proxy_entry list) result" where
  "parse_trusted_proxies I raw =
     (case fold (parse_proxy_entry I) (comma_entries raw) ([], []) of
        (ms, invalid) \<Rightarrow> if invalid = [] then Ok ms else Err invalid)"

definition trusted_proxies_from_env ::
    "'net ipnet \<Rightarrow> environment \<Rightarrow> ('net trusted_proxies, invalid_proxy_entry list) result" where
  "trusted_proxies_from_env I env =
     (case env TRUSTED_PROXIES_ENV of
        None \<Rightarrow> Ok trusted_proxies_default
      | Some raw \<Rightarrow>
          (case parse_trusted_proxies I raw of
             Ok ms \<Rightarrow> Ok (trusted_proxies_new ms)
           | Err entries \<Rightarrow> Err entries))"

text \<open>The networks a request is matched against: literals, then each name resolved in turn.\<close>

fun resolve_names ::
    "'net ipnet \<Rightarrow> name_service \<Rightarrow> instant \<Rightarrow> string list \<Rightarrow> 'net list \<Rightarrow> 'net dns_resolver
       \<Rightarrow> 'net list \<times> 'net dns_resolver" where
  "resolve_names I lookup now [] merged dns = (merged, dns)"
| "resolve_names I lookup now (name # names) merged dns =
     (case resolve I lookup now name dns of
        (found, dns') \<Rightarrow> resolve_names I lookup now names (merged @ found) dns')"

definition proxies_resolved ::
    "'net ipnet \<Rightarrow> name_service \<Rightarrow> instant \<Rightarrow> 'net trusted_proxies \<Rightarrow> 'net dns_resolver
       \<Rightarrow> 'net list \<times> 'net dns_resolver" where
  "proxies_resolved I lookup now tp dns =
     (if hostnames tp = [] then (networks tp, dns)
      else resolve_names I lookup now (hostnames tp) (networks tp) dns)"

fun prime_names ::
    "'net ipnet \<Rightarrow> name_service \<Rightarrow> instant \<Rightarrow> string list \<Rightarrow> string list \<Rightarrow> 'net dns_resolver
       \<Rightarrow> string list \<times> 'net dns_resolver" where
  "prime_names I lookup now [] failed dns = (failed, dns)"
| "prime_names I lookup now (name # names) failed dns =
     (case force_resolve I lookup now name dns of
        (found, dns') \<Rightarrow>
          prime_names I lookup now names (if found = [] then failed @ [name] else failed) dns')"

definition prime_proxies ::
    "'net ipnet \<Rightarrow> name_service \<Rightarrow> instant \<Rightarrow> 'net trusted_proxies \<Rightarrow> 'net dns_resolver
       \<Rightarrow> string list \<times> 'net dns_resolver" where
  "prime_proxies I lookup now tp dns =
     (if hostnames tp = [] then ([], dns) else prime_names I lookup now (hostnames tp) [] dns)"

text \<open>The detached boot task: prime, and once more after the grace period if a name failed.
  \<open>meanwhile\<close> is what requests do to the shared resolver during the sleep.\<close>

definition prime_with_grace ::
    "'net ipnet \<Rightarrow> name_service \<Rightarrow> name_service \<Rightarrow> instant \<Rightarrow> ('net dns_resolver \<Rightarrow> 'net dns_resolver)
       \<Rightarrow> 'net trusted_proxies \<Rightarrow> 'net dns_resolver \<Rightarrow> 'net dns_resolver" where
  "prime_with_grace I lookup lookup' now meanwhile tp dns =
     (case prime_proxies I lookup now tp dns of
        (failed, dns') \<Rightarrow>
          if failed = [] then dns'
          else snd (prime_proxies I lookup' (now + BOOT_GRACE_PERIOD) tp (meanwhile dns')))"

subsection \<open>The client address\<close>

definition is_trusted :: "'net ipnet \<Rightarrow> ipaddr \<Rightarrow> 'net list \<Rightarrow> bool" where
  "is_trusted I ip trusted = list_ex (\<lambda>net. net_contains I net ip) trusted"

definition forwarded_client :: "'net ipnet \<Rightarrow> 'net list \<Rightarrow> string \<Rightarrow> ipaddr option" where
  "forwarded_client I trusted forwarded =
     find (\<lambda>ip. \<not> is_trusted I ip trusted)
       (rev (map normalize_ip (List.map_filter parse_ip (comma_entries forwarded))))"

definition real_ip_header :: "header_map \<Rightarrow> ipaddr option" where
  "real_ip_header headers = Option.bind (map_option trim (headers ''X-Real-IP'')) parse_ip"

definition resolve_client_ip :: "'net ipnet \<Rightarrow> ipaddr \<Rightarrow> header_map \<Rightarrow> 'net list \<Rightarrow> ipaddr" where
  "resolve_client_ip I peer headers trusted =
     (let peer = normalize_ip peer in
      if \<not> is_trusted I peer trusted then peer
      else case Option.bind (headers ''X-Forwarded-For'') (forwarded_client I trusted) of
             Some client \<Rightarrow> client
           | None \<Rightarrow>
               (case real_ip_header headers of
                  Some real_ip \<Rightarrow> normalize_ip real_ip
                | None \<Rightarrow> peer))"

subsection \<open>The runtime configuration\<close>

record 'net runtime_config =
  config_trusted_proxies :: "'net trusted_proxies"
  signature_max_age_seconds :: int
  vault_base_url :: "string option"
  vault_api_key :: "string option"
  vault_signing_secret :: "string option"

definition runtime_config_default :: "'net runtime_config" where
  "runtime_config_default =
     \<lparr>config_trusted_proxies = trusted_proxies_default,
      signature_max_age_seconds = DEFAULT_SIGNATURE_MAX_AGE_SECONDS,
      vault_base_url = None, vault_api_key = None, vault_signing_secret = None\<rparr>"

definition parse_or_warn :: "(string \<Rightarrow> 'a option) \<Rightarrow> environment \<Rightarrow> string \<Rightarrow> 'a \<Rightarrow> 'a" where
  "parse_or_warn parse env name dflt =
     (case env name of
        Some raw \<Rightarrow> (case parse (trim raw) of Some v \<Rightarrow> v | None \<Rightarrow> dflt)
      | None \<Rightarrow> dflt)"

definition trim_end_matches :: "char \<Rightarrow> string \<Rightarrow> string" where
  "trim_end_matches c s = rev (dropWhile (\<lambda>x. x = c) (rev s))"

definition non_empty :: "string option \<Rightarrow> string option" where
  "non_empty v = (case v of Some s \<Rightarrow> if s = [] then None else Some s | None \<Rightarrow> None)"

definition runtime_config_from_env ::
    "'net ipnet \<Rightarrow> environment \<Rightarrow> ('net runtime_config, invalid_proxy_entry list) result" where
  "runtime_config_from_env I env =
     (case trusted_proxies_from_env I env of
        Err e \<Rightarrow> Err e
      | Ok tp \<Rightarrow>
          Ok \<lparr>config_trusted_proxies = tp,
              signature_max_age_seconds =
                max (parse_or_warn parse_i64 env ''SIGNATURE_MAX_AGE_SECONDS''
                       DEFAULT_SIGNATURE_MAX_AGE_SECONDS) 1,
              vault_base_url = non_empty (map_option (trim_end_matches (CHR ''/'')) (env ''VAULT_BASE_URL'')),
              vault_api_key = non_empty (env ''VAULT_API_KEY''),
              vault_signing_secret = non_empty (env ''VAULT_SIGNING_SECRET'')\<rparr>)"

subsection \<open>The listen address\<close>

definition trimmed :: "string option \<Rightarrow> string option" where
  "trimmed v = non_empty (map_option trim v)"

definition parse_bind_addr :: "string option \<Rightarrow> string option \<Rightarrow> ipaddr \<times> int" where
  "parse_bind_addr host port =
     ((case trimmed host of
         Some raw \<Rightarrow> (case parse_ip raw of Some ip \<Rightarrow> ip | None \<Rightarrow> DEFAULT_BIND_HOST)
       | None \<Rightarrow> DEFAULT_BIND_HOST),
      (case trimmed port of
         Some raw \<Rightarrow> (case parse_u16 raw of Some p \<Rightarrow> p | None \<Rightarrow> DEFAULT_BIND_PORT)
       | None \<Rightarrow> DEFAULT_BIND_PORT))"

definition resolve_bind_addr :: "environment \<Rightarrow> ipaddr \<times> int" where
  "resolve_bind_addr env =
     (let host = (case env ''BIND_HOST'' of Some h \<Rightarrow> Some h | None \<Rightarrow> env ''HOST'')
      in parse_bind_addr host (env ''PORT''))"

subsection \<open>The bootstrap key\<close>

definition INITIAL_MASTER_KEY_HEX_LEN :: nat where "INITIAL_MASTER_KEY_HEX_LEN = 64"

text \<open>\<open>NonHex\<close> carries the offending character, as its UTF-8 bytes, and its byte position.\<close>

datatype initial_master_key_error = MasterKeyEmpty | BadLength nat | NonHex string nat

definition first_char :: "string \<Rightarrow> string" where
  "first_char s = (case utf8_head s of Some n \<Rightarrow> take n s | None \<Rightarrow> take 1 s)"

definition validate_initial_master_key ::
    "string option \<Rightarrow> (string option, initial_master_key_error) result" where
  "validate_initial_master_key raw =
     (case raw of
        None \<Rightarrow> Ok None
      | Some raw \<Rightarrow>
          let candidate = trim raw;
              hex = takeWhile is_ascii_hexdigit candidate;
              rest = dropWhile is_ascii_hexdigit candidate
          in if candidate = [] then Err MasterKeyEmpty
             else if rest \<noteq> [] then Err (NonHex (first_char rest) (length hex))
             else if length candidate \<noteq> INITIAL_MASTER_KEY_HEX_LEN
             then Err (BadLength (length candidate))
             else Ok (Some candidate))"

subsection \<open>The two list settings accept the same spellings\<close>

fun as_bound :: "'net proxy_matcher \<Rightarrow> 'net bound_ip_entry" where
  "as_bound (ProxyNetwork net) = BoundNetwork net"
| "as_bound (ProxyHostname name) = BoundHostname name"

lemma parse_proxy_entry_invalid:
  "snd acc \<noteq> [] \<Longrightarrow> snd (parse_proxy_entry I e acc) \<noteq> [] \<and> hd (snd (parse_proxy_entry I e acc)) = hd (snd acc)"
  by (auto simp: parse_proxy_entry_def split: prod.splits option.splits)

lemma fold_proxy_invalid:
  "snd acc \<noteq> [] \<Longrightarrow>
     snd (fold (parse_proxy_entry I) es acc) \<noteq> [] \<and> hd (snd (fold (parse_proxy_entry I) es acc)) = hd (snd acc)"
proof (induction es arbitrary: acc)
  case (Cons e es)
  then show ?case using parse_proxy_entry_invalid [of acc I e] by simp
qed simp

lemma parse_bound_entries_fold:
  "parse_bound_entries I (map as_bound ms) es =
     (case fold (parse_proxy_entry I) es (ms, []) of
        (ms', invalid) \<Rightarrow>
          if invalid = [] then Ok (map as_bound ms')
          else Err (invalid_entry (hd invalid), invalid_reason (hd invalid)))"
proof (induction es arbitrary: ms)
  case (Cons e es)
  show ?case
  proof (cases "net_parse I e")
    case (Some net)
    then show ?thesis using Cons [of "ms @ [ProxyNetwork net]"] by (simp add: parse_proxy_entry_def)
  next
    case not_net: None
    show ?thesis
    proof (cases "parse_ip e")
      case (Some a)
      then show ?thesis
        using not_net Cons [of "ms @ [ProxyNetwork (net_from I a)]"] by (simp add: parse_proxy_entry_def)
    next
      case not_ip: None
      show ?thesis
      proof (cases "hostname_rejection e")
        case None
        then show ?thesis
          using not_net not_ip Cons [of "ms @ [ProxyHostname e]"] by (simp add: parse_proxy_entry_def)
      next
        case (Some reason)
        let ?bad = "\<lparr>invalid_entry = e, invalid_reason = reason\<rparr>"
        have "parse_proxy_entry I e (ms, []) = (ms, [?bad])"
          using not_net not_ip Some by (simp add: parse_proxy_entry_def)
        then show ?thesis
          using fold_proxy_invalid [of "(ms, [?bad])" I es] not_net not_ip Some
          by (auto split: prod.splits)
      qed
    qed
  qed
qed simp

text \<open>
  \<open>bound_ips\<close> and \<open>TRUSTED_PROXIES\<close> accept exactly the same spellings and read them the
  same way. Where the proxy list reports every unusable entry, the allow-list reports the
  first of them.
\<close>

theorem parse_bound_ips_agrees:
  "parse_bound_ips I raw =
     (case parse_trusted_proxies I raw of
        Ok ms \<Rightarrow> Ok (map as_bound ms)
      | Err invalid \<Rightarrow> Err (invalid_entry (hd invalid), invalid_reason (hd invalid)))"
  using parse_bound_entries_fold [of I "[]" "comma_entries raw"]
  by (auto simp: parse_bound_ips_def parse_trusted_proxies_def split: prod.splits)

subsection \<open>Client address resolution\<close>

lemma dns_inv_resolve_names [keeps]:
  "dns_inv dns \<Longrightarrow> dns_inv (snd (resolve_names I lookup now names merged dns))"
proof (induction names arbitrary: merged dns)
  case (Cons name names)
  then show ?case
    using dns_inv_resolve [OF Cons.prems, of I lookup now name] by (auto split: prod.splits)
qed simp

lemma dns_inv_proxies_resolved [keeps]:
  "dns_inv dns \<Longrightarrow> dns_inv (snd (proxies_resolved I lookup now tp dns))"
  by (simp add: proxies_resolved_def keeps)

lemma host_nets_resolve_names:
  "dns_inv dns \<Longrightarrow>
     host_nets I lookup now (snd (resolve_names I lookup now names merged dns)) = host_nets I lookup now dns"
proof (induction names arbitrary: merged dns)
  case (Cons name names)
  obtain found dns' where r: "resolve I lookup now name dns = (found, dns')" by fastforce
  have "dns_inv dns'" using dns_inv_resolve [OF Cons.prems, of I lookup now name] r by simp
  moreover have "host_nets I lookup now dns' = host_nets I lookup now dns"
    using host_nets_resolve [OF Cons.prems, of I lookup now name] r by auto
  ultimately show ?case using Cons.IH [of dns' "merged @ found"] by (simp add: r)
qed simp

lemma host_nets_proxies_resolved:
  "dns_inv dns \<Longrightarrow>
     host_nets I lookup now (snd (proxies_resolved I lookup now tp dns)) = host_nets I lookup now dns"
  by (simp add: proxies_resolved_def host_nets_resolve_names)

lemma resolve_names_nets:
  "dns_inv dns \<Longrightarrow>
     fst (resolve_names I lookup now names merged dns) =
       merged @ concat (map (host_nets I lookup now dns) names)"
proof (induction names arbitrary: merged dns)
  case (Cons name names)
  obtain found dns' where r: "resolve I lookup now name dns = (found, dns')" by fastforce
  have "dns_inv dns'" using dns_inv_resolve [OF Cons.prems, of I lookup now name] r by simp
  moreover have "host_nets I lookup now dns' = host_nets I lookup now dns"
    using host_nets_resolve [OF Cons.prems, of I lookup now name] r by auto
  moreover have "found = host_nets I lookup now dns name"
    using resolve_fst [of I lookup now name dns] r by simp
  ultimately show ?case using Cons.IH [of dns' "merged @ found"] by (simp add: r)
qed simp

lemma proxies_resolved_nets:
  "dns_inv dns \<Longrightarrow>
     fst (proxies_resolved I lookup now tp dns) =
       networks tp @ concat (map (host_nets I lookup now dns) (hostnames tp))"
  by (simp add: proxies_resolved_def resolve_names_nets)

text \<open>
  Who is trusted during a request: the configured networks, followed by what each
  configured name denotes now. In particular a name that does not resolve adds nothing, and
  one name's failure never affects another entry.
\<close>

theorem proxies_resolved_exact:
  assumes "dns_inv dns"
  shows "fst (proxies_resolved I lookup now tp dns) =
    networks tp @ concat (map (host_nets I lookup now dns) (hostnames tp))"
  by (rule proxies_resolved_nets [OF assms])

theorem proxies_resolved_exact_witness:
  "fst (proxies_resolved cidr_ipnet (\<lambda>h. if h = ''a'' then None else Some [V4 7]) 5
      (trusted_proxies_new [ProxyHostname ''a'', ProxyNetwork (Cidr (V4 1) 32), ProxyHostname ''b''])
      dns_resolver_new)
    = [Cidr (V4 1) 32, Cidr (V4 7) 32]"
  unfolding proxies_resolved_exact [OF dns_inv_new]
  by (simp add: trusted_proxies_new_def map_filter_simps
      host_nets_def resolve_read_def dns_resolver_new_def lookup_hostname_def ip_width_def)

text \<open>
  Headers of an untrusted peer are ignored. When the TCP peer is not a trusted proxy, the
  client address is the peer itself, whatever forwarding headers the request carries.
\<close>

theorem resolve_client_ip_untrusted:
  assumes "\<not> is_trusted I (normalize_ip peer) trusted"
  shows "resolve_client_ip I peer headers trusted = normalize_ip peer"
  using assms by (simp add: resolve_client_ip_def Let_def)

theorem resolve_client_ip_untrusted_witness:
  "resolve_client_ip cidr_ipnet (V4 7) (\<lambda>_. Some ''1.2.3.4'') [] = V4 7"
  using resolve_client_ip_untrusted [of cidr_ipnet "V4 7" "[]" "\<lambda>_. Some ''1.2.3.4''"]
  by (simp add: is_trusted_def)

lemma split_on_concat: "split_on c (a @ c # b) = split_on c a @ split_on c b"
  by (induction a) (auto simp: neq_Nil_conv split: list.splits)

lemma comma_entries_append: "comma_entries (a @ '','' @ b) = comma_entries a @ comma_entries b"
  by (simp add: comma_entries_def split_on_concat)

lemma map_filter_append [simp]: "List.map_filter f (xs @ ys) = List.map_filter f xs @ List.map_filter f ys"
  by (simp add: List.map_filter_def)

text \<open>
  C33: a client behind trusted proxies cannot forge its address. Let the trusted peer's
  \<open>X-Forwarded-For\<close> be whatever the client claimed, followed by what the trusted proxies
  appended: the address of the client as the outermost proxy saw it, then further trusted
  proxies. Then the resolved address is the one the proxy saw, for every claim.
\<close>

theorem resolve_client_ip_unforgeable:
  assumes "is_trusted I (normalize_ip peer) trusted"
    and "headers ''X-Forwarded-For'' = Some (claimed @ '','' @ appended)"
    and "List.map_filter parse_ip (comma_entries appended) = client # proxies"
    and "\<not> is_trusted I (normalize_ip client) trusted"
    and "\<forall>p \<in> set proxies. is_trusted I (normalize_ip p) trusted"
  shows "resolve_client_ip I peer headers trusted = normalize_ip client"
proof -
  let ?P = "\<lambda>ip. \<not> is_trusted I ip trusted"
  have skip: "find ?P (xs @ y # ys) = Some y" if "\<forall>x \<in> set xs. \<not> ?P x" "?P y" for xs y ys
    using that by (induction xs) auto
  have "forwarded_client I trusted (claimed @ '','' @ appended) = Some (normalize_ip client)"
    unfolding forwarded_client_def comma_entries_append map_filter_append assms(3)
    using skip [of "rev (map normalize_ip proxies)" "normalize_ip client"] assms(4,5) by simp
  then show ?thesis using assms(1,2) by (simp add: resolve_client_ip_def Let_def)
qed

theorem resolve_client_ip_unforgeable_witness:
  "resolve_client_ip cidr_ipnet (V4 7) (\<lambda>_. Some (''1.2.3.4'' @ '','' @ '' 8.8.8.8'')) [Cidr (V4 7) 32]
     = V4 0x08080808"
proof -
  have p: "List.map_filter parse_ip (comma_entries '' 8.8.8.8'') = [V4 0x08080808]"
    by code_simp
  have t: "is_trusted cidr_ipnet (normalize_ip (V4 7)) [Cidr (V4 7) 32]"
    and u: "\<not> is_trusted cidr_ipnet (normalize_ip (V4 0x08080808)) [Cidr (V4 7) 32]"
    by code_simp+
  show ?thesis
    using resolve_client_ip_unforgeable [OF t _ p u, of "\<lambda>_. Some (''1.2.3.4'' @ '','' @ '' 8.8.8.8'')" "''1.2.3.4''"]
    by simp
qed

subsection \<open>Startup values\<close>

text \<open>
  which bootstrap keys are accepted: an unset variable, or a value that is, up to
  surrounding white space, exactly 64 hexadecimal digits; the accepted key is the trimmed
  value. Every other value is refused.
\<close>

theorem validate_initial_master_key_exact:
  "validate_initial_master_key raw = Ok key \<longleftrightarrow>
     (raw = None \<and> key = None)
     \<or> (\<exists>s. raw = Some s \<and> key = Some (trim s) \<and> length (trim s) = 64
           \<and> list_all is_ascii_hexdigit (trim s))"
proof (cases raw)
  case (Some s)
  have "dropWhile is_ascii_hexdigit (trim s) = [] \<longleftrightarrow> list_all is_ascii_hexdigit (trim s)"
    by (auto simp: list_all_iff dropWhile_eq_Nil_conv)
  then show ?thesis
    by (auto simp: Some validate_initial_master_key_def Let_def INITIAL_MASTER_KEY_HEX_LEN_def)
qed (auto simp: validate_initial_master_key_def)

text \<open>
  The lenient settings stay in range whatever the environment holds: the listen port is
  a 16-bit port, and the anti-replay window of an accepted configuration is at least one
  second and fits a signed 64-bit integer.
\<close>

theorem startup_settings_in_range:
  "0 \<le> snd (resolve_bind_addr env) \<and> snd (resolve_bind_addr env) < 2 ^ 16
   \<and> (case runtime_config_from_env I env of
        Err _ \<Rightarrow> True
      | Ok cfg \<Rightarrow> 1 \<le> signature_max_age_seconds cfg \<and> signature_max_age_seconds cfg < 2 ^ 63)"
proof -
  note range = parse_int_range
  have "0 \<le> snd (resolve_bind_addr env) \<and> snd (resolve_bind_addr env) < 2 ^ 16"
    using range [of 0 "2 ^ 16 - 1"]
    by (force simp: resolve_bind_addr_def Let_def parse_bind_addr_def parse_u16_def DEFAULT_BIND_PORT_def
        split: option.splits)
  moreover have "parse_or_warn parse_i64 env n DEFAULT_SIGNATURE_MAX_AGE_SECONDS < 2 ^ 63" for n
    using range [of "- (2 ^ 63)" "2 ^ 63 - 1"]
    by (force simp: parse_or_warn_def parse_i64_def DEFAULT_SIGNATURE_MAX_AGE_SECONDS_def split: option.splits)
  ultimately show ?thesis
    by (auto simp: runtime_config_from_env_def split: sum.splits)
qed

end
