(* ===== verification/Crypto.thy ===== *)
theory Crypto
  imports Prelude
begin

text \<open>
  Request signing and encryption at rest, \<open>src/crypto.rs\<close>. The primitives come from crates
  and are the fields of the record \<open>crypto\<close>: \<open>hex\<close>, \<open>sha2\<close>, \<open>hmac\<close> (\<open>None\<close> when the key material
  is refused) and the AEAD \<open>chacha20poly1305\<close>. The locale \<open>hex_laws\<close> states what the code
  relies on of the \<open>hex\<close> crate, and is interpreted on an implementation of that codec;
  \<open>aead_correct\<close> is the correctness of the AEAD. Random bytes are arguments.
\<close>

record crypto =
  hex_encode :: "string \<Rightarrow> string"
  hex_decode :: "string \<Rightarrow> string option"
  sha256 :: "string \<Rightarrow> string"
  hmac_sha256 :: "string \<Rightarrow> string \<Rightarrow> string option"
  aead_encrypt :: "string \<Rightarrow> string \<Rightarrow> string \<Rightarrow> string option"
  aead_decrypt :: "string \<Rightarrow> string \<Rightarrow> string \<Rightarrow> string option"

subsection \<open>Request signing\<close>

definition SIGNATURE_PREFIX :: string where "SIGNATURE_PREFIX = ''sha256=''"

definition generate_signing_secret :: "crypto \<Rightarrow> string \<Rightarrow> string" where
  "generate_signing_secret C bytes = hex_encode C bytes"

definition newline :: char where "newline = CHR 0x0A"

definition canonical_v1_payload :: "string \<Rightarrow> string \<Rightarrow> string \<Rightarrow> string \<Rightarrow> string" where
  "canonical_v1_payload method target timestamp body =
     method @ [newline] @ target @ [newline] @ timestamp @ [newline] @ body"

definition compute_signature :: "crypto \<Rightarrow> string \<Rightarrow> string \<Rightarrow> string option" where
  "compute_signature C secret payload =
     (case hmac_sha256 C secret payload of
        None \<Rightarrow> None
      | Some mac \<Rightarrow> Some (SIGNATURE_PREFIX @ hex_encode C mac))"

datatype signature_rejection = MissingPrefix | MalformedHex | Mismatch | KeyUnusable

definition verify_signature ::
    "crypto \<Rightarrow> string \<Rightarrow> string \<Rightarrow> string \<Rightarrow> (string, signature_rejection) result" where
  "verify_signature C secret payload provided =
     (case strip_prefix SIGNATURE_PREFIX (trim provided) of
        None \<Rightarrow> Err MissingPrefix
      | Some hex_digest \<Rightarrow>
          (case hex_decode C (trim hex_digest) of
             None \<Rightarrow> Err MalformedHex
           | Some provided_bytes \<Rightarrow>
               (case hmac_sha256 C secret payload of
                  None \<Rightarrow> Err KeyUnusable
                | Some mac \<Rightarrow>
                    if mac = provided_bytes then Ok provided_bytes else Err Mismatch)))"

subsection \<open>Encryption at rest\<close>

definition KEY_ENV_VAR :: string where "KEY_ENV_VAR = ''EXPORTER_ENCRYPTION_KEY''"
definition PLAINTEXT_PREFIX :: string where "PLAINTEXT_PREFIX = ''v1.plain.''"
definition SEALED_PREFIX :: string where "SEALED_PREFIX = ''v1.xchacha20poly1305.''"
definition NONCE_LEN :: nat where "NONCE_LEN = 24"
definition KEY_LEN :: nat where "KEY_LEN = 32"

datatype crypto_error = InvalidKey | MalformedCiphertext | DecryptionFailed | EncryptionFailed

datatype secret_cipher = Plaintext | Sealed string

definition from_hex_key :: "crypto \<Rightarrow> string \<Rightarrow> (secret_cipher, crypto_error) result" where
  "from_hex_key C hex_key =
     (case hex_decode C hex_key of
        None \<Rightarrow> Err InvalidKey
      | Some bytes \<Rightarrow> if length bytes \<noteq> KEY_LEN then Err InvalidKey else Ok (Sealed bytes))"

definition cipher_from_env :: "crypto \<Rightarrow> (string \<Rightarrow> string option) \<Rightarrow> (secret_cipher, crypto_error) result" where
  "cipher_from_env C env =
     (case env KEY_ENV_VAR of
        Some raw \<Rightarrow> if trim raw = [] then Ok Plaintext else from_hex_key C (trim raw)
      | None \<Rightarrow> Ok Plaintext)"

definition is_encrypting :: "secret_cipher \<Rightarrow> bool" where
  "is_encrypting c = (case c of Sealed _ \<Rightarrow> True | Plaintext \<Rightarrow> False)"

definition seal :: "crypto \<Rightarrow> string \<Rightarrow> secret_cipher \<Rightarrow> string \<Rightarrow> (string, crypto_error) result" where
  "seal C nonce cipher plaintext =
     (case cipher of
        Plaintext \<Rightarrow> Ok (PLAINTEXT_PREFIX @ hex_encode C plaintext)
      | Sealed key \<Rightarrow>
          (case aead_encrypt C key nonce plaintext of
             None \<Rightarrow> Err EncryptionFailed
           | Some ciphertext \<Rightarrow>
               Ok (SEALED_PREFIX @ hex_encode C nonce @ ''.'' @ hex_encode C ciphertext)))"

text \<open>\<open>open\<close> in the code: the plaintext branch first, then the sealed format piece by piece.\<close>

definition open_plain :: "crypto \<Rightarrow> string \<Rightarrow> (string, crypto_error) result" where
  "open_plain C encoded =
     (case hex_decode C encoded of
        None \<Rightarrow> Err MalformedCiphertext
      | Some bytes \<Rightarrow> ok_or MalformedCiphertext (from_utf8 bytes))"

definition open_sealed :: "crypto \<Rightarrow> secret_cipher \<Rightarrow> string \<Rightarrow> (string, crypto_error) result" where
  "open_sealed C cipher body =
     (case split_once (CHR ''.'') body of
        None \<Rightarrow> Err MalformedCiphertext
      | Some (nonce_hex, ciphertext_hex) \<Rightarrow>
          (case hex_decode C nonce_hex of
             None \<Rightarrow> Err MalformedCiphertext
           | Some nonce \<Rightarrow>
               if length nonce \<noteq> NONCE_LEN then Err MalformedCiphertext
               else case hex_decode C ciphertext_hex of
                      None \<Rightarrow> Err MalformedCiphertext
                    | Some ciphertext \<Rightarrow>
                        (case cipher of
                           Plaintext \<Rightarrow> Err DecryptionFailed
                         | Sealed key \<Rightarrow>
                             (case aead_decrypt C key nonce ciphertext of
                                None \<Rightarrow> Err DecryptionFailed
                              | Some plaintext \<Rightarrow> ok_or MalformedCiphertext (from_utf8 plaintext)))))"

definition open_secret :: "crypto \<Rightarrow> secret_cipher \<Rightarrow> string \<Rightarrow> (string, crypto_error) result" where
  "open_secret C cipher stored =
     (case strip_prefix PLAINTEXT_PREFIX stored of
        Some encoded \<Rightarrow> open_plain C encoded
      | None \<Rightarrow>
          (case strip_prefix SEALED_PREFIX stored of
             None \<Rightarrow> Err MalformedCiphertext
           | Some body \<Rightarrow> open_sealed C cipher body))"

subsection \<open>The hex codec\<close>

lemma hexdigit_not_white:
  assumes "is_ascii_hexdigit c"
  shows "c \<notin> ws_lead" "c \<notin> ws_trail"
proof -
  have "list_all (\<lambda>w. \<not> is_ascii_hexdigit (hd w) \<and> \<not> is_ascii_hexdigit (last w)) white_space"
    by code_simp
  then show "c \<notin> ws_lead" "c \<notin> ws_trail"
    using assms by (auto simp: ws_lead_def ws_trail_def list_all_iff)
qed

locale hex_laws =
  fixes C :: crypto
  assumes decode_encode: "hex_decode C (hex_encode C bytes) = Some bytes"
    and encode_digits: "list_all is_ascii_hexdigit (hex_encode C bytes)"
begin

lemma encode_no_dot: "CHR ''.'' \<notin> set (hex_encode C bytes)"
proof -
  have "\<not> is_ascii_hexdigit (CHR ''.'')" by code_simp
  then show ?thesis using encode_digits [of bytes] by (auto simp: list_all_iff)
qed

lemma trim_encode: "trim (hex_encode C bytes) = hex_encode C bytes"
proof (rule trim_id)
  assume ne: "hex_encode C bytes \<noteq> []"
  then have "is_ascii_hexdigit (hd (hex_encode C bytes))" "is_ascii_hexdigit (last (hex_encode C bytes))"
    using encode_digits [of bytes] by (auto simp: list_all_iff)
  then show "hd (hex_encode C bytes) \<notin> ws_lead" "last (hex_encode C bytes) \<notin> ws_trail"
    using hexdigit_not_white by auto
qed

end

text \<open>The signature header of a message: the prefix and the digits of its code.\<close>

lemma verify_signature_hex:
  assumes "list_all is_ascii_hexdigit digits" and "hex_decode C digits = Some mac"
    and "hmac_sha256 C secret payload = Some mac"
  shows "verify_signature C secret payload (SIGNATURE_PREFIX @ digits) = Ok mac"
proof -
  have ends: "c \<notin> ws_lead" "c \<notin> ws_trail" if "c \<in> set digits" for c
    using assms(1) hexdigit_not_white that by (auto simp: list_all_iff)
  have "CHR ''='' \<notin> ws_trail" "CHR ''s'' \<notin> ws_lead" by code_simp+
  then have "trim (SIGNATURE_PREFIX @ digits) = SIGNATURE_PREFIX @ digits"
    using ends by (intro trim_id) (auto simp: SIGNATURE_PREFIX_def)
  moreover have "trim digits = digits" using ends by (intro trim_id) auto
  ultimately show ?thesis using assms(2,3) by (simp add: verify_signature_def)
qed

text \<open>An implementation of the codec: two lower-case digits per byte; decoding takes either
  case, and refuses odd lengths and other characters.\<close>

definition nibble :: "nat \<Rightarrow> char" where
  "nibble n = (if n < 10 then char_of (48 + n) else char_of (87 + n))"

definition nibble_value :: "char \<Rightarrow> nat option" where
  "nibble_value c =
     (if is_ascii_digit c then Some (byte c - 48)
      else if 97 \<le> byte c \<and> byte c \<le> 102 then Some (byte c - 87)
      else if 65 \<le> byte c \<and> byte c \<le> 70 then Some (byte c - 55)
      else None)"

definition hex_of_bytes :: "string \<Rightarrow> string" where
  "hex_of_bytes bs = concat (map (\<lambda>b. [nibble (byte b div 16), nibble (byte b mod 16)]) bs)"

fun bytes_of_hex :: "string \<Rightarrow> string option" where
  "bytes_of_hex [] = Some []"
| "bytes_of_hex [_] = None"
| "bytes_of_hex (h # l # s) =
     (case (nibble_value h, nibble_value l, bytes_of_hex s) of
        (Some a, Some b, Some bs) \<Rightarrow> Some (char_of (16 * a + b) # bs)
      | _ \<Rightarrow> None)"

lemma nibble_cases: "n < 16 \<Longrightarrow> nibble_value (nibble n) = Some n \<and> is_ascii_hexdigit (nibble n)"
proof -
  assume "n < 16"
  moreover have "list_all (\<lambda>n. nibble_value (nibble n) = Some n \<and> is_ascii_hexdigit (nibble n)) [0..<16]"
    by code_simp
  ultimately show ?thesis by (simp add: list_all_iff)
qed

lemma nibbles:
  "nibble_value (nibble (byte b div 16)) = Some (byte b div 16)"
  "nibble_value (nibble (byte b mod 16)) = Some (byte b mod 16)"
  "is_ascii_hexdigit (nibble (byte b div 16))" "is_ascii_hexdigit (nibble (byte b mod 16))"
  using nibble_cases [of "byte b div 16"] nibble_cases [of "byte b mod 16"] byte_less [of b]
  by (auto simp del: byte_less)

lemma bytes_of_hex_of_bytes: "bytes_of_hex (hex_of_bytes bs) = Some bs"
proof (induction bs)
  case (Cons b bs)
  have "char_of (16 * (byte b div 16) + byte b mod 16) = b" by (simp add: byte_def)
  with Cons show ?case by (simp add: hex_of_bytes_def nibbles)
qed (simp add: hex_of_bytes_def)

lemma hex_of_bytes_digits: "list_all is_ascii_hexdigit (hex_of_bytes bs)"
  by (induction bs) (simp_all add: hex_of_bytes_def nibbles)

lemma hex_laws_codec:
  "hex_encode C = hex_of_bytes \<Longrightarrow> hex_decode C = bytes_of_hex \<Longrightarrow> hex_laws C"
  by (simp add: hex_laws_def bytes_of_hex_of_bytes hex_of_bytes_digits)

text \<open>A record of primitives with that codec. The other fields are placeholders of the right
  shape for evaluating the code around them: a tag that depends on key and message, and an
  AEAD that stores the key beside the text.\<close>

definition demo_crypto :: crypto where
  "demo_crypto =
     \<lparr>hex_encode = hex_of_bytes, hex_decode = bytes_of_hex,
      sha256 = (\<lambda>m. m),
      hmac_sha256 = (\<lambda>key m. Some (key @ m)),
      aead_encrypt = (\<lambda>key nonce m. Some (key @ nonce @ m)),
      aead_decrypt = (\<lambda>key nonce c. strip_prefix (key @ nonce) c)\<rparr>"

interpretation demo_hex: hex_laws demo_crypto
  by (rule hex_laws_codec) (simp_all add: demo_crypto_def)

subsection \<open>Properties\<close>

text \<open>
  C36: signed bytes determine the request. For methods, targets and timestamps without line
  breaks, which HTTP guarantees, two requests with the same canonical payload agree in
  method, target, timestamp and body: no part can be moved into another.
\<close>

theorem canonical_v1_payload_injective:
  assumes "canonical_v1_payload m t ts b = canonical_v1_payload m' t' ts' b'"
    and "newline \<notin> set m \<union> set t \<union> set ts" and "newline \<notin> set m' \<union> set t' \<union> set ts'"
  shows "m = m' \<and> t = t' \<and> ts = ts' \<and> b = b'"
proof -
  have cut: "x = x' \<and> y = y'"
    if "x @ newline # y = x' @ newline # y'" "newline \<notin> set x" "newline \<notin> set x'"
    for x y x' y' :: string
  proof -
    have "Some (x, y) = Some (x', y')"
      unfolding split_once_append [OF that(2), symmetric] split_once_append [OF that(3), symmetric] that(1) ..
    then show ?thesis by simp
  qed
  have "m = m' \<and> t @ newline # ts @ newline # b = t' @ newline # ts' @ newline # b'"
    using assms by (intro cut) (auto simp: canonical_v1_payload_def)
  moreover from this have "t = t' \<and> ts @ newline # b = ts' @ newline # b'"
    using assms by (intro cut) auto
  moreover from this have "ts = ts' \<and> b = b'" using assms by (intro cut) auto
  ultimately show ?thesis by blast
qed

theorem canonical_v1_payload_injective_witness:
  "canonical_v1_payload ''GET'' ''/api'' ''1'' ''x'' \<noteq> canonical_v1_payload ''GET'' ''/api'' ''1'' ''y''"
proof
  assume "canonical_v1_payload ''GET'' ''/api'' ''1'' ''x'' = canonical_v1_payload ''GET'' ''/api'' ''1'' ''y''"
  from canonical_v1_payload_injective [OF this] show False by (simp add: newline_def)
qed



text \<open>The correctness of the AEAD: decryption undoes encryption under the same key and nonce.\<close>

definition aead_correct :: "crypto \<Rightarrow> bool" where
  "aead_correct C \<longleftrightarrow>
     (\<forall>key nonce m c. aead_encrypt C key nonce m = Some c \<longrightarrow> aead_decrypt C key nonce c = Some m)"

lemma seal_opens:
  assumes "hex_laws C" and "aead_correct C" and "is_utf8 secret" and "length nonce = NONCE_LEN"
    and "seal C nonce cipher secret = Ok stored"
  shows "open_secret C cipher stored = Ok secret
    \<and> (case cipher of
         Plaintext \<Rightarrow> (\<forall>other. open_secret C other stored = Ok secret)
       | Sealed _ \<Rightarrow> open_secret C Plaintext stored = Err DecryptionFailed)"
proof (cases cipher)
  case Plaintext
  then show ?thesis
    using assms(3,5)
    by (auto simp: seal_def open_secret_def open_plain_def strip_prefix_append from_utf8_def
        hex_laws.decode_encode [OF assms(1)])
next
  case (Sealed key)
  then obtain c where c: "aead_encrypt C key nonce secret = Some c"
    and st: "stored = SEALED_PREFIX @ hex_encode C nonce @ ''.'' @ hex_encode C c"
    using assms(5) by (auto simp: seal_def split: option.splits)
  have p: "strip_prefix PLAINTEXT_PREFIX stored = None"
    by (simp add: st strip_prefix_def PLAINTEXT_PREFIX_def SEALED_PREFIX_def)
  have "split_once (CHR ''.'') (hex_encode C nonce @ ''.'' @ hex_encode C c)
      = Some (hex_encode C nonce, hex_encode C c)"
    using split_once_append [OF hex_laws.encode_no_dot [OF assms(1)]] by simp
  then have "open_sealed C ciph (hex_encode C nonce @ ''.'' @ hex_encode C c) =
      (case ciph of Plaintext \<Rightarrow> Err DecryptionFailed
       | Sealed k \<Rightarrow> (case aead_decrypt C k nonce c of None \<Rightarrow> Err DecryptionFailed
                     | Some m \<Rightarrow> ok_or MalformedCiphertext (from_utf8 m)))" for ciph
    using assms(4) by (simp add: open_sealed_def hex_laws.decode_encode [OF assms(1)])
  then have "open_secret C ciph stored =
      (case ciph of Plaintext \<Rightarrow> Err DecryptionFailed
       | Sealed k \<Rightarrow> (case aead_decrypt C k nonce c of None \<Rightarrow> Err DecryptionFailed
                     | Some m \<Rightarrow> ok_or MalformedCiphertext (from_utf8 m)))" for ciph
    using p by (simp add: open_secret_def) (simp add: st strip_prefix_append)
  moreover have "aead_decrypt C key nonce c = Some secret"
    using assms(2) c unfolding aead_correct_def by blast
  ultimately show ?thesis
    using assms(3) Sealed by (auto simp: from_utf8_def split: secret_cipher.splits)
qed

text \<open>
  C38: a stored secret is recovered. What \<open>seal\<close> writes, \<open>open\<close> reads back under the same
  cipher; a row written without encryption is read back under every cipher, so turning
  encryption on loses nothing; and a sealed row is never opened without a key.
\<close>

theorem seal_open_roundtrip:
  assumes "hex_laws C" and "aead_correct C" and "is_utf8 secret" and "length nonce = NONCE_LEN"
    and "seal C nonce cipher secret = Ok stored"
  shows "open_secret C cipher stored = Ok secret
    \<and> (case cipher of
         Plaintext \<Rightarrow> (\<forall>other. open_secret C other stored = Ok secret)
       | Sealed _ \<Rightarrow> open_secret C Plaintext stored = Err DecryptionFailed)"
  by (rule seal_opens [OF assms])

lemma demo_aead: "aead_correct demo_crypto"
  using strip_prefix_append by (simp add: aead_correct_def demo_crypto_def append_assoc [symmetric] del: append_assoc)

theorem seal_open_roundtrip_witness:
  "open_secret demo_crypto (Sealed ''k'')
     (SEALED_PREFIX @ hex_of_bytes (replicate 24 CHR ''n'') @ ''.''
        @ hex_of_bytes (''k'' @ replicate 24 CHR ''n'' @ ''s'')) = Ok ''s''"
proof -
  note demo_aead
  moreover have "is_utf8 ''s''" by (rule is_utf8_ascii) code_simp
  moreover have "length (replicate 24 (CHR ''n'')) = NONCE_LEN" by (simp add: NONCE_LEN_def)
  moreover have "seal demo_crypto (replicate 24 (CHR ''n'')) (Sealed ''k'') ''s'' =
      Ok (SEALED_PREFIX @ hex_of_bytes (replicate 24 CHR ''n'') @ ''.''
        @ hex_of_bytes (''k'' @ replicate 24 CHR ''n'' @ ''s''))"
    by (simp add: seal_def demo_crypto_def)
  ultimately show ?thesis
    by (rule conjunct1 [OF seal_open_roundtrip [OF demo_hex.hex_laws_axioms]])
qed

end
