(* ===== verification/Replay.thy ===== *)
theory Replay
  imports Gate
begin

text \<open>
  The replay guard of signed API requests, \<open>src/replay.rs\<close>. Its two mutexes, \<open>seen\<close> and
  \<open>schedule\<close>, are taken one after the other inside \<open>check_and_record\<close>, so a call is not one
  atomic step. Each critical section is a definition of its own (\<open>seen_full\<close>,
  \<open>schedule_sweep\<close>, \<open>sweep\<close>, \<open>record_signature\<close>), \<open>prune_if_due\<close> and
  \<open>replay_check_and_record\<close> compose them in the order of the code, and the single-use theorem
  is about every interleaving of sections of concurrent calls.
\<close>

definition PRUNE_INTERVAL_DIVISOR :: nat where "PRUNE_INTERVAL_DIVISOR = 4"
definition CAPACITY_BACKOFF_DIVISOR :: nat where "CAPACITY_BACKOFF_DIVISOR = 16"
definition MAX_TRACKED_SIGNATURES :: nat where "MAX_TRACKED_SIGNATURES = 250000"

text \<open>A \<open>SignatureId\<close>: the key that signed, and the digest bytes.\<close>

record signature_id =
  sig_key_id :: uuid
  sig_digest :: string

record prune_schedule =
  sched_next :: instant
  sched_next_capacity :: instant

record replay_guard =
  seen_poisoned :: bool
  seen :: "(signature_id \<times> instant) list"
  schedule_poisoned :: bool
  schedule :: prune_schedule
  guard_window :: duration
  prune_interval :: duration
  capacity_backoff :: duration

text \<open>\<open>window_seconds.clamp(1, 3600)\<close>, as a duration; division of durations rounds down.\<close>

definition replay_guard_new :: "instant \<Rightarrow> int \<Rightarrow> replay_guard" where
  "replay_guard_new now window_seconds =
     (let window = nat (max 1 (min 3600 window_seconds)) * nanos;
          interval = window div PRUNE_INTERVAL_DIVISOR
      in \<lparr>seen_poisoned = False, seen = [], schedule_poisoned = False,
          schedule = \<lparr>sched_next = now + interval, sched_next_capacity = now\<rparr>,
          guard_window = window, prune_interval = interval,
          capacity_backoff = window div CAPACITY_BACKOFF_DIVISOR\<rparr>)"

definition seen_full :: "replay_guard \<Rightarrow> bool" where
  "seen_full g \<longleftrightarrow> \<not> seen_poisoned g \<and> MAX_TRACKED_SIGNATURES \<le> length (seen g)"

text \<open>The section under the schedule's lock: whether a sweep is due, and its rescheduling.\<close>

definition schedule_sweep :: "instant \<Rightarrow> bool \<Rightarrow> replay_guard \<Rightarrow> bool \<times> replay_guard" where
  "schedule_sweep now over_capacity g =
     (if schedule_poisoned g then (False, g)
      else
        let routine_due = sched_next (schedule g) \<le> now;
            capacity_due = over_capacity \<and> sched_next_capacity (schedule g) \<le> now
        in if \<not> routine_due \<and> \<not> capacity_due then (False, g)
           else (True, g\<lparr>schedule :=
                   \<lparr>sched_next = now + prune_interval g,
                    sched_next_capacity =
                      if capacity_due then now + capacity_backoff g
                      else sched_next_capacity (schedule g)\<rparr>\<rparr>))"

definition sweep :: "instant \<Rightarrow> replay_guard \<Rightarrow> replay_guard" where
  "sweep now g =
     (if seen_poisoned g then g
      else g\<lparr>seen := filter (\<lambda>(_, expires_at). now < expires_at) (seen g)\<rparr>)"

definition prune_if_due :: "instant \<Rightarrow> replay_guard \<Rightarrow> replay_guard" where
  "prune_if_due now g =
     (case schedule_sweep now (seen_full g) g of
        (due, g') \<Rightarrow> if due then sweep now g' else g')"

text \<open>The section under the lock of \<open>seen\<close>: refuse a live entry, record anything else.\<close>

definition record_signature :: "instant \<Rightarrow> signature_id \<Rightarrow> replay_guard \<Rightarrow> bool \<times> replay_guard" where
  "record_signature now sid g =
     (if seen_poisoned g then (False, g)
      else
        let store = (True, g\<lparr>seen := AList.update sid (now + guard_window g) (seen g)\<rparr>)
        in case map_of (seen g) sid of
             Some expires_at \<Rightarrow> if now < expires_at then (False, g) else store
           | None \<Rightarrow> store)"

definition replay_check_and_record ::
    "instant \<Rightarrow> uuid \<Rightarrow> string \<Rightarrow> replay_guard \<Rightarrow> bool \<times> replay_guard" where
  "replay_check_and_record now key_id digest g =
     record_signature now \<lparr>sig_key_id = key_id, sig_digest = digest\<rparr> (prune_if_due now g)"

text \<open>A critical section that changes the guard, as one step of an interleaved execution.\<close>

datatype replay_section =
    ScheduleSweep instant bool
  | Sweep instant
  | RecordSignature instant signature_id

fun run_section :: "replay_section \<Rightarrow> replay_guard \<Rightarrow> replay_guard" where
  "run_section (ScheduleSweep now over) g = snd (schedule_sweep now over g)"
| "run_section (Sweep now) g = sweep now g"
| "run_section (RecordSignature now sid) g = snd (record_signature now sid g)"

fun section_now :: "replay_section \<Rightarrow> instant" where
  "section_now (ScheduleSweep now _) = now"
| "section_now (Sweep now) = now"
| "section_now (RecordSignature now _) = now"

subsection \<open>The guard as an admission gate\<close>

definition guard_inv :: "replay_guard \<Rightarrow> bool" where
  "guard_inv g \<longleftrightarrow> map_wf (seen g)"

lemma guard_inv_new [keeps]: "guard_inv (replay_guard_new now w)"
  by (simp add: guard_inv_def replay_guard_new_def Let_def)

lemma seen_schedule_sweep [simp]:
  "seen (snd (schedule_sweep now over g)) = seen g"
  "guard_window (snd (schedule_sweep now over g)) = guard_window g"
  by (simp_all add: schedule_sweep_def Let_def)

lemma guard_inv_sweep [keeps]: "guard_inv g \<Longrightarrow> guard_inv (sweep now g)"
  by (simp add: guard_inv_def sweep_def)

lemma guard_inv_record [keeps]: "guard_inv g \<Longrightarrow> guard_inv (snd (record_signature now sid g))"
  by (simp add: guard_inv_def record_signature_def Let_def split: option.splits)

lemma guard_inv_section [keeps]: "guard_inv g \<Longrightarrow> guard_inv (run_section sec g)"
  by (cases sec) (simp_all add: keeps, simp add: guard_inv_def)

lemma seen_sweep:
  "guard_inv g \<Longrightarrow> map_of (seen g) sid = Some e \<Longrightarrow> now < e \<Longrightarrow> map_of (seen (sweep now g)) sid = Some e"
  by (simp add: sweep_def guard_inv_def map_of_retain)

lemma section_keep:
  assumes "guard_inv g" "map_of (seen g) sid = Some e" "section_now sec < e"
  shows "map_of (seen (run_section sec g)) sid = Some e"
  using assms
  by (cases sec) (auto simp: seen_sweep record_signature_def Let_def split: option.splits)

interpretation guard_gate: gate guard_inv run_section section_now "\<lambda>g. map_of (seen g)" "(<)" "\<lambda>_ _. \<infinity>"
  record_signature guard_window
proof unfold_locales
  show "\<not> fst (record_signature now sid g)" if "map_of (seen g) sid = Some e" "now < e" for g sid e now
    using that by (simp add: record_signature_def Let_def)
  show "\<exists>v. map_of (seen (snd (record_signature now sid g))) sid = Some v
      \<and> (\<forall>u < now + guard_window g. u < v)"
    if "fst (record_signature now sid g)" for g sid now
    using that by (auto simp: record_signature_def Let_def split: option.splits if_splits)
qed (simp_all add: keeps section_keep)

text \<open>A whole call is a sequence of sections; pruning never loses a live entry.\<close>

lemma prune_if_due_sections:
  "\<exists>secs. prune_if_due now g = fold run_section secs g \<and> (\<forall>sec \<in> set secs. section_now sec = now)"
proof -
  obtain due g' where s: "schedule_sweep now (seen_full g) g = (due, g')" by fastforce
  have "prune_if_due now g = fold run_section
      (ScheduleSweep now (seen_full g) # (if due then [Sweep now] else [])) g"
    by (simp add: prune_if_due_def s)
  then show ?thesis
    by (intro exI [of _ "ScheduleSweep now (seen_full g) # (if due then [Sweep now] else [])"]) auto
qed

lemma prune_guard_inv [keeps]: "guard_inv g \<Longrightarrow> guard_inv (prune_if_due now g)"
  using prune_if_due_sections [of now g] guard_gate.run_inv by metis

lemma guard_window_prune [simp]: "guard_window (prune_if_due now g) = guard_window g"
  by (auto simp: prune_if_due_def sweep_def schedule_sweep_def Let_def)

lemma prune_keeps_live:
  assumes "guard_inv g"
  shows "(\<exists>e. map_of (seen (prune_if_due now g)) sid = Some e \<and> now < e) \<longleftrightarrow>
    (\<exists>e. map_of (seen g) sid = Some e \<and> now < e)"
proof -
  have "seen (prune_if_due now g) = seen g
      \<or> seen (prune_if_due now g) = filter (\<lambda>(_, e). now < e) (seen g)"
    by (auto simp: prune_if_due_def sweep_def schedule_sweep_def Let_def)
  then show ?thesis
    using assms by (auto simp: guard_inv_def map_of_retain split: option.splits if_splits)
qed

lemma seen_poisoned_prune [simp]: "seen_poisoned (prune_if_due now g) = seen_poisoned g"
  by (auto simp: prune_if_due_def sweep_def schedule_sweep_def Let_def)

subsection \<open>Properties\<close>

text \<open>
  what the guard answers. A verified signature is accepted exactly when the guard's lock
  is sound and the signature has no unexpired entry; pruning, whether routine or forced by
  capacity, never changes an answer.
\<close>

theorem replay_check_and_record_answer:
  assumes "guard_inv g"
  shows "fst (replay_check_and_record now key_id digest g) \<longleftrightarrow>
    seen_poisoned g = False
    \<and> (\<nexists>e. map_of (seen g) \<lparr>sig_key_id = key_id, sig_digest = digest\<rparr> = Some e \<and> now < e)"
proof -
  let ?id = "\<lparr>sig_key_id = key_id, sig_digest = digest\<rparr>"
  have "fst (record_signature now ?id h) \<longleftrightarrow>
      \<not> seen_poisoned h \<and> \<not> (\<exists>e. map_of (seen h) ?id = Some e \<and> now < e)" for h
    by (auto simp: record_signature_def Let_def split: option.splits)
  from this [of "prune_if_due now g"] show ?thesis
    unfolding replay_check_and_record_def seen_poisoned_prune prune_keeps_live [OF assms]
    by blast
qed

theorem replay_check_and_record_answer_witness:
  "fst (replay_check_and_record 5 7 ''d'' (replay_guard_new 0 300))"
  using replay_check_and_record_answer [OF guard_inv_new, of 5 7 "''d''" 0 300]
  by (simp add: replay_guard_new_def Let_def)

text \<open>
  Single use inside the window, under concurrency. Once a signature is accepted at \<open>t\<close>,
  no call accepts it again at an instant before \<open>t\<close> plus the guard's window, for every
  interleaving of critical sections of other calls executed inside that window, sweeps and
  capacity sweeps included.
\<close>

theorem replay_single_use:
  assumes "guard_inv g" and "replay_check_and_record t key_id digest g = (True, g')"
    and "\<forall>sec \<in> set secs. section_now sec < t + guard_window g"
    and "u < t + guard_window g"
  shows "\<not> fst (replay_check_and_record u key_id digest (fold run_section secs g'))"
proof -
  let ?id = "\<lparr>sig_key_id = key_id, sig_digest = digest\<rparr>"
  obtain more where more: "prune_if_due u (fold run_section secs g') = fold run_section more (fold run_section secs g')"
    and at_u: "\<forall>sec \<in> set more. section_now sec = u"
    using prune_if_due_sections by blast
  have "\<forall>sec \<in> set (secs @ more). section_now sec < t + guard_window (prune_if_due t g)"
    using assms(3,4) at_u by auto
  then have "\<not> fst (record_signature u ?id (fold run_section (secs @ more) g'))"
    using guard_gate.no_second_admission [OF prune_guard_inv [OF assms(1)],
        of t ?id t g' "secs @ more" u] assms(2,4)
    by (simp add: replay_check_and_record_def)
  then show ?thesis by (simp add: replay_check_and_record_def more)
qed

theorem replay_single_use_witness:
  "\<not> fst (replay_check_and_record 20 7 ''d''
     (fold run_section [Sweep 15, RecordSignature 16 \<lparr>sig_key_id = 8, sig_digest = ''e''\<rparr>]
        (snd (replay_check_and_record 10 7 ''d'' (replay_guard_new 0 300)))))"
  by (rule replay_single_use [where t = 10 and g = "replay_guard_new 0 300"])
    (simp_all add: guard_inv_def replay_check_and_record_def prune_if_due_def schedule_sweep_def
      record_signature_def replay_guard_new_def Let_def nanos_def
      PRUNE_INTERVAL_DIVISOR_def seen_full_def MAX_TRACKED_SIGNATURES_def)

end
