(* ===== verification/Rate_Limit.thy ===== *)
theory Rate_Limit
  imports Gate Ip_Addr
begin

text \<open>
  The feed's rate limiter, \<open>src/ratelimit.rs\<close>. The mutex is held for the whole of
  \<open>check_and_record\<close>, so a call is one atomic step on the state; the instant \<open>now\<close> is read
  before the lock is taken, so successive steps need not have increasing instants. A poisoned
  lock is the flag \<open>limiter_poisoned\<close>. The hash map \<open>next_allowed\<close> is an association list.
\<close>

definition RATE_LIMIT_WINDOW :: duration where
  "RATE_LIMIT_WINDOW = 120 * nanos"

definition MAX_TRACKED_IPS :: nat where
  "MAX_TRACKED_IPS = 10000"

record rate_limiter =
  limiter_poisoned :: bool
  next_allowed :: "(ipaddr \<times> instant) list"
  order :: "ipaddr list"

definition rate_limiter_new :: rate_limiter where
  "rate_limiter_new = \<lparr>limiter_poisoned = False, next_allowed = [], order = []\<rparr>"

text \<open>The eviction loop: pop the oldest first-seen address while the map is full.\<close>

fun evict_oldest ::
    "(ipaddr \<times> instant) list \<Rightarrow> ipaddr list \<Rightarrow> (ipaddr \<times> instant) list \<times> ipaddr list" where
  "evict_oldest m [] = (m, [])"
| "evict_oldest m (oldest # os) =
     (if MAX_TRACKED_IPS \<le> length m then evict_oldest (AList.delete oldest m) os
      else (m, oldest # os))"

definition rate_check_and_record ::
    "instant \<Rightarrow> ipaddr \<Rightarrow> rate_limiter \<Rightarrow> (unit, duration) result \<times> rate_limiter" where
  "rate_check_and_record now ip inner =
     (if limiter_poisoned inner then (Err RATE_LIMIT_WINDOW, inner)
      else
        let record_in = (\<lambda>is_new (m, os).
              (Ok (), inner\<lparr>next_allowed := AList.update ip (now + RATE_LIMIT_WINDOW) m,
                            order := if is_new then os @ [ip] else os\<rparr>))
        in case map_of (next_allowed inner) ip of
             Some t \<Rightarrow>
               if now < t then (Err (t - now), inner)
               else record_in False (next_allowed inner, order inner)
           | None \<Rightarrow>
               if MAX_TRACKED_IPS \<le> length (next_allowed inner)
               then record_in True (evict_oldest (next_allowed inner) (order inner))
               else record_in True (next_allowed inner, order inner))"

subsection \<open>The invariant\<close>

text \<open>The queue lists exactly the tracked addresses, once each, and never more than the bound.\<close>

definition limiter_inv :: "rate_limiter \<Rightarrow> bool" where
  "limiter_inv s \<longleftrightarrow>
     map_wf (next_allowed s) \<and> distinct (order s) \<and> set (order s) = keys (next_allowed s)
     \<and> length (order s) \<le> MAX_TRACKED_IPS"

lemma limiter_lengths: "limiter_inv s \<Longrightarrow> length (next_allowed s) = length (order s)"
  by (metis distinct_card length_keys limiter_inv_def)

lemma limiter_inv_new [keeps]: "limiter_inv rate_limiter_new"
  by (simp add: limiter_inv_def rate_limiter_new_def MAX_TRACKED_IPS_def)

lemma evict_oldest_full:
  assumes "limiter_inv s" and "MAX_TRACKED_IPS \<le> length (next_allowed s)"
  shows "evict_oldest (next_allowed s) (order s) =
    (AList.delete (hd (order s)) (next_allowed s), tl (order s))"
proof -
  have len: "length (order s) = MAX_TRACKED_IPS" "length (next_allowed s) = MAX_TRACKED_IPS"
    using assms limiter_lengths [OF assms(1)] by (auto simp: limiter_inv_def)
  then obtain a os where os: "order s = a # os"
    by (cases "order s") (auto simp: MAX_TRACKED_IPS_def)
  have "a \<in> keys (next_allowed s)" using assms(1) os by (auto simp: limiter_inv_def)
  then have "length (AList.delete a (next_allowed s)) < MAX_TRACKED_IPS"
    using len assms(1) by (simp add: length_delete limiter_inv_def MAX_TRACKED_IPS_def)
  then have "evict_oldest (AList.delete a (next_allowed s)) os = (AList.delete a (next_allowed s), os)"
    by (cases os) auto
  with os assms(2) show ?thesis by simp
qed

text \<open>The four branches of a call, with the eviction loop solved.\<close>

lemma rate_check_cases [consumes 1, case_names poisoned throttled again fresh evicting]:
  assumes "limiter_inv s"
  obtains (poisoned) "limiter_poisoned s" "rate_check_and_record now ip s = (Err RATE_LIMIT_WINDOW, s)"
  | (throttled) t where "\<not> limiter_poisoned s" "map_of (next_allowed s) ip = Some t" "now < t"
      "rate_check_and_record now ip s = (Err (t - now), s)"
  | (again) t where "\<not> limiter_poisoned s" "map_of (next_allowed s) ip = Some t" "t \<le> now"
      "rate_check_and_record now ip s =
         (Ok (), s\<lparr>next_allowed := AList.update ip (now + RATE_LIMIT_WINDOW) (next_allowed s)\<rparr>)"
  | (fresh) "\<not> limiter_poisoned s" "ip \<notin> set (order s)" "length (order s) < MAX_TRACKED_IPS"
      "rate_check_and_record now ip s =
         (Ok (), s\<lparr>next_allowed := AList.update ip (now + RATE_LIMIT_WINDOW) (next_allowed s),
                   order := order s @ [ip]\<rparr>)"
  | (evicting) old os where "\<not> limiter_poisoned s" "ip \<notin> set (order s)"
      "length (order s) = MAX_TRACKED_IPS" "order s = old # os"
      "rate_check_and_record now ip s =
         (Ok (), s\<lparr>next_allowed := AList.update ip (now + RATE_LIMIT_WINDOW)
                      (AList.delete old (next_allowed s)), order := os @ [ip]\<rparr>)"
proof (cases "limiter_poisoned s")
  case True
  then show thesis using poisoned by (simp add: rate_check_and_record_def)
next
  case ok: False
  show thesis
  proof (cases "map_of (next_allowed s) ip")
    case (Some t)
    then show thesis
      using throttled again ok by (cases "now < t") (auto simp: rate_check_and_record_def Let_def)
  next
    case None
    then have new: "ip \<notin> set (order s)"
      using assms by (simp add: limiter_inv_def map_of_None_keys)
    show thesis
    proof (cases "MAX_TRACKED_IPS \<le> length (next_allowed s)")
      case True
      then have "length (order s) = MAX_TRACKED_IPS"
        using assms limiter_lengths [OF assms] by (simp add: limiter_inv_def)
      moreover from this obtain old os where os: "order s = old # os"
        by (cases "order s") (auto simp: MAX_TRACKED_IPS_def)
      ultimately show thesis
        using evicting [OF ok new] evict_oldest_full [OF assms True] ok None True
        by (simp add: rate_check_and_record_def Let_def)
    next
      case False
      then show thesis
        using fresh [OF ok new] limiter_lengths [OF assms] ok None
        by (simp add: rate_check_and_record_def Let_def)
    qed
  qed
qed

lemma limiter_inv_check [keeps]:
  assumes "limiter_inv s"
  shows "limiter_inv (snd (rate_check_and_record now ip s))"
  using assms
proof (cases rule: rate_check_cases [where now = now and ip = ip])
  case (again t)
  then show ?thesis using assms by (auto simp: limiter_inv_def keys_map_of insert_absorb)
next
  case (evicting old os)
  then show ?thesis using assms by (auto simp: limiter_inv_def)
qed (use assms in \<open>auto simp: limiter_inv_def\<close>)

interpretation limiter: component rate_limiter_new
  "\<lambda>(now, ip) s. snd (rate_check_and_record now ip s)" limiter_inv
  by unfold_locales (auto simp: keeps split: prod.splits)

subsection \<open>The limiter as an admission gate\<close>

text \<open>How many new addresses the entry of \<open>ip\<close> survives: its distance from the queue's head
  plus the free places.\<close>

definition limiter_slack :: "rate_limiter \<Rightarrow> ipaddr \<Rightarrow> enat" where
  "limiter_slack s ip =
     (if ip \<in> set (order s)
      then enat (length (takeWhile (\<lambda>a. a \<noteq> ip) (order s)) + (MAX_TRACKED_IPS - length (order s)))
      else 0)"

definition limiter_admit :: "instant \<Rightarrow> ipaddr \<Rightarrow> rate_limiter \<Rightarrow> bool \<times> rate_limiter" where
  "limiter_admit now ip s = (case rate_check_and_record now ip s of (r, s') \<Rightarrow> (is_ok r, s'))"

lemma takeWhile_snoc_new: "ip \<notin> set os \<Longrightarrow> takeWhile (\<lambda>a. a \<noteq> ip) (os @ [ip]) = os"
  by (induction os) auto

lemma limiter_slack_new:
  assumes "limiter_inv s" and "ip \<notin> set (order s)" and "rate_check_and_record now ip s = (Ok (), s')"
  shows "limiter_slack s' ip = enat (MAX_TRACKED_IPS - 1)"
  using assms(1)
proof (cases rule: rate_check_cases [where now = now and ip = ip])
  case (again t)
  then show ?thesis using assms by (auto simp: limiter_inv_def keys_map_of)
next
  case (evicting old os)
  then show ?thesis using assms
    by (auto simp: limiter_slack_def takeWhile_snoc_new MAX_TRACKED_IPS_def)
qed (use assms in \<open>auto simp: limiter_slack_def takeWhile_snoc_new MAX_TRACKED_IPS_def\<close>)

lemma limiter_keep:
  assumes "limiter_inv s" and e: "map_of (next_allowed s) k = Some e" "now < e"
    and slack: "0 < limiter_slack s k"
  shows "map_of (next_allowed (snd (rate_check_and_record now ip s))) k = Some e
    \<and> limiter_slack s k \<le> eSuc (limiter_slack (snd (rate_check_and_record now ip s)) k)"
  using assms(1)
proof (cases rule: rate_check_cases [where now = now and ip = ip])
  case (again t)
  then show ?thesis using e by (auto simp: limiter_slack_def ile_eSuc)
next
  case fresh
  have "k \<in> set (order s)" using assms by (auto simp: limiter_inv_def keys_map_of)
  with fresh show ?thesis using e
    by (auto simp: limiter_slack_def takeWhile_append1 eSuc_enat)
next
  case (evicting old os)
  have k: "k \<in> set (order s)" using assms by (auto simp: limiter_inv_def keys_map_of)
  with slack evicting have "k \<noteq> old" by (auto simp: limiter_slack_def zero_enat_def)
  with k evicting show ?thesis using e
    by (auto simp: limiter_slack_def takeWhile_append1 eSuc_enat)
qed (use e in \<open>auto simp: ile_eSuc\<close>)

lemma limiter_refuse:
  assumes "map_of (next_allowed s) ip = Some e" and "now < e"
  shows "\<not> fst (limiter_admit now ip s)"
  using assms by (simp add: limiter_admit_def rate_check_and_record_def Let_def is_ok_def)

lemma limiter_remember:
  assumes "limiter_inv s" and "fst (limiter_admit now ip s)"
  shows "map_of (next_allowed (snd (limiter_admit now ip s))) ip = Some (now + RATE_LIMIT_WINDOW)"
  using assms(1)
  by (cases rule: rate_check_cases [where now = now and ip = ip])
    (use assms(2) in \<open>auto simp: limiter_admit_def is_ok_def\<close>)

interpretation limiter_gate: gate limiter_inv "\<lambda>(now, ip) s. snd (rate_check_and_record now ip s)" fst
  "\<lambda>s. map_of (next_allowed s)" "(<)" limiter_slack limiter_admit "\<lambda>_. RATE_LIMIT_WINDOW"
proof unfold_locales
  show "limiter_inv (snd (limiter_admit now ip s))" if "limiter_inv s" for s now ip
    using limiter_inv_check [OF that, of now ip]
    by (simp add: limiter_admit_def split: prod.splits) (metis snd_conv)
qed (auto simp: keeps limiter_keep limiter_refuse limiter_remember)

subsection \<open>Properties\<close>

text \<open>
  C32: the memory bound. After any sequence of calls, at any instants and for any addresses,
  the queue holds exactly the tracked addresses without repetition, so queue and map have
  the same length, and that length never exceeds \<open>MAX_TRACKED_IPS\<close>.
\<close>

theorem rate_limiter_bounded:
  "let s = fold (\<lambda>(now, ip) s. snd (rate_check_and_record now ip s)) calls rate_limiter_new
   in set (order s) = keys (next_allowed s) \<and> distinct (order s)
      \<and> length (order s) = length (next_allowed s) \<and> length (next_allowed s) \<le> MAX_TRACKED_IPS"
  using limiter.reach_inv [of calls]
  by (simp add: Let_def limiter_inv_def limiter_lengths)

text \<open>
  What a call answers. A call is refused exactly when the lock is poisoned, with the
  whole window as the remaining time, or when the address has an entry that has not lapsed,
  with exactly the time left, which is positive; every other call is admitted, even when the
  table is full.
\<close>

theorem rate_check_and_record_answer:
  "fst (rate_check_and_record now ip s) = Err d \<longleftrightarrow>
     limiter_poisoned s \<and> d = RATE_LIMIT_WINDOW
     \<or> (limiter_poisoned s = False
        \<and> (\<exists>t. map_of (next_allowed s) ip = Some t \<and> now < t \<and> d = t - now \<and> 0 < d))"
  by (auto simp: rate_check_and_record_def Let_def split: option.splits if_splits prod.splits)

text \<open>
  The throttle holds. Once an untracked address is admitted at \<open>t\<close>, every call for it
  before \<open>t\<close> plus the window is refused, whatever calls for whatever addresses come in
  between, as long as there are fewer than \<open>MAX_TRACKED_IPS\<close> of them: up to that many, the
  eviction of a full table never reaches it.
\<close>

theorem rate_limit_throttles:
  assumes "limiter_inv s" and "ip \<notin> set (order s)"
    and "rate_check_and_record t ip s = (Ok (), s')"
    and "length calls < MAX_TRACKED_IPS"
    and "\<forall>(now, other) \<in> set calls. now < t + RATE_LIMIT_WINDOW"
    and "u < t + RATE_LIMIT_WINDOW"
  shows "is_ok (fst (rate_check_and_record u ip
      (fold (\<lambda>(now, ip) s. snd (rate_check_and_record now ip s)) calls s'))) = False"
proof -
  have "limiter_admit t ip s = (True, s')" using assms(3) by (simp add: limiter_admit_def is_ok_def)
  moreover have "enat (length calls) \<le> limiter_slack s' ip"
    using limiter_slack_new [OF assms(1-3)] assms(4) by (simp add: MAX_TRACKED_IPS_def)
  moreover have "\<forall>call \<in> set calls. fst call < t + RATE_LIMIT_WINDOW" using assms(5) by auto
  ultimately have "\<not> fst (limiter_admit u ip
      (fold (\<lambda>(now, ip) s. snd (rate_check_and_record now ip s)) calls s'))"
    using limiter_gate.no_second_admission [OF assms(1)] assms(6) by blast
  then show ?thesis by (simp add: limiter_admit_def split: prod.splits)
qed

theorem rate_limit_throttles_witness:
  "is_ok (fst (rate_check_and_record (5 + RATE_LIMIT_WINDOW) (V4 1)
      (fold (\<lambda>(now, ip) s. snd (rate_check_and_record now ip s)) [(7, V4 2), (8, V4 1)]
        \<lparr>limiter_poisoned = False, next_allowed = [(V4 1, 10 + RATE_LIMIT_WINDOW)],
         order = [V4 1]\<rparr>))) = False"
  by (rule rate_limit_throttles [where s = rate_limiter_new and t = 10])
    (simp_all add: limiter_inv_def rate_limiter_new_def rate_check_and_record_def
      MAX_TRACKED_IPS_def RATE_LIMIT_WINDOW_def nanos_def)

end
