(* ===== verification/Ip_Filter.thy ===== *)
theory Ip_Filter
  imports Ip_Net
begin

text \<open>
  The output sanitisation pipeline of \<open>src/ipfilter.rs\<close>: the non-routable block lists, the
  overlap test, and \<open>filter_and_aggregate\<close>. The lemmas say what set of addresses the
  published list covers.
\<close>

subsection \<open>The filter lists\<close>

definition nets :: "'net ipnet \<Rightarrow> string list \<Rightarrow> 'net list" where
  "nets I raw = List.map_filter (net_parse I) raw"

definition RFC1918_LITERALS :: "string list" where
  "RFC1918_LITERALS = [''10.0.0.0/8'', ''172.16.0.0/12'', ''192.168.0.0/16'']"

definition RFC1918 :: "'net ipnet \<Rightarrow> 'net list" where
  "RFC1918 I = nets I RFC1918_LITERALS"

definition LOOPBACK_LITERALS :: "string list" where
  "LOOPBACK_LITERALS = [''127.0.0.0/8'', ''::1/128'']"

definition LOOPBACK :: "'net ipnet \<Rightarrow> 'net list" where
  "LOOPBACK I = nets I LOOPBACK_LITERALS"

definition BOGON_LITERALS :: "string list" where
  "BOGON_LITERALS =
     [''0.0.0.0/8'', ''100.64.0.0/10'', ''169.254.0.0/16'', ''192.0.0.0/24'', ''192.0.2.0/24'',
      ''192.88.99.0/24'', ''198.18.0.0/15'', ''198.51.100.0/24'', ''203.0.113.0/24'',
      ''224.0.0.0/4'', ''240.0.0.0/4'', ''255.255.255.255/32'', ''::/128'', ''::ffff:0:0/96'',
      ''100::/64'', ''2001:db8::/32'', ''fc00::/7'', ''fe80::/10'', ''ff00::/8'']"

definition BOGONS :: "'net ipnet \<Rightarrow> 'net list" where
  "BOGONS I = nets I BOGON_LITERALS"

subsection \<open>Filtering and aggregation\<close>

definition overlaps_any :: "'net ipnet \<Rightarrow> 'net \<Rightarrow> 'net list \<Rightarrow> bool" where
  "overlaps_any I candidate excluded =
     list_ex (\<lambda>ex. net_contains I ex (net_network I candidate)
                 \<or> net_contains I candidate (net_network I ex)) excluded"

definition filter_and_aggregate ::
    "'net ipnet \<Rightarrow> 'net list \<Rightarrow> bool \<Rightarrow> bool \<Rightarrow> bool \<Rightarrow> 'net list" where
  "filter_and_aggregate I networks filter_rfc1918 filter_bogons filter_loopback =
     (let filtered =
        filter (\<lambda>net. \<not> filter_loopback \<or> \<not> overlaps_any I net (LOOPBACK I))
          (filter (\<lambda>net. \<not> filter_bogons \<or> \<not> overlaps_any I net (BOGONS I))
            (filter (\<lambda>net. \<not> filter_rfc1918 \<or> \<not> overlaps_any I net (RFC1918 I)) networks))
      in net_aggregate I filtered)"

subsection \<open>What is published\<close>

context ipnet_laws
begin

text \<open>The two one-sided tests of \<open>overlaps_any\<close> decide whether the blocks share an address.\<close>

lemma overlaps_any_share:
  "overlaps_any I c ex \<longleftrightarrow> (\<exists>a. net_contains I c a \<and> covers I ex a)"
  using contains_network nested
  unfolding overlaps_any_def covers_def list_ex_iff by meson

lemma covers_filter_and_aggregate:
  "covers I (filter_and_aggregate I ns r b l) a \<longleftrightarrow>
     (\<exists>n \<in> set ns. net_contains I n a
        \<and> (r \<longrightarrow> \<not> overlaps_any I n (RFC1918 I))
        \<and> (b \<longrightarrow> \<not> overlaps_any I n (BOGONS I))
        \<and> (l \<longrightarrow> \<not> overlaps_any I n (LOOPBACK I)))"
  unfolding filter_and_aggregate_def Let_def aggregate_covers
  by (auto simp: covers_def list_ex_iff)

end

lemma RFC1918_cidr:
  "RFC1918 cidr_ipnet =
     [Cidr (V4 0x0A000000) 8, Cidr (V4 0xAC100000) 12, Cidr (V4 0xC0A80000) 16]"
  by code_simp

text \<open>
  The two one-sided membership tests of the overlap check are exact: a candidate is
  reported as overlapping an exclusion list exactly when it shares at least one address with
  it, fully or partially.
\<close>

lemma overlaps_any_exact:
  assumes "ipnet_laws I"
  shows "overlaps_any I candidate excluded \<longleftrightarrow>
    (\<exists>a. net_contains I candidate a \<and> covers I excluded a)"
  by (rule ipnet_laws.overlaps_any_share [OF assms])

lemma overlaps_any_exact_witness:
  "overlaps_any cidr_ipnet (Cidr (V4 0x0A010200) 24) (RFC1918 cidr_ipnet)"
proof -
  have "cidr_contains (Cidr (V4 0x0A010200) 24) (V4 0x0A010203)
      \<and> covers cidr_ipnet (RFC1918 cidr_ipnet) (V4 0x0A010203)"
    by code_simp
  then show ?thesis
    using overlaps_any_exact [OF cidr.ipnet_laws_axioms] by auto
qed

text \<open>
  what a feed publishes, address by address. After filtering and aggregation an address
  is covered exactly when some input network holds it and that network shares no address
  with any block list whose flag is set; a partially overlapping network is dropped whole.
\<close>

lemma filter_and_aggregate_exact:
  assumes "ipnet_laws I"
  shows "covers I (filter_and_aggregate I networks r b l) a \<longleftrightarrow>
    (\<exists>n \<in> set networks. net_contains I n a \<and>
       (\<forall>c. net_contains I n c \<longrightarrow>
          \<not> (r \<and> covers I (RFC1918 I) c) \<and> \<not> (b \<and> covers I (BOGONS I) c)
          \<and> \<not> (l \<and> covers I (LOOPBACK I) c)))"
  unfolding ipnet_laws.covers_filter_and_aggregate [OF assms]
    ipnet_laws.overlaps_any_share [OF assms]
  by blast

lemma filter_and_aggregate_exact_witness:
  "\<not> covers cidr_ipnet
     (filter_and_aggregate cidr_ipnet [Cidr (V4 0x0A000000) 8] True False False) (V4 0x0A000001)"
proof -
  have "net_contains cidr_ipnet (Cidr (V4 0x0A000000) 8) (V4 0x0A000001)
      \<and> covers cidr_ipnet (RFC1918 cidr_ipnet) (V4 0x0A000001)"
    by code_simp
  then show ?thesis
    unfolding filter_and_aggregate_exact [OF cidr.ipnet_laws_axioms, of "[Cidr (V4 0x0A000000) 8]"]
    by (auto simp del: cidr_ipnet_simps)
qed

text \<open>
  No filtered address is ever published, and nothing is invented: an address of the
  published list was in the input, and lies outside RFC 1918 space, outside the bogon list
  and outside loopback space whenever the corresponding flag is set.
\<close>

lemma filter_and_aggregate_safe:
  assumes "ipnet_laws I" and "covers I (filter_and_aggregate I networks r b l) a"
  shows "covers I networks a
    \<and> \<not> (r \<and> covers I (RFC1918 I) a) \<and> \<not> (b \<and> covers I (BOGONS I) a)
    \<and> \<not> (l \<and> covers I (LOOPBACK I) a)"
proof -
  obtain n where n: "n \<in> set networks" "net_contains I n a"
    and out: "r \<longrightarrow> \<not> overlaps_any I n (RFC1918 I)" "b \<longrightarrow> \<not> overlaps_any I n (BOGONS I)"
      "l \<longrightarrow> \<not> overlaps_any I n (LOOPBACK I)"
    using assms(2) unfolding ipnet_laws.covers_filter_and_aggregate [OF assms(1)] by blast
  have "covers I networks a" using n by (auto simp: covers_def list_ex_iff)
  then show ?thesis
    using out n(2) unfolding ipnet_laws.overlaps_any_share [OF assms(1)] by blast
qed

lemma filter_and_aggregate_safe_witness:
  "covers cidr_ipnet
      (filter_and_aggregate cidr_ipnet [Cidr (V4 0x08080808) 32] True False False) (V4 0x08080808)
   \<and> \<not> covers cidr_ipnet (RFC1918 cidr_ipnet) (V4 0x08080808)"
proof -
  have "cidr_contains (Cidr (V4 0x08080808) 32) (V4 0x08080808)
      \<and> \<not> overlaps_any cidr_ipnet (Cidr (V4 0x08080808) 32) (RFC1918 cidr_ipnet)"
    unfolding RFC1918_cidr by code_simp
  then have pub: "covers cidr_ipnet
      (filter_and_aggregate cidr_ipnet [Cidr (V4 0x08080808) 32] True False False) (V4 0x08080808)"
    unfolding cidr.covers_filter_and_aggregate by (simp only: list.set bex_simps cidr_ipnet_simps simp_thms)
  show ?thesis
    using filter_and_aggregate_safe [OF cidr.ipnet_laws_axioms pub] pub
    by (simp only: simp_thms)
qed

subsection \<open>The literals denote the intended ranges\<close>

lemma cidr_contains_v4:
  "cidr_contains (Cidr (V4 a) p) (V4 w) \<longleftrightarrow> unat w div 2 ^ (32 - p) = unat a div 2 ^ (32 - p)"
  by (cases "p \<le> 32")
    (simp_all add: cidr_contains_def prefix_bits_def ip_width_def
      ip_val_def min_def)

text \<open>
  The three RFC 1918 literals all parse, and together they denote exactly the private
  IPv4 space: 10.0.0.0 to 10.255.255.255, 172.16.0.0 to 172.31.255.255 and 192.168.0.0 to
  192.168.255.255. A literal that failed to parse would be dropped silently by \<open>nets\<close>.
\<close>

lemma RFC1918_ranges:
  "covers cidr_ipnet (RFC1918 cidr_ipnet) (V4 w) \<longleftrightarrow>
     0x0A000000 \<le> unat w \<and> unat w < 0x0B000000
     \<or> 0xAC100000 \<le> unat w \<and> unat w < 0xAC200000
     \<or> 0xC0A80000 \<le> unat w \<and> unat w < 0xC0A90000"
proof -
  have range: "n div d = k \<longleftrightarrow> k * d \<le> n \<and> n < k * d + d" if "0 < d" for n d k :: nat
    using div_nat_eqI [of d k n] that dividend_less_times_div [of d n] times_div_less_eq_dividend [of d n]
    by (auto simp: mult.commute)
  show ?thesis
    unfolding RFC1918_cidr covers_def cidr_ipnet_simps
    by (simp add: cidr_contains_v4 range)
qed

end
