(* ===== verification/Ip_Cache.thy ===== *)
theory Ip_Cache
  imports Ip_Net
begin

text \<open>
  The in-memory cache of \<open>src/cache.rs\<close>. The read-write lock makes every method one atomic
  step, so the cache is a value passed through: a map from endpoint ids to the endpoint's
  records, its cursor and the instant of its last full sync. Hash maps are association
  lists; the order in which the code iterates a hash map is not specified, so the results
  about \<open>snapshot_within\<close> are about the set of networks it returns.

  \<open>chrono\<close> computes \<open>now - Duration::seconds(n)\<close>, and panics when a bound of its types is
  exceeded: that is the parameter \<open>sub_seconds\<close>, with \<open>None\<close> the panic.
\<close>

definition parse_target_address :: "'net ipnet \<Rightarrow> string \<Rightarrow> 'net option" where
  "parse_target_address I raw =
     (case net_parse I raw of
        Some net \<Rightarrow> Some net
      | None \<Rightarrow> map_option (net_from I) (parse_ip raw))"

record 'net cached_record =
  network :: 'net
  cached_last_seen_at :: datetime

record 'net endpoint_cache =
  records :: "(string \<times> 'net cached_record) list"
  cache_last_synced_at :: "datetime option"
  last_full_sync_at :: "instant option"

record vault_record =
  target_address :: string
  last_seen_at :: datetime
  is_deleted :: bool

type_synonym 'net ip_cache = "(uuid \<times> 'net endpoint_cache) list"

definition ip_cache_new :: "'net ip_cache" where
  "ip_cache_new = []"

definition endpoint_cache_default :: "'net endpoint_cache" where
  "endpoint_cache_default =
     \<lparr>records = [], cache_last_synced_at = None, last_full_sync_at = None\<rparr>"

definition entry_or_default :: "uuid \<Rightarrow> 'net ip_cache \<Rightarrow> 'net endpoint_cache" where
  "entry_or_default endpoint_id c =
     (case map_of c endpoint_id of Some e \<Rightarrow> e | None \<Rightarrow> endpoint_cache_default)"

definition later_seen :: "datetime option \<Rightarrow> datetime \<Rightarrow> datetime option" where
  "later_seen m t = Some (case m of None \<Rightarrow> t | Some m \<Rightarrow> max m t)"

text \<open>One iteration of the loop of \<open>apply_full\<close>, on the cursor and the record map.\<close>

definition apply_full_record ::
    "'net ipnet \<Rightarrow> vault_record \<Rightarrow> datetime option \<times> (string \<times> 'net cached_record) list
       \<Rightarrow> datetime option \<times> (string \<times> 'net cached_record) list" where
  "apply_full_record I r acc =
     (case acc of (max_last_seen, recs) \<Rightarrow>
        if is_deleted r then (max_last_seen, recs)
        else case parse_target_address I (target_address r) of
               None \<Rightarrow> (max_last_seen, recs)
             | Some net \<Rightarrow>
                 (later_seen max_last_seen (last_seen_at r),
                  AList.update (target_address r)
                    \<lparr>network = net, cached_last_seen_at = last_seen_at r\<rparr> recs))"

definition apply_full ::
    "'net ipnet \<Rightarrow> instant \<Rightarrow> uuid \<Rightarrow> vault_record list \<Rightarrow> 'net ip_cache \<Rightarrow> 'net ip_cache" where
  "apply_full I now endpoint_id rs c =
     (let entry = entry_or_default endpoint_id c;
          (max_last_seen, recs) = fold (apply_full_record I) rs (cache_last_synced_at entry, [])
      in AList.update endpoint_id
           \<lparr>records = recs, cache_last_synced_at = max_last_seen, last_full_sync_at = Some now\<rparr> c)"

definition apply_diff_record ::
    "'net ipnet \<Rightarrow> vault_record \<Rightarrow> datetime option \<times> (string \<times> 'net cached_record) list
       \<Rightarrow> datetime option \<times> (string \<times> 'net cached_record) list" where
  "apply_diff_record I r acc =
     (case acc of (max_last_seen, recs) \<Rightarrow>
        let max_last_seen = later_seen max_last_seen (last_seen_at r)
        in if is_deleted r then (max_last_seen, AList.delete (target_address r) recs)
           else case parse_target_address I (target_address r) of
                  None \<Rightarrow> (max_last_seen, recs)
                | Some net \<Rightarrow>
                    (max_last_seen,
                     AList.update (target_address r)
                       \<lparr>network = net, cached_last_seen_at = last_seen_at r\<rparr> recs))"

definition apply_diff ::
    "'net ipnet \<Rightarrow> uuid \<Rightarrow> vault_record list \<Rightarrow> 'net ip_cache \<Rightarrow> 'net ip_cache" where
  "apply_diff I endpoint_id rs c =
     (let entry = entry_or_default endpoint_id c;
          (max_last_seen, recs) =
            fold (apply_diff_record I) rs (cache_last_synced_at entry, records entry)
      in AList.update endpoint_id
           (entry\<lparr>records := recs, cache_last_synced_at := max_last_seen\<rparr>) c)"

definition snapshot_within ::
    "(datetime \<Rightarrow> int \<Rightarrow> datetime option) \<Rightarrow> uuid \<Rightarrow> int \<Rightarrow> datetime \<Rightarrow> 'net ip_cache
       \<Rightarrow> 'net list option" where
  "snapshot_within sub_seconds endpoint_id max_age_seconds now c =
     (case map_of c endpoint_id of
        None \<Rightarrow> Some []
      | Some entry \<Rightarrow>
          if max_age_seconds \<le> 0 then Some (map (network \<circ> snd) (records entry))
          else case sub_seconds now max_age_seconds of
                 None \<Rightarrow> None
               | Some cutoff \<Rightarrow>
                   Some (map (network \<circ> snd)
                     (filter (\<lambda>(_, r). cutoff \<le> cached_last_seen_at r) (records entry))))"

definition cache_snapshot ::
    "(datetime \<Rightarrow> int \<Rightarrow> datetime option) \<Rightarrow> uuid \<Rightarrow> datetime \<Rightarrow> 'net ip_cache \<Rightarrow> 'net list option" where
  "cache_snapshot sub_seconds endpoint_id now c = snapshot_within sub_seconds endpoint_id 0 now c"

definition last_synced_at :: "uuid \<Rightarrow> 'net ip_cache \<Rightarrow> datetime option" where
  "last_synced_at endpoint_id c =
     (case map_of c endpoint_id of None \<Rightarrow> None | Some e \<Rightarrow> cache_last_synced_at e)"

text \<open>\<open>at.elapsed()\<close> saturates at zero, as does subtraction on \<open>nat\<close>.\<close>

definition full_sync_due :: "instant \<Rightarrow> uuid \<Rightarrow> duration \<Rightarrow> 'net ip_cache \<Rightarrow> bool" where
  "full_sync_due now endpoint_id interval c =
     (case map_of c endpoint_id of
        None \<Rightarrow> True
      | Some e \<Rightarrow>
          (case last_full_sync_at e of Some t \<Rightarrow> interval \<le> now - t | None \<Rightarrow> True))"

definition evict :: "uuid \<Rightarrow> 'net ip_cache \<Rightarrow> 'net ip_cache" where
  "evict endpoint_id c = AList.delete endpoint_id c"

subsection \<open>The invariant: every cached record is its address, parsed\<close>

definition records_wf :: "'net ipnet \<Rightarrow> (string \<times> 'net cached_record) list \<Rightarrow> bool" where
  "records_wf I recs \<longleftrightarrow>
     map_wf recs
     \<and> (\<forall>a r. map_of recs a = Some r \<longrightarrow> parse_target_address I a = Some (network r))"

definition cache_wf :: "'net ipnet \<Rightarrow> 'net ip_cache \<Rightarrow> bool" where
  "cache_wf I c \<longleftrightarrow> map_wf c \<and> (\<forall>e entry. map_of c e = Some entry \<longrightarrow> records_wf I (records entry))"

lemma records_wf_Nil [keeps, simp]: "records_wf I []"
  by (simp add: records_wf_def)

lemma records_wf_update [keeps]:
  "records_wf I recs \<Longrightarrow> parse_target_address I a = Some (network r) \<Longrightarrow>
     records_wf I (AList.update a r recs)"
  by (simp add: records_wf_def)

lemma records_wf_delete [keeps]: "records_wf I recs \<Longrightarrow> records_wf I (AList.delete a recs)"
  by (simp add: records_wf_def)

lemma records_wf_full [keeps]:
  "records_wf I (snd acc) \<Longrightarrow> records_wf I (snd (fold (apply_full_record I) rs acc))"
proof (induction rs arbitrary: acc)
  case (Cons r rs)
  then have "records_wf I (snd (apply_full_record I r acc))"
    by (auto simp: apply_full_record_def keeps split: prod.splits option.splits)
  then show ?case using Cons.IH by simp
qed simp

lemma records_wf_diff [keeps]:
  "records_wf I (snd acc) \<Longrightarrow> records_wf I (snd (fold (apply_diff_record I) rs acc))"
proof (induction rs arbitrary: acc)
  case (Cons r rs)
  then have "records_wf I (snd (apply_diff_record I r acc))"
    by (auto simp: apply_diff_record_def Let_def keeps split: prod.splits option.splits)
  then show ?case using Cons.IH by simp
qed simp

lemma records_wf_entry: "cache_wf I c \<Longrightarrow> records_wf I (records (entry_or_default e c))"
  by (auto simp: cache_wf_def entry_or_default_def endpoint_cache_default_def split: option.splits)

text \<open>The two writers, as one update of the endpoint's entry.\<close>

lemma apply_full_eq:
  "apply_full I now e rs c = AList.update e
     \<lparr>records = snd (fold (apply_full_record I) rs (cache_last_synced_at (entry_or_default e c), [])),
      cache_last_synced_at =
        fst (fold (apply_full_record I) rs (cache_last_synced_at (entry_or_default e c), [])),
      last_full_sync_at = Some now\<rparr> c"
  by (simp add: apply_full_def Let_def case_prod_beta)

lemma apply_diff_eq:
  "apply_diff I e rs c = AList.update e
     ((entry_or_default e c)
       \<lparr>records := snd (fold (apply_diff_record I) rs
           (cache_last_synced_at (entry_or_default e c), records (entry_or_default e c))),
        cache_last_synced_at := fst (fold (apply_diff_record I) rs
           (cache_last_synced_at (entry_or_default e c), records (entry_or_default e c)))\<rparr>) c"
  by (simp add: apply_diff_def Let_def case_prod_beta)

datatype cache_op =
    ApplyFull instant uuid "vault_record list"
  | ApplyDiff uuid "vault_record list"
  | Evict uuid

fun cache_step :: "'net ipnet \<Rightarrow> cache_op \<Rightarrow> 'net ip_cache \<Rightarrow> 'net ip_cache" where
  "cache_step I (ApplyFull now e rs) c = apply_full I now e rs c"
| "cache_step I (ApplyDiff e rs) c = apply_diff I e rs c"
| "cache_step I (Evict e) c = evict e c"

fun op_endpoint :: "cache_op \<Rightarrow> uuid" where
  "op_endpoint (ApplyFull _ e _) = e"
| "op_endpoint (ApplyDiff e _) = e"
| "op_endpoint (Evict e) = e"

lemma cache_wf_step [keeps]:
  assumes "cache_wf I c"
  shows "cache_wf I (cache_step I op c)"
proof (cases op)
  case (ApplyFull now e rs)
  have "records_wf I (snd (fold (apply_full_record I) rs
      (cache_last_synced_at (entry_or_default e c), [])))"
    by (rule records_wf_full) simp
  then show ?thesis using assms by (auto simp: ApplyFull apply_full_eq cache_wf_def)
next
  case (ApplyDiff e rs)
  have "records_wf I (snd (fold (apply_diff_record I) rs
      (cache_last_synced_at (entry_or_default e c), records (entry_or_default e c))))"
    by (rule records_wf_diff) (simp add: records_wf_entry [OF assms])
  then show ?thesis using assms by (auto simp: ApplyDiff apply_diff_eq cache_wf_def)
next
  case (Evict e)
  then show ?thesis using assms by (auto simp: evict_def cache_wf_def)
qed

interpretation ip_cache: component "ip_cache_new" "cache_step I" "cache_wf I" for I
proof unfold_locales
  show "cache_wf I ip_cache_new" by (simp add: cache_wf_def ip_cache_new_def)
qed (rule cache_wf_step)

subsection \<open>What a batch leaves for each address\<close>

text \<open>The cached record an address gets from a live Vault record seen at \<open>t\<close>.\<close>

definition cached_as :: "'net ipnet \<Rightarrow> string \<Rightarrow> datetime \<Rightarrow> 'net cached_record option" where
  "cached_as I a t =
     map_option (\<lambda>n. \<lparr>network = n, cached_last_seen_at = t\<rparr>) (parse_target_address I a)"

lemma map_of_full_record:
  "map_of (snd (apply_full_record I r acc)) a =
     (if target_address r = a \<and> \<not> is_deleted r \<and> parse_target_address I a \<noteq> None
      then cached_as I a (last_seen_at r) else map_of (snd acc) a)"
  by (auto simp: apply_full_record_def cached_as_def split: prod.splits option.splits)

lemma map_of_diff_record:
  "map_of (snd (apply_diff_record I r acc)) a =
     (if target_address r \<noteq> a then map_of (snd acc) a
      else if is_deleted r then None
      else if parse_target_address I a = None then map_of (snd acc) a
      else cached_as I a (last_seen_at r))"
  by (auto simp: apply_diff_record_def cached_as_def Let_def split: prod.splits option.splits)

lemma full_records_untouched:
  "\<forall>r \<in> set rs. target_address r \<noteq> a \<or> is_deleted r \<Longrightarrow>
     map_of (snd (fold (apply_full_record I) rs acc)) a = map_of (snd acc) a"
proof (induction rs arbitrary: acc)
  case (Cons r rs)
  then have "map_of (snd (apply_full_record I r acc)) a = map_of (snd acc) a"
    by (auto simp: map_of_full_record)
  then show ?case using Cons by simp
qed simp

lemma full_records_lookup:
  assumes "records_wf I (snd acc)"
    and "\<forall>r \<in> set rs. target_address r = a \<longrightarrow> \<not> is_deleted r \<and> last_seen_at r = t"
    and "\<exists>r \<in> set rs. target_address r = a"
  shows "map_of (snd (fold (apply_full_record I) rs acc)) a = cached_as I a t"
  using assms
proof (induction rs arbitrary: acc rule: rev_induct)
  case (snoc r rs)
  let ?acc = "fold (apply_full_record I) rs acc"
  show ?case
  proof (cases "target_address r = a")
    case True
    have wf: "records_wf I (snd ?acc)" using snoc.prems(1) by (rule records_wf_full)
    show ?thesis
    proof (cases "parse_target_address I a")
      case None
      then have "map_of (snd ?acc) a = None" using wf by (cases "map_of (snd ?acc) a") (auto simp: records_wf_def)
      with None True snoc.prems(2) show ?thesis
        by (auto simp: map_of_full_record cached_as_def)
    next
      case (Some n)
      with True snoc.prems(2) show ?thesis
        by (auto simp: map_of_full_record cached_as_def)
    qed
  next
    case False
    then have "map_of (snd ?acc) a = cached_as I a t" using snoc by auto
    with False show ?thesis
      by (simp add: map_of_full_record)
  qed
qed simp

lemma diff_records_untouched:
  "\<forall>r \<in> set rs. target_address r \<noteq> a \<Longrightarrow>
     map_of (snd (fold (apply_diff_record I) rs acc)) a = map_of (snd acc) a"
proof (induction rs arbitrary: acc)
  case (Cons r rs)
  then have "map_of (snd (apply_diff_record I r acc)) a = map_of (snd acc) a"
    by (auto simp: map_of_diff_record)
  then show ?case using Cons by simp
qed simp

lemma diff_records_lookup:
  assumes "records_wf I (snd acc)"
    and "\<forall>r \<in> set rs. target_address r = a \<longrightarrow> (if is_deleted r then v = None else v = Some (last_seen_at r))"
    and "\<exists>r \<in> set rs. target_address r = a"
  shows "map_of (snd (fold (apply_diff_record I) rs acc)) a = Option.bind v (cached_as I a)"
  using assms
proof (induction rs arbitrary: acc rule: rev_induct)
  case (snoc r rs)
  let ?acc = "fold (apply_diff_record I) rs acc"
  show ?case
  proof (cases "target_address r = a")
    case True
    have wf: "records_wf I (snd ?acc)" using snoc.prems(1) by (rule records_wf_diff)
    show ?thesis
    proof (cases "parse_target_address I a")
      case None
      then have "map_of (snd ?acc) a = None" using wf by (cases "map_of (snd ?acc) a") (auto simp: records_wf_def)
      with None True snoc.prems(2) show ?thesis
        by (cases v) (auto simp: map_of_diff_record cached_as_def)
    next
      case (Some n)
      with True snoc.prems(2) show ?thesis
        by (auto simp: map_of_diff_record cached_as_def split: if_splits)
    qed
  next
    case False
    then have "map_of (snd ?acc) a = Option.bind v (cached_as I a)" using snoc by auto
    with False show ?thesis
      by (simp add: map_of_diff_record)
  qed
qed simp

subsection \<open>The cache against the Vault's state\<close>

text \<open>
  The abstract state of a Vault group is a map from each live address to when it was last
  seen. A batch \<open>describes\<close> a state when each of its records tells the truth about its
  address. An endpoint's cache \<open>mirrors\<close> a state when it holds exactly the live addresses
  that denote a network.
\<close>

type_synonym vault_state = "string \<Rightarrow> datetime option"

definition describes :: "vault_record list \<Rightarrow> vault_state \<Rightarrow> bool" where
  "describes rs V \<longleftrightarrow>
     list_all (\<lambda>r. V (target_address r) = (if is_deleted r then None else Some (last_seen_at r))) rs"

definition mirrors :: "'net ipnet \<Rightarrow> uuid \<Rightarrow> 'net ip_cache \<Rightarrow> vault_state \<Rightarrow> bool" where
  "mirrors I e c V \<longleftrightarrow>
     (\<forall>a. map_of (records (entry_or_default e c)) a = Option.bind (V a) (cached_as I a))"

lemma entry_update [simp]: "entry_or_default e (AList.update e x c) = x"
  by (simp add: entry_or_default_def)

text \<open>
  A full sync is a complete resynchronisation. Whatever the cache held before, after a
  full batch that tells the truth about the Vault's state and mentions every live address,
  the endpoint's cache mirrors that state: orphans are gone, tombstones and unparseable
  addresses are not stored.
\<close>

theorem apply_full_resynchronises:
  assumes "describes rs V"
    and "\<forall>a t. V a = Some t \<longrightarrow> a \<in> target_address ` set rs"
  shows "mirrors I e (apply_full I now e rs c) V"
  unfolding mirrors_def
proof
  fix a
  let ?acc = "(cache_last_synced_at (entry_or_default e c), [])"
  have d: "\<forall>r \<in> set rs. V (target_address r) = (if is_deleted r then None else Some (last_seen_at r))"
    using assms(1) by (simp add: describes_def list_all_iff)
  have "map_of (snd (fold (apply_full_record I) rs ?acc)) a = Option.bind (V a) (cached_as I a)"
  proof (cases "V a")
    case None
    with d have "\<forall>r \<in> set rs. target_address r \<noteq> a \<or> is_deleted r" by force
    from full_records_untouched [OF this, of I ?acc] None show ?thesis by simp
  next
    case (Some t)
    then have "\<forall>r \<in> set rs. target_address r = a \<longrightarrow> \<not> is_deleted r \<and> last_seen_at r = t"
      using d by (metis option.distinct(1) option.inject)
    moreover have "\<exists>r \<in> set rs. target_address r = a" using assms(2) Some by force
    ultimately show ?thesis using full_records_lookup [of I ?acc rs a t] Some by simp
  qed
  then show "map_of (records (entry_or_default e (apply_full I now e rs c))) a
      = Option.bind (V a) (cached_as I a)"
    by (simp add: apply_full_eq)
qed

theorem apply_full_resynchronises_witness:
  "mirrors cidr_ipnet 1
     (apply_full cidr_ipnet 5 1
        [\<lparr>target_address = ''8.8.8.8'', last_seen_at = 9, is_deleted = False\<rparr>,
         \<lparr>target_address = ''9.9.9.9'', last_seen_at = 8, is_deleted = True\<rparr>] ip_cache_new)
     (\<lambda>a. if a = ''8.8.8.8'' then Some 9 else None)"
  by (rule apply_full_resynchronises) (simp_all add: describes_def)

text \<open>
  A differential sync converges. If the cache mirrored the Vault's state at the last
  sync, and the batch is true of the new state and mentions every address that changed, then
  after merging it the cache mirrors the new state.
\<close>

theorem apply_diff_converges:
  assumes "cache_wf I c" and "mirrors I e c V"
    and "describes rs V'"
    and "\<forall>a. V a \<noteq> V' a \<longrightarrow> a \<in> target_address ` set rs"
  shows "mirrors I e (apply_diff I e rs c) V'"
  unfolding mirrors_def
proof
  fix a
  let ?acc = "(cache_last_synced_at (entry_or_default e c), records (entry_or_default e c))"
  have d: "\<forall>r \<in> set rs. V' (target_address r) = (if is_deleted r then None else Some (last_seen_at r))"
    using assms(3) by (simp add: describes_def list_all_iff)
  have "map_of (snd (fold (apply_diff_record I) rs ?acc)) a = Option.bind (V' a) (cached_as I a)"
  proof (cases "\<exists>r \<in> set rs. target_address r = a")
    case True
    have "\<forall>r \<in> set rs. target_address r = a \<longrightarrow>
        (if is_deleted r then V' a = None else V' a = Some (last_seen_at r))"
      using d by auto
    from diff_records_lookup [OF _ this True, of I ?acc] records_wf_entry [OF assms(1), of e]
    show ?thesis by simp
  next
    case False
    then have "\<forall>r \<in> set rs. target_address r \<noteq> a" by blast
    moreover have "V a = V' a" using assms(4) False by force
    ultimately show ?thesis
      using diff_records_untouched [of rs a I ?acc] assms(2) by (simp add: mirrors_def)
  qed
  then show "map_of (records (entry_or_default e (apply_diff I e rs c))) a
      = Option.bind (V' a) (cached_as I a)"
    by (simp add: apply_diff_eq)
qed

theorem apply_diff_converges_witness:
  "mirrors cidr_ipnet 1
     (apply_diff cidr_ipnet 1
        [\<lparr>target_address = ''8.8.8.8'', last_seen_at = 9, is_deleted = False\<rparr>] ip_cache_new)
     (\<lambda>a. if a = ''8.8.8.8'' then Some 9 else None)"
  by (rule apply_diff_converges [where V = "\<lambda>_. None"])
    (simp_all add: describes_def mirrors_def cache_wf_def ip_cache_new_def entry_or_default_def
      endpoint_cache_default_def)

lemma set_filtered_values:
  "map_wf m \<Longrightarrow>
     x \<in> set (map (f \<circ> snd) (filter (\<lambda>(_, v). P v) m)) \<longleftrightarrow> (\<exists>k v. map_of m k = Some v \<and> P v \<and> x = f v)"
  by (force simp: map_of_eq_Some_iff)

lemma set_values:
  "map_wf m \<Longrightarrow> x \<in> set (map (f \<circ> snd) m) \<longleftrightarrow> (\<exists>k v. map_of m k = Some v \<and> x = f v)"
  by (force simp: map_of_eq_Some_iff)

lemma snapshot_within_set:
  assumes "cache_wf I c" and "snapshot_within sub_seconds e age now c = Some ns"
  shows "n \<in> set ns \<longleftrightarrow> (\<exists>a r. map_of (records (entry_or_default e c)) a = Some r \<and> network r = n
    \<and> (age \<le> 0 \<or> (\<exists>cut. sub_seconds now age = Some cut \<and> cut \<le> cached_last_seen_at r)))"
proof (cases "map_of c e")
  case None
  then show ?thesis
    using assms(2) by (simp add: snapshot_within_def entry_or_default_def endpoint_cache_default_def)
next
  case (Some entry)
  have wf: "map_wf (records entry)" using assms(1) Some by (auto simp: cache_wf_def records_wf_def)
  show ?thesis
  proof (cases "age \<le> 0")
    case True
    then show ?thesis using assms(2) Some set_values [OF wf, of n network]
      by (auto simp: snapshot_within_def entry_or_default_def)
  next
    case False
    then obtain cut where "sub_seconds now age = Some cut"
      "ns = map (network \<circ> snd) (filter (\<lambda>(_, r). cut \<le> cached_last_seen_at r) (records entry))"
      using assms(2) Some by (auto simp: snapshot_within_def split: option.splits)
    then show ?thesis
      using False Some set_filtered_values [OF wf, of n network "\<lambda>r. cut \<le> cached_last_seen_at r"]
      unfolding entry_or_default_def by simp metis
  qed
qed

text \<open>
  the retention window is a pure view. With a cache that mirrors a Vault state, a
  snapshot returns exactly the networks of the live, parseable addresses seen at or after
  \<open>now\<close> minus the window; a window of zero or less means no cutoff at all.
\<close>

theorem snapshot_within_exact:
  assumes "cache_wf I c" and "mirrors I e c V"
    and sub: "\<And>t s cut. sub_seconds t s = Some cut \<Longrightarrow> cut = t - s * 1000000000"
    and "snapshot_within sub_seconds e age now c = Some ns"
  shows "n \<in> set ns \<longleftrightarrow> (\<exists>a t. V a = Some t \<and> parse_target_address I a = Some n
    \<and> (age \<le> 0 \<or> now - age * 1000000000 \<le> t))"
proof -
  have rec: "map_of (records (entry_or_default e c)) a = Some r \<longleftrightarrow>
      (\<exists>t. V a = Some t \<and> parse_target_address I a = Some (network r) \<and> cached_last_seen_at r = t)" for a r
    using assms(2) by (cases r) (auto simp: mirrors_def cached_as_def bind_eq_Some_conv)
  have cut: "sub_seconds now age = Some (now - age * 1000000000)" if "0 < age" "map_of c e \<noteq> None"
    using assms(4) that sub by (auto simp: snapshot_within_def split: option.splits)
  have live: "map_of c e \<noteq> None" if "map_of (records (entry_or_default e c)) a = Some r" for a r
    using that by (auto simp: entry_or_default_def endpoint_cache_default_def split: option.splits)
  have "(age \<le> 0 \<or> (\<exists>cut. sub_seconds now age = Some cut \<and> cut \<le> cached_last_seen_at r)) \<longleftrightarrow>
      (age \<le> 0 \<or> now - age * 1000000000 \<le> cached_last_seen_at r)"
    if "map_of (records (entry_or_default e c)) a = Some r" for a r
    using cut live [OF that] by (cases "age \<le> 0") auto
  then have "n \<in> set ns \<longleftrightarrow> (\<exists>a r. map_of (records (entry_or_default e c)) a = Some r \<and> network r = n
      \<and> (age \<le> 0 \<or> now - age * 1000000000 \<le> cached_last_seen_at r))"
    unfolding snapshot_within_set [OF assms(1,4)] by blast
  also have "\<dots> \<longleftrightarrow> (\<exists>a t. V a = Some t \<and> parse_target_address I a = Some n
      \<and> (age \<le> 0 \<or> now - age * 1000000000 \<le> t))"
    unfolding rec by (metis cached_record.select_convs)
  finally show ?thesis .
qed

definition one_record_cache :: "cidr ip_cache" where
  "one_record_cache =
     [(1, \<lparr>records = [(''8.8.8.8'', \<lparr>network = Cidr (V4 0x08080808) 32, cached_last_seen_at = 9\<rparr>)],
           cache_last_synced_at = Some 9, last_full_sync_at = Some 5\<rparr>)]"

theorem snapshot_within_exact_witness:
  "Cidr (V4 0x08080808) 32 \<in> set [Cidr (V4 0x08080808) 32] \<longleftrightarrow>
     (\<exists>a t. (if a = ''8.8.8.8'' then Some (9::int) else None) = Some t
        \<and> parse_target_address cidr_ipnet a = Some (Cidr (V4 0x08080808) 32)
        \<and> (60 \<le> (0::int) \<or> 10 - 60 * 1000000000 \<le> t))"
proof (rule snapshot_within_exact [where c = one_record_cache and e = 1
      and sub_seconds = "\<lambda>t s. Some (t - s * 1000000000)"])
  have p: "parse_target_address cidr_ipnet ''8.8.8.8'' = Some (Cidr (V4 0x08080808) 32)"
    by code_simp
  show "cache_wf cidr_ipnet one_record_cache"
    by (simp add: one_record_cache_def cache_wf_def records_wf_def p)
  show "mirrors cidr_ipnet 1 one_record_cache (\<lambda>a. if a = ''8.8.8.8'' then Some 9 else None)"
    by (simp add: one_record_cache_def mirrors_def entry_or_default_def cached_as_def p)
qed (simp_all add: one_record_cache_def snapshot_within_def)

text \<open>
  feeds are isolated. Any sequence of syncs and evictions of other endpoints leaves an
  endpoint's cached records, its cursor and its full-sync clock exactly as they were.
\<close>

theorem cache_isolation:
  assumes "\<forall>op \<in> set ops. op_endpoint op \<noteq> e"
  shows "map_of (fold (cache_step I) ops c) e = map_of c e"
  using assms
proof (induction ops arbitrary: c)
  case (Cons op ops)
  then have "map_of (cache_step I op c) e = map_of c e"
    by (cases op) (auto simp: apply_full_eq apply_diff_eq evict_def)
  with Cons show ?case by simp
qed simp

theorem cache_isolation_witness:
  "map_of (fold (cache_step cidr_ipnet)
       [Evict 2, ApplyDiff 3 [\<lparr>target_address = ''8.8.8.8'', last_seen_at = 1, is_deleted = True\<rparr>]]
       one_record_cache) 1 = map_of one_record_cache 1"
  by (rule cache_isolation) simp

lemma later_seen_fold_full:
  "fst acc = Some t \<Longrightarrow> \<exists>t'. fst (fold (apply_full_record I) rs acc) = Some t' \<and> t \<le> t'"
proof (induction rs arbitrary: acc t)
  case (Cons r rs)
  have "\<exists>u. fst (apply_full_record I r acc) = Some u \<and> t \<le> u"
    using Cons.prems
    by (auto simp: apply_full_record_def later_seen_def split: prod.splits option.splits)
  then obtain u where u: "fst (apply_full_record I r acc) = Some u" "t \<le> u" by blast
  with Cons.IH [OF u(1)] show ?case by force
qed auto

lemma later_seen_fold_diff:
  "fst acc = Some t \<Longrightarrow> \<exists>t'. fst (fold (apply_diff_record I) rs acc) = Some t' \<and> t \<le> t'"
proof (induction rs arbitrary: acc t)
  case (Cons r rs)
  have "\<exists>u. fst (apply_diff_record I r acc) = Some u \<and> t \<le> u"
    using Cons.prems
    by (auto simp: apply_diff_record_def later_seen_def Let_def split: prod.splits option.splits)
  then obtain u where u: "fst (apply_diff_record I r acc) = Some u" "t \<le> u" by blast
  with Cons.IH [OF u(1)] show ?case by force
qed auto

text \<open>
  The cursor never moves backwards. Once an endpoint's cache has a cursor, every sync of
  any endpoint leaves it with a cursor at least as late; only eviction removes it.
\<close>

theorem cache_cursor_monotone:
  assumes "last_synced_at e c = Some t" and "\<forall>op \<in> set ops. op \<noteq> Evict e"
  shows "\<exists>t'. last_synced_at e (fold (cache_step I) ops c) = Some t' \<and> t \<le> t'"
  using assms
proof (induction ops arbitrary: c t)
  case (Cons op ops)
  have "\<exists>u. last_synced_at e (cache_step I op c) = Some u \<and> t \<le> u"
  proof (cases "op_endpoint op = e")
    case False
    then have "map_of (cache_step I op c) e = map_of c e"
      by (cases op) (auto simp: apply_full_eq apply_diff_eq evict_def)
    then show ?thesis using Cons.prems(1) by (simp add: last_synced_at_def)
  next
    case True
    have "cache_last_synced_at (entry_or_default e c) = Some t"
      using Cons.prems(1) by (auto simp: last_synced_at_def entry_or_default_def split: option.splits)
    then show ?thesis
      using True Cons.prems(2)
      by (cases op) (simp_all add: apply_full_eq apply_diff_eq last_synced_at_def
          later_seen_fold_full later_seen_fold_diff)
  qed
  then obtain u where u: "last_synced_at e (cache_step I op c) = Some u" "t \<le> u" by blast
  with Cons.IH [OF u(1)] Cons.prems(2) show ?case by force
qed auto

theorem cache_cursor_monotone_witness:
  "\<exists>t'. last_synced_at 1 (fold (cache_step cidr_ipnet)
       [Evict 2, ApplyDiff 1 [\<lparr>target_address = ''x'', last_seen_at = 1, is_deleted = True\<rparr>]]
       one_record_cache) = Some t' \<and> 9 \<le> t'"
  by (rule cache_cursor_monotone) (simp_all add: one_record_cache_def last_synced_at_def)

end
