(* ===== verification/Vault_Client.thy ===== *)
theory Vault_Client
  imports Config Crypto "HOL-Library.Multiset"
begin

text \<open>
  The signed HTTP client of \<open>src/vault_client.rs\<close>. The network and the Vault are outside the
  program: a \<open>vault_env\<close> gives, for the n-th request of the client, the wall clock in seconds
  and the reply, which may depend on everything in the request. \<open>sent\<close> is a history of the
  requests made, so that properties can speak about them.

  \<open>buffer_unordered\<close> is modelled as the scheduler it is: requests are issued in order while
  fewer than \<open>MAX_CONCURRENT_PAGES\<close> are in flight, and \<open>pick\<close> chooses which one completes
  next, so results are about every completion order.
\<close>

definition PAGE_SIZE :: nat where "PAGE_SIZE = 1000"
definition MAX_PAGES :: nat where "MAX_PAGES = 1000"
definition MAX_CONCURRENT_PAGES :: nat where "MAX_CONCURRENT_PAGES = 5"

record vault_api_record =
  api_target_address :: string
  api_last_seen_at :: datetime
  api_is_deleted :: bool

record vault_group =
  group_id :: uuid
  group_name :: string

datatype vault_error = NotConfigured | RequestFailed | Status nat

text \<open>A reply's body, up to what the client can deserialize it to. An empty array is a list of
  records and a list of groups alike.\<close>

datatype vault_body =
    EnvelopeBody "vault_api_record list" nat
  | RecordsBody "vault_api_record list"
  | GroupsBody "vault_group list"
  | OtherBody

datatype ips_response = Envelope "vault_api_record list" nat | Legacy "vault_api_record list"

fun decode_records :: "vault_body \<Rightarrow> vault_api_record list option" where
  "decode_records (RecordsBody rs) = Some rs"
| "decode_records (GroupsBody []) = Some []"
| "decode_records _ = None"

fun decode_groups :: "vault_body \<Rightarrow> vault_group list option" where
  "decode_groups (GroupsBody gs) = Some gs"
| "decode_groups (RecordsBody []) = Some []"
| "decode_groups _ = None"

fun decode_ips :: "vault_body \<Rightarrow> ips_response option" where
  "decode_ips (EnvelopeBody rs n) = Some (Envelope rs n)"
| "decode_ips b = map_option Legacy (decode_records b)"

record http_request =
  req_url :: string
  req_api_key :: string
  req_timestamp :: string
  req_signature :: string

datatype http_reply = TransportFailure | Reply nat vault_body

record vault_env =
  wall :: "nat \<Rightarrow> int"
  transport :: "nat \<Rightarrow> http_request \<Rightarrow> http_reply"

record vault_client =
  base_url :: string
  client_api_key :: string
  client_signing_secret :: string
  last_timestamp :: int
  page_size :: nat
  sent :: "http_request list"

definition client_from_config :: "bool \<Rightarrow> 'net runtime_config \<Rightarrow> vault_client option" where
  "client_from_config http_builds config =
     (case (vault_base_url config, vault_api_key config, vault_signing_secret config) of
        (Some url, Some key, Some secret) \<Rightarrow>
          if http_builds
          then Some \<lparr>base_url = url, client_api_key = key, client_signing_secret = secret,
                     last_timestamp = 0, page_size = PAGE_SIZE, sent = []\<rparr>
          else None
      | _ \<Rightarrow> None)"

subsection \<open>One signed request\<close>

definition saturating_sub_i64 :: "int \<Rightarrow> int \<Rightarrow> int" where
  "saturating_sub_i64 a b = max (- (2 ^ 63)) (min (2 ^ 63 - 1) (a - b))"

text \<open>The closure passed to \<open>fetch_update\<close>.\<close>

definition next_timestamp :: "int \<Rightarrow> int \<Rightarrow> int" where
  "next_timestamp now prev =
     (if prev < now \<or> 5 \<le> saturating_sub_i64 prev now then now else prev + 1)"

definition signed_get ::
    "vault_env \<Rightarrow> crypto \<Rightarrow> (vault_body \<Rightarrow> 'a option) \<Rightarrow> string \<Rightarrow> vault_client
       \<Rightarrow> ('a, vault_error) result \<times> vault_client" where
  "signed_get E C decode path_and_query v =
     (let n = length (sent v);
          ts = next_timestamp (wall E n) (last_timestamp v);
          v = v\<lparr>last_timestamp := ts\<rparr>;
          timestamp = show_int ts;
          payload = canonical_v1_payload ''GET'' path_and_query timestamp []
      in case compute_signature C (client_signing_secret v) payload of
           None \<Rightarrow> (Err (Status 500), v)
         | Some signature \<Rightarrow>
             let req = \<lparr>req_url = base_url v @ path_and_query, req_api_key = client_api_key v,
                        req_timestamp = timestamp, req_signature = signature\<rparr>;
                 v = v\<lparr>sent := sent v @ [req]\<rparr>
             in (case transport E n req of
                   TransportFailure \<Rightarrow> Err RequestFailed
                 | Reply st b \<Rightarrow>
                     if \<not> (200 \<le> st \<and> st < 300) then Err (Status st)
                     else ok_or RequestFailed (decode b), v))"

definition list_groups ::
    "vault_env \<Rightarrow> crypto \<Rightarrow> vault_client \<Rightarrow> (vault_group list, vault_error) result \<times> vault_client" where
  "list_groups E C v = signed_get E C decode_groups ''/api/groups'' v"

subsection \<open>Walking the pages\<close>

definition unreserved :: "char \<Rightarrow> bool" where
  "unreserved c \<longleftrightarrow> is_ascii_alphanumeric c \<or> c \<in> {CHR ''-'', CHR ''_'', CHR ''.'', CHR ''~'', CHR '',''}"

definition upper_hex :: "nat \<Rightarrow> char" where
  "upper_hex n = (if n < 10 then char_of (48 + n) else char_of (55 + n))"

definition urlencode :: "string \<Rightarrow> string" where
  "urlencode raw =
     concat (map (\<lambda>c. if unreserved c then [c]
                      else [CHR ''%'', upper_hex (byte c div 16), upper_hex (byte c mod 16)]) raw)"

definition page_path :: "string \<Rightarrow> nat \<Rightarrow> nat \<Rightarrow> string" where
  "page_path base sz offset = base @ ''&limit='' @ nat_digits sz @ ''&offset='' @ nat_digits offset"

definition fetch_page ::
    "vault_env \<Rightarrow> crypto \<Rightarrow> string \<Rightarrow> nat \<Rightarrow> vault_client
       \<Rightarrow> (vault_api_record list, vault_error) result \<times> vault_client" where
  "fetch_page E C base offset v =
     signed_get E C decode_records (page_path base (page_size v) offset) v"

text \<open>The sequential loop: \<open>pages\<close> counts the pages fetched so far.\<close>

function fetch_loop ::
    "vault_env \<Rightarrow> crypto \<Rightarrow> string \<Rightarrow> vault_api_record list \<Rightarrow> nat \<Rightarrow> nat \<Rightarrow> vault_client
       \<Rightarrow> (vault_api_record list, vault_error) result \<times> vault_client" where
  "fetch_loop E C base all offset pages v =
     (case fetch_page E C base offset v of
        (Err e, v') \<Rightarrow> (Err e, v')
      | (Ok page, v') \<Rightarrow>
          let all = all @ page; pages = Suc pages
          in if length page < page_size v' then (Ok all, v')
             else if MAX_PAGES \<le> pages then (Ok all, v')
             else fetch_loop E C base all (offset + page_size v') pages v')"
  by pat_completeness auto
termination
  by (relation "measure (\<lambda>(E, C, base, all, offset, pages, v). MAX_PAGES - pages)") auto

declare fetch_loop.simps [simp del]

definition fetch_sequentially ::
    "vault_env \<Rightarrow> crypto \<Rightarrow> string \<Rightarrow> vault_api_record list \<Rightarrow> vault_client
       \<Rightarrow> (vault_api_record list, vault_error) result \<times> vault_client" where
  "fetch_sequentially E C base already_fetched v =
     (let resume_at_second_page = (length already_fetched = page_size v)
      in if already_fetched \<noteq> [] \<and> \<not> resume_at_second_page then (Ok already_fetched, v)
         else fetch_loop E C base already_fetched
                (if resume_at_second_page then page_size v else 0)
                (if resume_at_second_page then 1 else 0) v)"

text \<open>
  The buffered stream. \<open>issue\<close> sends the next requests while there is room; then \<open>pick\<close> chooses
  the completing one among those in flight. An error ends the stream with that error.
\<close>

fun issue ::
    "vault_env \<Rightarrow> crypto \<Rightarrow> string \<Rightarrow> nat list \<Rightarrow> (vault_api_record list, vault_error) result list
       \<Rightarrow> vault_client
       \<Rightarrow> nat list \<times> (vault_api_record list, vault_error) result list \<times> vault_client" where
  "issue E C base [] inflight v = ([], inflight, v)"
| "issue E C base (offset # offsets) inflight v =
     (if length inflight < MAX_CONCURRENT_PAGES
      then case fetch_page E C base offset v of
             (r, v') \<Rightarrow> issue E C base offsets (inflight @ [r]) v'
      else (offset # offsets, inflight, v))"

definition remove_nth :: "nat \<Rightarrow> 'a list \<Rightarrow> 'a list" where
  "remove_nth i xs = take i xs @ drop (Suc i) xs"

lemma issue_length:
  "issue E C base offsets inflight v = (offsets', inflight', v') \<Longrightarrow>
     length offsets' + length inflight' = length offsets + length inflight"
  by (induction E C base offsets inflight v arbitrary: offsets' inflight' v' rule: issue.induct)
    (auto split: if_splits prod.splits)

function collect_pages ::
    "vault_env \<Rightarrow> crypto \<Rightarrow> (nat \<Rightarrow> nat) \<Rightarrow> string \<Rightarrow> nat list
       \<Rightarrow> (vault_api_record list, vault_error) result list \<Rightarrow> vault_api_record list list \<Rightarrow> vault_client
       \<Rightarrow> (vault_api_record list list, vault_error) result \<times> vault_client" where
  "collect_pages E C pick base offsets inflight pages v =
     (case issue E C base offsets inflight v of
        (offsets', inflight', v') \<Rightarrow>
          if inflight' = [] then (Ok pages, v')
          else let i = pick (length pages) mod length inflight'
               in case inflight' ! i of
                    Err e \<Rightarrow> (Err e, v')
                  | Ok page \<Rightarrow>
                      collect_pages E C pick base offsets' (remove_nth i inflight') (pages @ [page]) v')"
  by pat_completeness auto
termination
proof (relation "measure (\<lambda>(E, C, pick, base, offsets, inflight, pages, v). length offsets + length inflight)",
    goal_cases)
  case (2 E C pick base offsets inflight pages v offsets' rest inflight' v' i page)
  then have len: "length offsets' + length inflight' = length offsets + length inflight"
    using issue_length [of E C base offsets inflight v offsets' inflight' v'] by simp
  have "i < length inflight'" using 2 by simp
  then have "length (remove_nth i inflight') < length inflight'" by (simp add: remove_nth_def)
  with len show ?case by simp
qed simp

declare collect_pages.simps [simp del]

definition fetch_remaining_pages_in_parallel ::
    "vault_env \<Rightarrow> crypto \<Rightarrow> (nat \<Rightarrow> nat) \<Rightarrow> string \<Rightarrow> vault_api_record list \<Rightarrow> nat \<Rightarrow> vault_client
       \<Rightarrow> (vault_api_record list, vault_error) result \<times> vault_client" where
  "fetch_remaining_pages_in_parallel E C pick base data total_pages v =
     (let offsets = map (\<lambda>page. page * page_size v) [1..<total_pages]
      in if offsets = [] then (Ok data, v)
         else let offsets = take (MAX_PAGES - 1) offsets
              in case collect_pages E C pick base offsets [] [] v of
                   (Err e, v') \<Rightarrow> (Err e, v')
                 | (Ok pages, v') \<Rightarrow> (Ok (data @ concat pages), v'))"

definition ips_base :: "string \<Rightarrow> datetime option \<Rightarrow> string" where
  "ips_base groups since =
     (''/api/ips?groups='' @ urlencode groups)
     @ (case since of
          None \<Rightarrow> []
        | Some t \<Rightarrow> ''&since='' @ urlencode (show_int (t div int nanos)) @ ''&include_deleted=true'')"

definition probe_path :: "string \<Rightarrow> nat \<Rightarrow> string" where
  "probe_path base sz =
     base @ ''&include_total=true&limit='' @ nat_digits sz @ ''&offset=0''"

definition fetch_ips ::
    "vault_env \<Rightarrow> crypto \<Rightarrow> (nat \<Rightarrow> nat) \<Rightarrow> string \<Rightarrow> datetime option \<Rightarrow> vault_client
       \<Rightarrow> (vault_api_record list, vault_error) result \<times> vault_client" where
  "fetch_ips E C pick groups since v =
     (let base = ips_base groups since
      in case signed_get E C decode_ips (probe_path base (page_size v)) v of
           (Ok (Envelope data total_pages), v') \<Rightarrow>
             fetch_remaining_pages_in_parallel E C pick base data total_pages v'
         | (Ok (Legacy first_page), v') \<Rightarrow> fetch_sequentially E C base first_page v'
         | (Err e, v') \<Rightarrow>
             (case e of
                Status st \<Rightarrow>
                  if st = 400 then fetch_sequentially E C base [] v' else (Err e, v')
              | _ \<Rightarrow> (Err e, v')))"

subsection \<open>What a request changes\<close>

text \<open>Two client values with the same configuration: only the clock and the history differ.\<close>

definition same_client :: "vault_client \<Rightarrow> vault_client \<Rightarrow> bool" where
  "same_client v v' \<longleftrightarrow>
     base_url v' = base_url v \<and> client_api_key v' = client_api_key v
     \<and> client_signing_secret v' = client_signing_secret v \<and> page_size v' = page_size v"

lemma same_client_refl [simp]: "same_client v v"
  by (simp add: same_client_def)

lemma same_client_trans: "same_client v w \<Longrightarrow> same_client w x \<Longrightarrow> same_client v x"
  by (simp add: same_client_def)

lemma signed_get_client: "signed_get E C decode path v = (r, v') \<Longrightarrow> same_client v v'"
  by (auto simp: signed_get_def Let_def same_client_def split: option.splits)

lemma signed_get_sent: "signed_get E C decode path v = (r, v') \<Longrightarrow> length (sent v') \<le> Suc (length (sent v))"
  by (auto simp: signed_get_def Let_def split: option.splits)

lemma fetch_page_client: "fetch_page E C base offset v = (r, v') \<Longrightarrow> same_client v v'"
  unfolding fetch_page_def by (rule signed_get_client)

lemma fetch_page_sent: "fetch_page E C base offset v = (r, v') \<Longrightarrow> length (sent v') \<le> Suc (length (sent v))"
  unfolding fetch_page_def by (rule signed_get_sent)

subsection \<open>Requests are bounded\<close>

lemma fetch_loop_sent:
  "fetch_loop E C base all offset pages v = (r, v') \<Longrightarrow> pages < MAX_PAGES \<Longrightarrow>
     length (sent v') \<le> length (sent v) + (MAX_PAGES - pages)"
proof (induction E C base all offset pages v arbitrary: r v' rule: fetch_loop.induct)
  case (1 E C base all offset pages v)
  obtain p v1 where p: "fetch_page E C base offset v = (p, v1)" by fastforce
  have one: "length (sent v1) \<le> Suc (length (sent v))" by (rule fetch_page_sent [OF p])
  show ?case
  proof (cases p)
    case (Inl e)
    then show ?thesis
      using 1(2,3) p one by (subst (asm) fetch_loop.simps) auto
  next
    case (Inr page)
    show ?thesis
    proof (cases "length page < page_size v1 \<or> MAX_PAGES \<le> Suc pages")
      case True
      then show ?thesis
        using 1(2,3) p Inr one
        by (subst (asm) fetch_loop.simps) (auto simp: Let_def split: if_splits)
    next
      case False
      then have "fetch_loop E C base (all @ page) (offset + page_size v1) (Suc pages) v1 = (r, v')"
        using 1(2) p Inr by (subst (asm) fetch_loop.simps) (auto simp: Let_def)
      then have "length (sent v') \<le> length (sent v1) + (MAX_PAGES - Suc pages)"
        using 1(1) [OF p [symmetric] Inr refl refl] False by auto
      with one False show ?thesis by simp
    qed
  qed
qed

lemma issue_sent:
  "issue E C base offsets inflight v = (offsets', inflight', v') \<Longrightarrow>
     length (sent v') + length offsets' \<le> length (sent v) + length offsets"
proof (induction E C base offsets inflight v arbitrary: offsets' inflight' v' rule: issue.induct)
  case (2 E C base offset offsets inflight v)
  obtain r v1 where r: "fetch_page E C base offset v = (r, v1)" by fastforce
  show ?case
  proof (cases "length inflight < MAX_CONCURRENT_PAGES")
    case True
    then show ?thesis
      using 2(1) [OF True r [symmetric]] 2(2) r fetch_page_sent [OF r] by fastforce
  next
    case False
    then show ?thesis using 2(2) by simp
  qed
qed simp

lemma collect_pages_sent:
  "collect_pages E C pick base offsets inflight pages v = (r, v') \<Longrightarrow>
     length (sent v') \<le> length (sent v) + length offsets"
proof (induction E C pick base offsets inflight pages v arbitrary: r v' rule: collect_pages.induct)
  case (1 E C pick base offsets inflight pages v)
  obtain offsets' inflight' v1 where i: "issue E C base offsets inflight v = (offsets', inflight', v1)"
    by (metis prod_cases3)
  note step = issue_sent [OF i]
  let ?i = "pick (length pages) mod length inflight'"
  show ?case
  proof (cases "inflight' = [] \<or> (\<exists>e. inflight' ! ?i = Err e)")
    case True
    then have "v' = v1" using 1(2) i
      by (subst (asm) collect_pages.simps) (auto simp: Let_def split: if_splits)
    with step show ?thesis by simp
  next
    case False
    then obtain page where page: "inflight' \<noteq> []" "inflight' ! ?i = Ok page"
      by (cases "inflight' ! ?i") auto
    then have "collect_pages E C pick base offsets' (remove_nth ?i inflight') (pages @ [page]) v1 = (r, v')"
      using 1(2) i by (subst (asm) collect_pages.simps) (simp add: Let_def)
    with 1(1) [OF i [symmetric] refl page(1) refl page(2)] step show ?thesis by fastforce
  qed
qed

lemma fetch_sequentially_sent:
  "fetch_sequentially E C base already v = (r, v') \<Longrightarrow> length (sent v') \<le> length (sent v) + MAX_PAGES"
  using fetch_loop_sent [of E C base already 0 0 v r v']
    fetch_loop_sent [of E C base already "page_size v" 1 v r v']
  by (auto simp: fetch_sequentially_def Let_def MAX_PAGES_def split: if_splits)

lemma fetch_parallel_sent:
  assumes "fetch_remaining_pages_in_parallel E C pick base data n v = (r, v')"
  shows "length (sent v') \<le> length (sent v) + MAX_PAGES"
proof (cases "[1..<n] = []")
  case True
  then show ?thesis using assms by (simp add: fetch_remaining_pages_in_parallel_def)
next
  case False
  let ?offsets = "take (MAX_PAGES - 1) (map (\<lambda>page. page * page_size v) [1..<n])"
  obtain q v1 where q: "collect_pages E C pick base ?offsets [] [] v = (q, v1)" by fastforce
  have "length (sent v1) \<le> length (sent v) + length ?offsets" by (rule collect_pages_sent [OF q])
  moreover have "length ?offsets \<le> MAX_PAGES" by simp
  moreover have "v' = v1"
    using assms False q by (cases q) (auto simp: fetch_remaining_pages_in_parallel_def Let_def)
  ultimately show ?thesis by simp
qed

text \<open>
  C39: a fetch always ends, within a bounded number of requests. Whatever the Vault answers,
  page counts that are wrong or endless full pages included, one fetch sends at most the
  probe and \<open>MAX_PAGES\<close> page requests.
\<close>

theorem fetch_ips_bounded:
  "length (sent (snd (fetch_ips E C pick groups since v))) \<le> length (sent v) + 1 + MAX_PAGES"
proof -
  obtain p v1 where p: "signed_get E C decode_ips (probe_path (ips_base groups since) (page_size v)) v = (p, v1)"
    by fastforce
  have one: "length (sent v1) \<le> Suc (length (sent v))" by (rule signed_get_sent [OF p])
  have seq: "length (sent (snd (fetch_sequentially E C base first v1))) \<le> length (sent v) + 1 + MAX_PAGES"
    for base first
    using fetch_sequentially_sent [OF surjective_pairing, of E C base first v1] one by simp
  have par: "length (sent (snd (fetch_remaining_pages_in_parallel E C pick base data n v1)))
      \<le> length (sent v) + 1 + MAX_PAGES" for base data n
    using fetch_parallel_sent [OF surjective_pairing, of E C pick base data n v1] one by simp
  have same: "length (sent v1) \<le> length (sent v) + 1 + MAX_PAGES" using one by simp
  show ?thesis
    unfolding fetch_ips_def Let_def p
    by (simp add: seq [simplified] par [simplified] same [simplified]
        split: sum.split ips_response.split vault_error.split)
qed

subsection \<open>Nothing is lost to pagination\<close>

text \<open>
  A Vault that serves a fixed dataset: it accepts the client's signing key, and answers a
  page request with that page of the dataset.
\<close>

definition page_at :: "nat \<Rightarrow> 'a list \<Rightarrow> nat \<Rightarrow> 'a list" where
  "page_at sz data offset = take sz (drop offset data)"

definition serves_pages :: "vault_env \<Rightarrow> crypto \<Rightarrow> string \<Rightarrow> vault_client \<Rightarrow> vault_api_record list \<Rightarrow> bool" where
  "serves_pages E C base v data \<longleftrightarrow>
     (\<forall>m. hmac_sha256 C (client_signing_secret v) m \<noteq> None)
     \<and> (\<forall>n req offset. req_url req = base_url v @ page_path base (page_size v) offset \<longrightarrow>
           transport E n req = Reply 200 (RecordsBody (page_at (page_size v) data offset)))"

lemma serves_pages_same: "same_client v v' \<Longrightarrow> serves_pages E C base v' data \<longleftrightarrow> serves_pages E C base v data"
  by (simp add: serves_pages_def same_client_def)

lemma compute_signature_Some: "hmac_sha256 C key m \<noteq> None \<Longrightarrow> \<exists>sig. compute_signature C key m = Some sig"
  by (auto simp: compute_signature_def)

lemma fetch_page_served:
  assumes "serves_pages E C base v data"
  obtains v' where "fetch_page E C base offset v = (Ok (page_at (page_size v) data offset), v')"
    "same_client v v'" "serves_pages E C base v' data"
proof -
  let ?path = "page_path base (page_size v) offset"
  obtain r v' where g: "fetch_page E C base offset v = (r, v')" by fastforce
  obtain sig where "compute_signature C (client_signing_secret v)
      (canonical_v1_payload ''GET'' ?path
        (show_int (next_timestamp (wall E (length (sent v))) (last_timestamp v))) []) = Some sig"
    using compute_signature_Some assms unfolding serves_pages_def by blast
  then have "r = Ok (page_at (page_size v) data offset)"
    using g assms by (auto simp: fetch_page_def signed_get_def Let_def serves_pages_def)
  with that g show thesis using fetch_page_client [OF g] serves_pages_same assms by blast
qed

lemma fetch_loop_served:
  assumes "serves_pages E C base v data" and "0 < page_size v"
    and "length data < MAX_PAGES * page_size v"
    and "offset = pages * page_size v" and "all = take offset data" and "pages < MAX_PAGES"
  shows "fst (fetch_loop E C base all offset pages v) = Ok data"
  using assms
proof (induction E C base all offset pages v rule: fetch_loop.induct)
  case (1 E C base all offset pages v)
  let ?sz = "page_size v"
  let ?page = "page_at ?sz data offset"
  obtain v' where p: "fetch_page E C base offset v = (Ok ?page, v')" and sc: "same_client v v'"
    and srv: "serves_pages E C base v' data"
    using fetch_page_served [OF 1(2)] .
  have sz: "page_size v' = ?sz" using sc by (simp add: same_client_def)
  have all: "all @ ?page = take (offset + ?sz) data"
    using 1(6) by (simp add: page_at_def take_add)
  show ?case
  proof (cases "length ?page < ?sz")
    case True
    then have "length data \<le> offset + ?sz" by (simp add: page_at_def)
    then show ?thesis
      using True p sz all by (subst fetch_loop.simps) (simp add: Let_def)
  next
    case False
    then have "Suc pages * ?sz \<le> length data"
      using 1(3,5) by (simp add: page_at_def min_def split: if_splits)
    then have "Suc pages * ?sz < MAX_PAGES * ?sz" using 1(4) by simp
    then have more: "Suc pages < MAX_PAGES" by (rule mult_less_cancel2 [THEN iffD1, THEN conjunct2])
    have "fst (fetch_loop E C base (all @ ?page) (offset + page_size v') (Suc pages) v') = Ok data"
      using 1(1) [OF p [symmetric] refl refl refl] False more srv 1(3-5) all
      by (simp add: sz)
    then show ?thesis
      using False more p sz by (subst fetch_loop.simps) (simp add: Let_def)
  qed
qed

lemma fetch_sequentially_served:
  assumes "serves_pages E C base v data" and "0 < page_size v"
    and "length data < MAX_PAGES * page_size v"
    and "first = [] \<or> first = page_at (page_size v) data 0"
  shows "fst (fetch_sequentially E C base first v) = Ok data"
proof (cases "length first = page_size v")
  case True
  then have first: "first = take (page_size v) data" using assms(2,4) by (auto simp: page_at_def)
  then show ?thesis
    using True assms(2) fetch_loop_served [OF assms(1-3), of "page_size v" 1 first]
    by (simp add: fetch_sequentially_def MAX_PAGES_def)
next
  case False
  show ?thesis
  proof (cases "first = []")
    case True
    then show ?thesis
      using False fetch_loop_served [OF assms(1-3), of 0 0 "[]"]
      by (simp add: fetch_sequentially_def MAX_PAGES_def)
  next
    case ne: False
    with assms(4) False have "first = data" by (auto simp: page_at_def min_def split: if_splits)
    with ne False show ?thesis by (simp add: fetch_sequentially_def)
  qed
qed

lemma issue_served:
  assumes "serves_pages E C base v data"
  shows "\<exists>offsets' infl' v'. issue E C base offsets (map Ok infl) v = (offsets', map Ok infl', v')
    \<and> same_client v v' \<and> (infl' = [] \<longrightarrow> offsets' = [])
    \<and> mset infl' + mset (map (page_at (page_size v) data) offsets')
        = mset infl + mset (map (page_at (page_size v) data) offsets)"
  using assms
proof (induction offsets arbitrary: infl v)
  case (Cons offset offsets)
  let ?page = "page_at (page_size v) data offset"
  show ?case
  proof (cases "length infl < MAX_CONCURRENT_PAGES")
    case True
    obtain v1 where p: "fetch_page E C base offset v = (Ok ?page, v1)" and sc: "same_client v v1"
      and srv: "serves_pages E C base v1 data"
      using fetch_page_served [OF Cons.prems] .
    have sz: "page_size v1 = page_size v" using sc by (simp add: same_client_def)
    obtain offsets' infl' v' where i: "issue E C base offsets (map Ok (infl @ [?page])) v1 = (offsets', map Ok infl', v')"
      and rest: "same_client v1 v'" "infl' = [] \<longrightarrow> offsets' = []"
        "mset infl' + mset (map (page_at (page_size v) data) offsets')
          = mset (infl @ [?page]) + mset (map (page_at (page_size v) data) offsets)"
      using Cons.IH [OF srv, of "infl @ [?page]"] sz by auto
    show ?thesis
      using True p i rest same_client_trans [OF sc rest(1)]
      by (intro exI [of _ offsets'] exI [of _ infl'] exI [of _ v']) simp
  next
    case False
    then have "infl \<noteq> []" by (auto simp: MAX_CONCURRENT_PAGES_def)
    with False show ?thesis
      by (intro exI [of _ "offset # offsets"] exI [of _ infl] exI [of _ v]) simp
  qed
qed simp

lemma remove_nth_map: "remove_nth i (map f xs) = map f (remove_nth i xs)"
  by (simp add: remove_nth_def take_map drop_map)

lemma mset_remove_nth: "i < length xs \<Longrightarrow> add_mset (xs ! i) (mset (remove_nth i xs)) = mset xs"
  by (metis add_mset_add_single id_take_nth_drop mset.simps(2) mset_append remove_nth_def union_mset_add_mset_right)

lemma collect_pages_served:
  assumes "serves_pages E C base v data"
  shows "\<exists>ps. fst (collect_pages E C pick base offsets (map Ok infl) pages v) = Ok ps
    \<and> mset ps = mset pages + mset infl + mset (map (page_at (page_size v) data) offsets)"
  using assms
proof (induction "length offsets + length infl" arbitrary: offsets infl pages v rule: less_induct)
  case less
  let ?at = "page_at (page_size v) data"
  obtain offsets' infl' v1 where i: "issue E C base offsets (map Ok infl) v = (offsets', map Ok infl', v1)"
    and sc: "same_client v v1" and none: "infl' = [] \<longrightarrow> offsets' = []"
    and ms: "mset infl' + mset (map ?at offsets') = mset infl + mset (map ?at offsets)"
    using issue_served [OF less.prems] by blast
  show ?case
  proof (cases "infl' = []")
    case True
    then have "collect_pages E C pick base offsets (map Ok infl) pages v = (Ok pages, v1)"
      using i by (subst collect_pages.simps) simp
    then show ?thesis using True none ms by (intro exI [of _ pages]) simp
  next
    case False
    let ?i = "pick (length pages) mod length infl'"
    have ilt: "?i < length infl'" using False by simp
    have sz: "page_size v1 = page_size v" using sc by (simp add: same_client_def)
    have eq: "collect_pages E C pick base offsets (map Ok infl) pages v =
        collect_pages E C pick base offsets' (map Ok (remove_nth ?i infl')) (pages @ [infl' ! ?i]) v1"
      using i False ilt by (subst collect_pages.simps) (simp add: Let_def remove_nth_map)
    have fewer: "length offsets' + length (remove_nth ?i infl') < length offsets + length infl"
      using issue_length [OF i] ilt by (simp add: remove_nth_def)
    have srv: "serves_pages E C base v1 data" using serves_pages_same [OF sc] less.prems by simp
    obtain ps where "fst (collect_pages E C pick base offsets' (map Ok (remove_nth ?i infl'))
        (pages @ [infl' ! ?i]) v1) = Ok ps"
      and "mset ps = mset (pages @ [infl' ! ?i]) + mset (remove_nth ?i infl') + mset (map ?at offsets')"
      using less.hyps [OF fewer srv, of "pages @ [infl' ! ?i]"] unfolding sz by blast
    then show ?thesis
      using eq mset_remove_nth [OF ilt] ms by (intro exI [of _ ps]) (simp add: ac_simps)
  qed
qed

lemma concat_pages: "concat (map (\<lambda>p. page_at sz data (p * sz)) [0..<k]) = take (k * sz) data"
proof (induction k)
  case (Suc k)
  have "take (k * sz + sz) data = take (k * sz) data @ page_at sz data (k * sz)"
    by (simp add: take_add page_at_def)
  with Suc show ?case by (simp add: add.commute)
qed simp

lemma mset_concat_eq: "mset xs = mset ys \<Longrightarrow> mset (concat xs) = mset (concat ys)"
proof -
  have "mset (concat zs) = sum_mset (image_mset mset (mset zs))" for zs :: "'a list list"
    by (induction zs) simp_all
  then show "mset xs = mset ys \<Longrightarrow> ?thesis" by simp
qed

lemma fetch_parallel_served:
  assumes "serves_pages E C base v data" and "0 < page_size v"
    and tp: "tp = (length data + page_size v - 1) div page_size v" and "tp \<le> MAX_PAGES"
  shows "\<exists>rs. fst (fetch_remaining_pages_in_parallel E C pick base (page_at (page_size v) data 0) tp v) = Ok rs
    \<and> mset rs = mset data"
proof -
  let ?sz = "page_size v" and ?off = "map (\<lambda>p. p * page_size v) [1..<tp]"
  have fits: "length data \<le> tp * ?sz"
  proof -
    have "tp * ?sz + (length data + ?sz - 1) mod ?sz = length data + ?sz - 1"
      unfolding tp by (rule div_mult_mod_eq)
    moreover have "(length data + ?sz - 1) mod ?sz < ?sz" using assms(2) by simp
    ultimately show ?thesis by linarith
  qed
  show ?thesis
  proof (cases "tp \<le> 1")
    case True
    then have "length data \<le> ?sz" using fits assms(2) by (cases tp) auto
    then show ?thesis using True by (simp add: fetch_remaining_pages_in_parallel_def page_at_def)
  next
    case False
    have keep: "take (MAX_PAGES - 1) ?off = ?off" using assms(4) by simp
    obtain ps v1 where ps: "collect_pages E C pick base ?off [] [] v = (Ok ps, v1)"
      "mset ps = mset (map (page_at ?sz data) ?off)"
      using collect_pages_served [OF assms(1), of pick ?off "[]" "[]"] by (metis (no_types, lifting) add_0 list.map(1) mset.simps(1) prod.collapse)
    have "mset (page_at ?sz data 0 @ concat ps) = mset (page_at ?sz data 0 @ concat (map (page_at ?sz data) ?off))"
      using mset_concat_eq [OF ps(2)] by simp
    also have "page_at ?sz data 0 @ concat (map (page_at ?sz data) ?off)
        = concat (map (\<lambda>p. page_at ?sz data (p * ?sz)) [0..<tp])"
      using False by (simp add: upt_conv_Cons [of 0] comp_def)
    also have "\<dots> = data" using fits by (simp add: concat_pages)
    finally have "mset (page_at ?sz data 0 @ concat ps) = mset data" .
    moreover have "fst (fetch_remaining_pages_in_parallel E C pick base (page_at ?sz data 0) tp v)
        = Ok (page_at ?sz data 0 @ concat ps)"
      unfolding fetch_remaining_pages_in_parallel_def Let_def keep using False ps(1) by simp
    ultimately show ?thesis by blast
  qed
qed

text \<open>
  A fetch returns the whole dataset. Against a Vault that serves a fixed dataset of fewer
  than \<open>MAX_PAGES\<close> pages, in any of the three dialects it may speak (the envelope with a page
  count, the historical array that ignores the flag, or a refusal of the flag with a 400), a
  fetch succeeds and returns every record of the dataset, each as often as it occurs, in
  whatever order concurrent pages complete.
\<close>

theorem fetch_ips_complete:
  assumes "serves_pages E C (ips_base groups since) v data" and "0 < page_size v"
    and "length data < MAX_PAGES * page_size v"
    and "\<And>n req. req_url req = base_url v @ probe_path (ips_base groups since) (page_size v) \<Longrightarrow>
      transport E n req \<in>
        {Reply 200 (EnvelopeBody (page_at (page_size v) data 0) ((length data + page_size v - 1) div page_size v)),
         Reply 200 (RecordsBody (page_at (page_size v) data 0)), Reply 400 OtherBody}"
  shows "\<exists>rs. fst (fetch_ips E C pick groups since v) = Ok rs \<and> mset rs = mset data"
proof -
  let ?base = "ips_base groups since" and ?sz = "page_size v"
  let ?total = "(length data + ?sz - 1) div ?sz"
  obtain p v1 where p: "signed_get E C decode_ips (probe_path ?base ?sz) v = (p, v1)" by fastforce
  have sc: "same_client v v1" by (rule signed_get_client [OF p])
  then have sz: "page_size v1 = ?sz" by (simp add: same_client_def)
  have srv: "serves_pages E C ?base v1 data" using assms(1) serves_pages_same [OF sc] by simp
  obtain sig where "compute_signature C (client_signing_secret v)
      (canonical_v1_payload ''GET'' (probe_path ?base ?sz)
        (show_int (next_timestamp (wall E (length (sent v))) (last_timestamp v))) []) = Some sig"
    using compute_signature_Some assms(1) unfolding serves_pages_def by blast
  then have "p \<in> {Ok (Envelope (page_at ?sz data 0) ?total), Ok (Legacy (page_at ?sz data 0)), Err (Status 400)}"
    using p assms(4) [of "\<lparr>req_url = base_url v @ probe_path ?base ?sz, req_api_key = client_api_key v,
          req_timestamp = show_int (next_timestamp (wall E (length (sent v))) (last_timestamp v)),
          req_signature = sig\<rparr>" "length (sent v)"]
    by (auto simp: signed_get_def Let_def)
  then consider (env) "p = Ok (Envelope (page_at ?sz data 0) ?total)"
    | (legacy) "p = Ok (Legacy (page_at ?sz data 0))" | (old) "p = Err (Status 400)" by blast
  then show ?thesis
  proof cases
    case env
    have "?total * ?sz \<le> length data + ?sz - 1" by (rule div_times_less_eq_dividend)
    moreover have "Suc MAX_PAGES * ?sz = ?sz + MAX_PAGES * ?sz" by simp
    ultimately have "?total * ?sz < Suc MAX_PAGES * ?sz" using assms(2,3) by linarith
    then have "?total \<le> MAX_PAGES" using mult_less_cancel2 [of ?total ?sz "Suc MAX_PAGES"] by simp
    then show ?thesis
      using fetch_parallel_served [OF srv, of ?total pick] assms(2) env p
      by (simp add: fetch_ips_def sz)
  next
    case legacy
    then show ?thesis
      using fetch_sequentially_served [OF srv, of "page_at ?sz data 0"] assms(2,3) p
      by (simp add: fetch_ips_def sz)
  next
    case old
    then show ?thesis
      using fetch_sequentially_served [OF srv, of "[]"] assms(2,3) p
      by (simp add: fetch_ips_def sz)
  qed
qed

text \<open>A Vault with one record that reads the offset of the request.\<close>

definition requested_offset :: "string \<Rightarrow> nat" where
  "requested_offset url = digits_value (rev (takeWhile is_ascii_digit (rev url)))"

lemma requested_offset_page_path: "requested_offset (url @ page_path base sz offset) = offset"
proof -
  have "\<not> is_ascii_digit (CHR ''='')" by code_simp
  then have "takeWhile is_ascii_digit (rev (nat_digits offset) @ CHR ''='' # r) = rev (nat_digits offset)" for r
    by (subst takeWhile_append2) (auto simp: nat_digits_digits)
  then show ?thesis by (simp add: requested_offset_def page_path_def digits_value_nat_digits)
qed

definition demo_client :: vault_client where
  "demo_client =
     \<lparr>base_url = ''http://vault'', client_api_key = ''key'', client_signing_secret = ''secret'',
      last_timestamp = 0, page_size = PAGE_SIZE, sent = []\<rparr>"

definition demo_env :: "vault_api_record list \<Rightarrow> string \<Rightarrow> vault_env" where
  "demo_env data groups =
     \<lparr>wall = (\<lambda>_. 1700000000),
      transport = (\<lambda>_ req.
        if req_url req = ''http://vault'' @ probe_path (ips_base groups None) PAGE_SIZE
        then Reply 200 (EnvelopeBody (page_at PAGE_SIZE data 0) ((length data + PAGE_SIZE - 1) div PAGE_SIZE))
        else Reply 200 (RecordsBody (page_at PAGE_SIZE data (requested_offset (req_url req)))))\<rparr>"

lemma demo_env_serves: "serves_pages (demo_env data groups) demo_crypto (ips_base groups None) demo_client data"
proof -
  have "page_path base sz offset \<noteq> probe_path base sz" for base sz offset
    by (simp add: page_path_def probe_path_def)
  then show ?thesis
    using requested_offset_page_path [of "''http://vault''"]
    by (simp add: serves_pages_def demo_env_def demo_client_def demo_crypto_def)
qed

theorem fetch_ips_complete_witness:
  "\<exists>rs. fst (fetch_ips
       (demo_env [\<lparr>api_target_address = ''8.8.8.8'', api_last_seen_at = 0, api_is_deleted = False\<rparr>] ''g'')
       demo_crypto (\<lambda>_. 0) ''g'' None demo_client) = Ok rs
     \<and> mset rs = {#\<lparr>api_target_address = ''8.8.8.8'', api_last_seen_at = 0, api_is_deleted = False\<rparr>#}"
  using fetch_ips_complete [OF demo_env_serves, of
      "[\<lparr>api_target_address = ''8.8.8.8'', api_last_seen_at = 0, api_is_deleted = False\<rparr>]" "''g''" "\<lambda>_. 0"]
  by (simp add: demo_client_def demo_env_def PAGE_SIZE_def MAX_PAGES_def)

subsection \<open>Timestamps\<close>

text \<open>
  Outgoing timestamps stay honest. Whatever the client sent before, a request is stamped
  between the wall clock and five seconds after it, so a Vault with the usual window of five
  minutes always accepts its age; and it differs from the stamp of the previous request.
\<close>

theorem next_timestamp_bounds:
  assumes "\<bar>now\<bar> < 2 ^ 62" and "\<bar>prev\<bar> < 2 ^ 62"
  shows "now \<le> next_timestamp now prev \<and> next_timestamp now prev \<le> now + 5
    \<and> next_timestamp now prev \<noteq> prev"
proof -
  have "saturating_sub_i64 prev now = prev - now"
    using assms by (simp add: saturating_sub_i64_def)
  then show ?thesis by (auto simp: next_timestamp_def)
qed

theorem next_timestamp_bounds_witness:
  "1700000000 \<le> next_timestamp 1700000000 1700000004 \<and> next_timestamp 1700000000 1700000004 \<le> 1700000000 + 5"
  using next_timestamp_bounds [of 1700000000 1700000004] by simp

text \<open>
  outgoing timestamps are not unique. Of seven requests in one second, the seventh carries
  the timestamp of the first again: once the counter is five seconds ahead it falls back to
  the clock.
\<close>

theorem next_timestamp_repeats:
  "let stamps = map (\<lambda>k. (next_timestamp 1700000000 ^^ Suc k) 0) [0..<7]
   in stamps ! 6 = stamps ! 0 \<and> distinct (take 6 stamps)"
  by (simp add: next_timestamp_def saturating_sub_i64_def Let_def eval_nat_numeral upt_rec)

subsection \<open>Query encoding\<close>

definition hex_digit_value :: "char \<Rightarrow> nat" where
  "hex_digit_value c = (if is_ascii_digit c then byte c - 48 else byte c - 55)"

text \<open>Percent-decoding of a query component, as the receiving side does it.\<close>

fun percent_decode :: "string \<Rightarrow> string" where
  "percent_decode [] = []"
| "percent_decode (c # s) =
     (if c = CHR ''%'' then
        (case s of
           a # b # r \<Rightarrow> char_of (16 * hex_digit_value a + hex_digit_value b) # percent_decode r
         | _ \<Rightarrow> [c])
      else c # percent_decode s)"

lemma upper_hex_value: "n < 16 \<Longrightarrow> hex_digit_value (upper_hex n) = n"
proof -
  assume "n < 16"
  moreover have "list_all (\<lambda>n. hex_digit_value (upper_hex n) = n) [0..<16]" by code_simp
  ultimately show ?thesis by (simp add: list_all_iff)
qed

lemma upper_hex_safe: "n < 16 \<Longrightarrow> is_ascii_alphanumeric (upper_hex n)"
proof -
  assume "n < 16"
  moreover have "list_all (\<lambda>n. is_ascii_alphanumeric (upper_hex n)) [0..<16]" by code_simp
  ultimately show ?thesis by (simp add: list_all_iff)
qed

text \<open>
  group names reach the Vault intact and cannot escape their parameter. Decoding the
  encoded value gives back every byte string, and the encoded value consists of unreserved
  characters, commas and percent escapes only, so it holds no \<open>&\<close>, \<open>=\<close>, \<open>#\<close>, space or line break.
\<close>

theorem urlencode_roundtrip:
  "percent_decode (urlencode raw) = raw
   \<and> list_all (\<lambda>c. unreserved c \<or> c = CHR ''%'') (urlencode raw)"
proof (induction raw)
  case (Cons c raw)
  have h: "byte c div 16 < 16" "byte c mod 16 < 16" using byte_less [of c] by (auto simp del: byte_less)
  have dec: "char_of (16 * (byte c div 16) + byte c mod 16) = c" by (simp add: byte_def)
  have pct: "\<not> unreserved (CHR ''%'')" by code_simp
  show ?case
    using Cons h dec pct
    by (auto simp: urlencode_def upper_hex_value unreserved_def upper_hex_safe)
qed (simp add: urlencode_def)

end
