(* ===== verification/App_State.thy ===== *)
theory App_State
  imports Database Config Crypto Replay Rate_Limit Ip_Filter Ip_Cache Vault_Client
begin

text \<open>
  The application state shared by every handler, \<open>src/state.rs\<close>, and the shape of a handler: an
  action takes the state and gives a result and the state. The state is a record of the
  components' states; \<open>statements\<close> counts the database statements issued.

  What is outside the program is passed in: \<open>crates\<close> are the third-party libraries, and a
  \<open>request_env\<close> is what the world decides during one request: the clocks (the wall clock is read
  once when a handler works and once, as \<open>audit_clock\<close>, when it has worked), random draws, name
  service and Vault, which database statements fail, and what other requests do to the
  database before each statement.
\<close>

record 'net crates =
  ipnet_crate :: "'net ipnet"
  crypto_crate :: crypto
  uuid_to_string :: "uuid \<Rightarrow> string"
  sub_seconds :: "datetime \<Rightarrow> int \<Rightarrow> datetime option"

record request_env =
  clock :: instant
  wall_clock :: datetime
  audit_clock :: datetime
  fresh_id :: uuid
  audit_id :: uuid
  key_bytes :: string
  secret_bytes :: string
  token_bytes :: string
  nonce_bytes :: string
  name_lookup :: name_service
  vault_world :: vault_env
  vault_pick :: "nat \<Rightarrow> nat"
  db_fails :: "nat \<Rightarrow> bool"
  db_others :: "nat \<Rightarrow> database \<Rightarrow> database"

record 'net app =
  app_db :: database
  app_config :: "'net runtime_config"
  app_cipher :: secret_cipher
  app_replay_guard :: replay_guard
  app_master_pin :: "uuid option"
  app_ip_cache :: "'net ip_cache"
  app_rate_limiter :: rate_limiter
  app_vault_client :: "vault_client option"
  app_dns_resolver :: "'net dns_resolver"
  statements :: nat

definition app_state_new ::
    "instant \<Rightarrow> bool \<Rightarrow> database \<Rightarrow> 'net runtime_config \<Rightarrow> 'net dns_resolver \<Rightarrow> secret_cipher \<Rightarrow> 'net app" where
  "app_state_new now http_builds db config dns cipher =
     \<lparr>app_db = db, app_config = config, app_cipher = cipher,
      app_replay_guard = replay_guard_new now (signature_max_age_seconds config),
      app_master_pin = None, app_ip_cache = ip_cache_new, app_rate_limiter = rate_limiter_new,
      app_vault_client = client_from_config http_builds config,
      app_dns_resolver = dns, statements = 0\<rparr>"

subsection \<open>Actions\<close>

type_synonym ('a, 'net) action = "'net app \<Rightarrow> ('a, app_error) result \<times> 'net app"

definition ret :: "'a \<Rightarrow> ('a, 'net) action" where
  "ret a s = (Ok a, s)"

definition fail :: "app_error \<Rightarrow> ('a, 'net) action" where
  "fail e s = (Err e, s)"

definition and_then :: "('a, 'net) action \<Rightarrow> ('a \<Rightarrow> ('b, 'net) action) \<Rightarrow> ('b, 'net) action" where
  "and_then m k s = (case m s of (Ok a, s') \<Rightarrow> k a s' | (Err e, s') \<Rightarrow> (Err e, s'))"

definition ensure :: "bool \<Rightarrow> app_error \<Rightarrow> (unit, 'net) action" where
  "ensure b e = (if b then ret () else fail e)"

definition lift_result :: "('a, app_error) result \<Rightarrow> ('a, 'net) action" where
  "lift_result r = (case r of Ok a \<Rightarrow> ret a | Err e \<Rightarrow> fail e)"

definition some_or :: "'a option \<Rightarrow> app_error \<Rightarrow> ('a, 'net) action" where
  "some_or x e = (case x of Some a \<Rightarrow> ret a | None \<Rightarrow> fail e)"

definition gets :: "('net app \<Rightarrow> 'a) \<Rightarrow> ('a, 'net) action" where
  "gets f s = (Ok (f s), s)"

text \<open>
  One database statement, on a connection that counts them: other requests act first, then the statement runs on what they
  left, or fails and changes nothing.
\<close>

definition exec_conn ::
    "request_env \<Rightarrow> 'a statement \<Rightarrow> database \<times> nat \<Rightarrow> ('a, db_err) result \<times> (database \<times> nat)" where
  "exec_conn E q conn =
     (case conn of
        (d0, n) \<Rightarrow>
          let d = db_others E n d0
          in if db_fails E n then (Err DbConn, (d, Suc n))
             else case q d of
                    Ok (a, d') \<Rightarrow> (Ok a, (d', Suc n))
                  | Err e \<Rightarrow> (Err e, (d, Suc n)))"

definition exec :: "request_env \<Rightarrow> 'a statement \<Rightarrow> 'net app \<Rightarrow> ('a, db_err) result \<times> 'net app" where
  "exec E q s =
     (case exec_conn E q (app_db s, statements s) of
        (r, (d, n)) \<Rightarrow> (r, s\<lparr>app_db := d, statements := n\<rparr>))"

lemma exec_unfold:
  "exec E q s =
     (let n = statements s;
          d = db_others E n (app_db s);
          s' = s\<lparr>app_db := d, statements := Suc n\<rparr>
      in if db_fails E n then (Err DbConn, s')
         else case q d of
                Ok (a, d') \<Rightarrow> (Ok a, s'\<lparr>app_db := d'\<rparr>)
              | Err e \<Rightarrow> (Err e, s'))"
  by (simp add: exec_def exec_conn_def Let_def split: sum.split)

definition run_stmt :: "request_env \<Rightarrow> 'a statement \<Rightarrow> ('a, 'net) action" where
  "run_stmt E q s =
     (case exec E q s of (Ok a, s') \<Rightarrow> (Ok a, s') | (Err e, s') \<Rightarrow> (Err (DbError e), s'))"

text \<open>
  A transaction: beginning it is a statement; inside, no other request interferes; an error, or
  a commit that fails, restores the database as it was when the transaction began.
\<close>

definition txn_stmt :: "request_env \<Rightarrow> 'a statement \<Rightarrow> ('a, 'net) action" where
  "txn_stmt E q = run_stmt (E\<lparr>db_others := \<lambda>_ d. d\<rparr>) q"

definition transaction :: "request_env \<Rightarrow> ('a, 'net) action \<Rightarrow> ('a, 'net) action" where
  "transaction E m s =
     (case run_stmt E (query (\<lambda>_. ())) s of
        (Err e, s1) \<Rightarrow> (Err e, s1)
      | (Ok _, s1) \<Rightarrow>
          (case and_then m (\<lambda>a. and_then (txn_stmt E (query (\<lambda>_. ()))) (\<lambda>_. ret a)) s1 of
             (Err e, s2) \<Rightarrow> (Err e, s2\<lparr>app_db := app_db s1\<rparr>)
           | (Ok a, s2) \<Rightarrow> (Ok a, s2)))"

lemmas action_defs = ret_def fail_def ensure_def lift_result_def some_or_def gets_def

subsection \<open>When an action succeeds\<close>

lemma and_then_Ok:
  "and_then m k s = (Ok b, s'') \<longleftrightarrow> (\<exists>a s'. m s = (Ok a, s') \<and> k a s' = (Ok b, s''))"
  by (auto simp: and_then_def split: prod.splits sum.splits)

lemma ret_Ok: "ret a s = (Ok b, s') \<longleftrightarrow> b = a \<and> s' = s"
  by (auto simp: ret_def)

lemma fail_Ok: "fail e s \<noteq> (Ok b, s')"
  by (simp add: fail_def)

lemma ensure_Ok: "ensure c e s = (Ok u, s') \<longleftrightarrow> c \<and> s' = s"
  by (auto simp: ensure_def ret_def fail_def)

lemma lift_result_Ok: "lift_result r s = (Ok a, s') \<longleftrightarrow> r = Ok a \<and> s' = s"
  by (auto simp: lift_result_def ret_def fail_def split: sum.splits)

lemma some_or_Ok: "some_or x e s = (Ok a, s') \<longleftrightarrow> x = Some a \<and> s' = s"
  by (auto simp: some_or_def ret_def fail_def split: option.splits)

lemma gets_Ok: "gets f s = (Ok a, s') \<longleftrightarrow> a = f s \<and> s' = s"
  by (auto simp: gets_def)

lemma run_stmt_Ok:
  "run_stmt E q s = (Ok a, s') \<longleftrightarrow>
     db_fails E (statements s) = False
     \<and> (\<exists>d'. q (db_others E (statements s) (app_db s)) = Ok (a, d')
            \<and> s' = s\<lparr>app_db := d', statements := Suc (statements s)\<rparr>)"
  by (auto simp: run_stmt_def exec_unfold Let_def split: sum.splits if_splits)

lemmas ok_simps = and_then_Ok ret_Ok fail_Ok ensure_Ok lift_result_Ok some_or_Ok gets_Ok

subsection \<open>Reasoning about what an action does to the state\<close>

text \<open>
  \<open>steps Q m\<close>: whatever happens, success or error, \<open>m\<close> takes the state along the relation \<open>Q\<close>.
  For a reflexive and transitive \<open>Q\<close> this composes over the combinators; for a statement it is
  enough that \<open>Q\<close> allows what other requests do and what the statement itself does.
\<close>

definition steps :: "('net app \<Rightarrow> 'net app \<Rightarrow> bool) \<Rightarrow> ('a, 'net) action \<Rightarrow> bool" where
  "steps Q m \<longleftrightarrow> (\<forall>s. Q s (snd (m s)))"

lemma stepsD: "steps Q m \<Longrightarrow> m s = (r, s') \<Longrightarrow> Q s s'"
  unfolding steps_def by (metis snd_conv)

locale state_relation =
  fixes Q :: "'net app \<Rightarrow> 'net app \<Rightarrow> bool"
  assumes refl: "Q s s"
    and trans: "Q s s' \<Longrightarrow> Q s' s'' \<Longrightarrow> Q s s''"
begin

lemma steps_ret [intro]: "steps Q (ret a)"
  by (simp add: steps_def ret_def refl)

lemma steps_fail [intro]: "steps Q (fail e)"
  by (simp add: steps_def fail_def refl)

lemma steps_ensure [intro]: "steps Q (ensure b e)"
  by (simp add: ensure_def steps_ret steps_fail)

lemma steps_lift [intro]: "steps Q (lift_result r)"
  by (simp add: lift_result_def steps_ret steps_fail split: sum.splits)

lemma steps_some_or [intro]: "steps Q (some_or x e)"
  by (simp add: some_or_def steps_ret steps_fail split: option.splits)

lemma steps_gets [intro]: "steps Q (gets f)"
  by (simp add: steps_def gets_def refl)

lemma steps_and_then [intro]:
  assumes "steps Q m" and "\<And>a. steps Q (k a)"
  shows "steps Q (and_then m k)"
  unfolding steps_def
proof
  fix s
  show "Q s (snd (and_then m k s))"
  proof (cases "m s")
    case (Pair r s')
    have "Q s s'" using stepsD [OF assms(1) Pair] .
    moreover have "Q s' (snd (k a s'))" for a using assms(2) unfolding steps_def by blast
    ultimately show ?thesis by (cases r) (simp_all add: and_then_def Pair trans)
  qed
qed

lemma exec_steps:
  assumes "\<And>s n. Q s (s\<lparr>app_db := db_others E n (app_db s), statements := Suc (statements s)\<rparr>)"
    and "\<And>s a d'. q (app_db s) = Ok (a, d') \<Longrightarrow> Q s (s\<lparr>app_db := d'\<rparr>)"
  shows "Q s (snd (exec E q s))"
proof -
  let ?s' = "s\<lparr>app_db := db_others E (statements s) (app_db s), statements := Suc (statements s)\<rparr>"
  have "Q s (?s'\<lparr>app_db := d'\<rparr>)" if "q (app_db ?s') = Ok (a, d')" for a d'
    using trans [OF assms(1) assms(2) [OF that]] by simp
  then show ?thesis
    unfolding exec_unfold Let_def by (simp add: assms(1) split: sum.split)
qed

lemma steps_stmt:
  assumes "\<And>s n. Q s (s\<lparr>app_db := db_others E n (app_db s), statements := Suc (statements s)\<rparr>)"
    and "\<And>s a d'. q (app_db s) = Ok (a, d') \<Longrightarrow> Q s (s\<lparr>app_db := d'\<rparr>)"
  shows "steps Q (run_stmt E q)"
  unfolding steps_def
proof
  fix s
  show "Q s (snd (run_stmt E q s))"
  proof (cases "exec E q s")
    case (Pair r s')
    have "Q s (snd (exec E q s))" using assms by (rule exec_steps)
    then have "Q s s'" using Pair by simp
    then show ?thesis by (cases r) (simp_all add: run_stmt_def Pair)
  qed
qed

lemma steps_query:
  "(\<And>s n. Q s (s\<lparr>app_db := db_others E n (app_db s), statements := Suc (statements s)\<rparr>)) \<Longrightarrow>
     steps Q (run_stmt E (query f))"
  by (rule steps_stmt) (auto simp: query_def refl)

lemma steps_transaction:
  assumes others: "\<And>s n. Q s (s\<lparr>app_db := db_others E n (app_db s), statements := Suc (statements s)\<rparr>)"
    and count: "\<And>s n. Q s (s\<lparr>statements := n\<rparr>)"
    and rollback: "\<And>s s'. Q s s' \<Longrightarrow> Q s (s'\<lparr>app_db := app_db s\<rparr>)"
    and body: "steps Q m"
  shows "steps Q (transaction E m)"
  unfolding steps_def
proof
  fix s :: "'net app"
  have commit: "steps Q (txn_stmt E (query (\<lambda>_. ())))"
    unfolding txn_stmt_def by (rule steps_query) (simp add: count)
  obtain r1 s1 where 1: "run_stmt E (query (\<lambda>_. ())) s = (r1, s1)" by fastforce
  obtain r2 s2 where 2: "and_then m (\<lambda>a. and_then (txn_stmt E (query (\<lambda>_. ()))) (\<lambda>_. ret a)) s1 = (r2, s2)"
    by fastforce
  have "Q s s1" by (rule stepsD [OF steps_query [OF others] 1])
  moreover have "steps Q (and_then m (\<lambda>a. and_then (txn_stmt E (query (\<lambda>_. ()))) (\<lambda>_. ret a)))"
    by (intro steps_and_then body commit steps_ret)
  from stepsD [OF this 2] have "Q s1 s2" .
  moreover from this have "Q s1 (s2\<lparr>app_db := app_db s1\<rparr>)" by (rule rollback)
  ultimately show "Q s (snd (transaction E m s))"
    by (cases r1; cases r2) (auto simp: transaction_def 1 2 intro: trans)
qed

end

subsection \<open>Database invariants\<close>

text \<open>
  \<open>maintains J m F\<close>: whatever happens, \<open>m\<close> keeps the database invariant \<open>J\<close>, and a result it
  returns satisfies \<open>F\<close>. A fact about a result is available to the rest of the action, which is
  how a check made by one statement is used by a later one. \<open>others_keep E J\<close>: what other requests do
  in between keeps \<open>J\<close> as well.
\<close>

definition maintains :: "(database \<Rightarrow> bool) \<Rightarrow> ('a, 'net) action \<Rightarrow> ('a \<Rightarrow> bool) \<Rightarrow> bool" where
  "maintains J m F \<longleftrightarrow>
     (\<forall>s. J (app_db s) \<longrightarrow> J (app_db (snd (m s))) \<and> (\<forall>a. fst (m s) = Ok a \<longrightarrow> F a))"

definition others_keep :: "request_env \<Rightarrow> (database \<Rightarrow> bool) \<Rightarrow> bool" where
  "others_keep E J \<longleftrightarrow> (\<forall>n d. J d \<longrightarrow> J (db_others E n d))"

lemma maintainsD:
  "maintains J m F \<Longrightarrow> J (app_db s) \<Longrightarrow> m s = (r, s') \<Longrightarrow> J (app_db s') \<and> (\<forall>a. r = Ok a \<longrightarrow> F a)"
  unfolding maintains_def by (metis fst_conv snd_conv)

lemma maintains_weaken: "maintains J m F \<Longrightarrow> (\<And>a. F a \<Longrightarrow> G a) \<Longrightarrow> maintains J m G"
  unfolding maintains_def by blast

lemma maintains_ret: "F a \<Longrightarrow> maintains J (ret a) F"
  by (simp add: maintains_def ret_def)

lemma maintains_fail: "maintains J (fail e) F"
  by (simp add: maintains_def fail_def)

lemma maintains_ensure: "maintains J (ensure b e) (\<lambda>_. b)"
  by (simp add: maintains_def ensure_def ret_def fail_def)

lemma maintains_lift: "maintains J (lift_result r) (\<lambda>a. r = Ok a)"
  by (simp add: maintains_def lift_result_def ret_def fail_def split: sum.split)

lemma maintains_some_or: "maintains J (some_or x e) (\<lambda>a. x = Some a)"
  by (simp add: maintains_def some_or_def ret_def fail_def split: option.split)

lemma maintains_gets: "maintains J (gets f) (\<lambda>_. True)"
  by (simp add: maintains_def gets_def)

lemma maintains_and_then:
  fixes m :: "('a, 'net) action"
  assumes "maintains J m F" and "\<And>a. F a \<Longrightarrow> maintains J (k a) G"
  shows "maintains J (and_then m k) G"
  unfolding maintains_def
proof (intro allI impI)
  fix s :: "'net app" assume J: "J (app_db s)"
  obtain r s' where m: "m s = (r, s')" by fastforce
  note 1 = maintainsD [OF assms(1) J m]
  show "J (app_db (snd (and_then m k s))) \<and> (\<forall>a. fst (and_then m k s) = Ok a \<longrightarrow> G a)"
  proof (cases r)
    case (Inl e)
    then show ?thesis using 1 by (simp add: and_then_def m)
  next
    case (Inr a)
    then have "maintains J (k a) G" using 1 assms(2) by blast
    then have "J (app_db (snd (k a s'))) \<and> (\<forall>b. fst (k a s') = Ok b \<longrightarrow> G b)"
      using 1 unfolding maintains_def by blast
    then show ?thesis using Inr by (simp add: and_then_def m)
  qed
qed

lemma exec_maintains:
  assumes "others_keep E J" and "\<And>d a d'. J d \<Longrightarrow> q d = Ok (a, d') \<Longrightarrow> J d' \<and> F a"
    and "J (app_db s)" and "exec E q s = (r, s')"
  shows "J (app_db s')" and "r = Ok a \<Longrightarrow> F a"
proof -
  have J: "J (db_others E (statements s) (app_db s))" using assms(1,3) by (simp add: others_keep_def)
  show "J (app_db s')" "r = Ok a \<Longrightarrow> F a"
    using assms(4) J assms(2) [OF J] by (auto simp: exec_unfold Let_def split: if_splits sum.splits)
qed

lemma maintains_stmt:
  assumes "others_keep E J" and "\<And>d a d'. J d \<Longrightarrow> q d = Ok (a, d') \<Longrightarrow> J d' \<and> F a"
  shows "maintains J (run_stmt E q) F"
  unfolding maintains_def
proof (intro allI impI)
  fix s :: "'b app" assume J: "J (app_db s)"
  obtain r s' where x: "exec E q s = (r, s')" by fastforce
  have "J (app_db s')" "r = Ok a \<Longrightarrow> F a" for a
    using exec_maintains [where s = s and F = F and E = E and J = J and q = q, OF assms(1) _ J x] assms(2)
    by blast+
  then show "J (app_db (snd (run_stmt E q s))) \<and> (\<forall>a. fst (run_stmt E q s) = Ok a \<longrightarrow> F a)"
    by (cases r) (simp_all add: run_stmt_def x)
qed

lemma maintains_query:
  "others_keep E J \<Longrightarrow> (\<And>d. J d \<Longrightarrow> F (f d)) \<Longrightarrow> maintains J (run_stmt E (query f)) F"
  by (rule maintains_stmt) (auto simp: query_def)

lemma others_alone: "others_keep (E\<lparr>db_others := \<lambda>_ d. d\<rparr>) J"
  by (simp add: others_keep_def)

lemma maintains_txn_stmt:
  "(\<And>d a d'. J d \<Longrightarrow> q d = Ok (a, d') \<Longrightarrow> J d' \<and> F a) \<Longrightarrow> maintains J (txn_stmt E q) F"
  unfolding txn_stmt_def by (rule maintains_stmt) (simp_all add: others_alone)

lemma maintains_txn_query: "(\<And>d. J d \<Longrightarrow> F (f d)) \<Longrightarrow> maintains J (txn_stmt E (query f)) F"
  by (rule maintains_txn_stmt) (auto simp: query_def)

lemma maintains_transaction:
  fixes m :: "('a, 'net) action"
  assumes "others_keep E J" and "maintains J m F"
  shows "maintains J (transaction E m) F"
  unfolding maintains_def
proof (intro allI impI)
  fix s :: "'net app" assume J: "J (app_db s)"
  let ?body = "and_then m (\<lambda>a. and_then (txn_stmt E (query (\<lambda>_. ()))) (\<lambda>_. ret a))"
  obtain r1 s1 where 1: "run_stmt E (query (\<lambda>_. ())) s = (r1, s1)" by fastforce
  obtain r2 s2 where 2: "?body s1 = (r2, s2)" by fastforce
  have J1: "J (app_db s1)"
    using maintainsD [OF maintains_query [OF assms(1), where F = "\<lambda>_. True"] J 1] by simp
  have "maintains J ?body F"
    by (intro maintains_and_then [OF assms(2)] maintains_and_then [where F = "\<lambda>_. True"]
        maintains_txn_query maintains_ret) simp_all
  from maintainsD [OF this J1 2]
  show "J (app_db (snd (transaction E m s))) \<and> (\<forall>a. fst (transaction E m s) = Ok a \<longrightarrow> F a)"
    using J1 by (cases r1; cases r2) (simp_all add: transaction_def 1 2)
qed

text \<open>An action that leaves the database alone keeps every invariant.\<close>

lemma maintains_same_db: "(\<And>s. app_db (snd (m s)) = app_db s) \<Longrightarrow> maintains J m (\<lambda>_. True)"
  by (simp add: maintains_def)

subsection \<open>A concrete instance\<close>

text \<open>The reference networks and codecs, a world in which nothing fails and nobody interferes,
  and a service on a given database.\<close>

definition demo_crates :: "cidr crates" where
  "demo_crates =
     \<lparr>ipnet_crate = cidr_ipnet, crypto_crate = demo_crypto, uuid_to_string = (\<lambda>u. nat_digits (unat u)),
      sub_seconds = (\<lambda>t n. Some (t - n * int nanos))\<rparr>"

definition calm_env :: request_env where
  "calm_env =
     \<lparr>clock = 0, wall_clock = 0, audit_clock = 0, fresh_id = 100, audit_id = 200,
      key_bytes = ''k'', secret_bytes = ''s'', token_bytes = ''t'', nonce_bytes = ''n'',
      name_lookup = (\<lambda>_. None), vault_world = demo_env [] [], vault_pick = (\<lambda>_. 0),
      db_fails = (\<lambda>_. False), db_others = (\<lambda>_ d. d)\<rparr>"

definition demo_app :: "database \<Rightarrow> cidr app" where
  "demo_app d = app_state_new 0 True d runtime_config_default dns_resolver_new Plaintext"

definition demo_key :: "uuid \<Rightarrow> string \<Rightarrow> bool \<Rightarrow> api_key" where
  "demo_key i name master =
     \<lparr>key_id = i, key_name = name, key_prefix = name, key_hash = hex_of_bytes name,
      signing_secret = Some (PLAINTEXT_PREFIX @ hex_of_bytes ''secret''), key_bound_ips = None,
      is_master = master, can_manage_keys = False, parent_key_id = None, key_owner_key_id = None,
      key_created_at = 0, key_updated_at = 0\<rparr>"

definition demo_db :: database where
  "demo_db = migrated\<lparr>api_keys := [demo_key 1 ''master'' True, demo_key 2 ''daughter'' False]\<rparr>"

definition demo_endpoint :: endpoint where
  "demo_endpoint =
     \<lparr>ep_id = 1, owner_key_id = Some 2, ep_name = ''feed'', description = None, token_secret = ''token'',
      vault_groups = ''group'', ttl_seconds = 3600, max_age_seconds = 60, ep_bound_ips = None,
      filter_rfc1918 = True, filter_bogons = False, filter_loopback = False, ep_last_synced_at = None,
      ep_created_at = 0, ep_updated_at = 0\<rparr>"

lemma demo_db_valid: "db_valid demo_db"
  by (simp add: demo_db_def migrated_def demo_key_def db_valid_def api_keys_valid_def endpoints_valid_def
      permissions_valid_def audit_logs_valid_def masters_def hex_of_bytes_def nibble_def byte_def)

end
