(* ===== verification/Master.thy ===== *)
theory Master
  imports App_State
begin

text \<open>
  The pinned Master identity, \<open>src/master.rs\<close>. The pin is a cell that is written at most once;
  authentication demotes every key that claims to be the Master and is not the pinned one.
\<close>

datatype master_pin_error = NoMaster | Duplicates "uuid list" | MissingConstraint | PinDb db_err

text \<open>\<open>OnceCell::set\<close>, whose failure on a full cell the code ignores.\<close>

definition set_pin :: "uuid \<Rightarrow> 'net app \<Rightarrow> 'net app" where
  "set_pin i s = (case app_master_pin s of None \<Rightarrow> s\<lparr>app_master_pin := Some i\<rparr> | Some _ \<Rightarrow> s)"

definition pinned_to :: "uuid \<Rightarrow> 'net app \<Rightarrow> 'net app" where
  "pinned_to i s = s\<lparr>app_master_pin := Some i\<rparr>"

definition resolve_inner ::
    "request_env \<Rightarrow> 'net app \<Rightarrow> (uuid, master_pin_error) result \<times> 'net app" where
  "resolve_inner E s =
     (case exec E (query masters) s of
        (Err e, s') \<Rightarrow> (Err (PinDb e), s')
      | (Ok ms, s') \<Rightarrow>
          (case ms of
             [] \<Rightarrow> (Err NoMaster, s')
           | [m] \<Rightarrow> (Ok (key_id m), s')
           | _ \<Rightarrow> (Err (Duplicates (map key_id ms)), s')))"

definition pin_at_boot ::
    "request_env \<Rightarrow> 'net app \<Rightarrow> (uuid, master_pin_error) result \<times> 'net app" where
  "pin_at_boot E s =
     (case exec E (has_index ''api_keys'' MARKER_INDEX) s of
        (Err e, s') \<Rightarrow> (Err (PinDb e), s')
      | (Ok present, s') \<Rightarrow>
          if \<not> present then (Err MissingConstraint, s')
          else
            (case resolve_inner E s' of
               (Err e, s'') \<Rightarrow> (Err e, s'')
             | (Ok i, s'') \<Rightarrow>
                 let s3 = set_pin i s''
                 in (Ok (case app_master_pin s3 of Some p \<Rightarrow> p | None \<Rightarrow> i), s3)))"

definition resolve_pin :: "request_env \<Rightarrow> 'net app \<Rightarrow> uuid option \<times> 'net app" where
  "resolve_pin E s =
     (case app_master_pin s of
        Some i \<Rightarrow> (Some i, s)
      | None \<Rightarrow>
          (case resolve_inner E s of
             (Ok i, s') \<Rightarrow> (app_master_pin (set_pin i s'), set_pin i s')
           | (Err _, s') \<Rightarrow> (None, s')))"

definition authenticate :: "request_env \<Rightarrow> api_key \<Rightarrow> 'net app \<Rightarrow> api_key \<times> 'net app" where
  "authenticate E key s =
     (if \<not> is_master key then (key, s)
      else
        (case resolve_pin E s of
           (Some pinned, s') \<Rightarrow> (if pinned = key_id key then key else key\<lparr>is_master := False\<rparr>, s')
         | (None, s') \<Rightarrow> (key\<lparr>is_master := False\<rparr>, s')))"

subsection \<open>What the pin operations change\<close>

text \<open>All a statement touches is the database and the statement counter.\<close>

lemma exec_frame:
  assumes "exec E q s = (r, s')"
  shows "s' = s\<lparr>app_db := app_db s', statements := Suc (statements s)\<rparr>"
  using assms by (auto simp: exec_unfold Let_def split: if_splits sum.splits)

lemma exec_query:
  assumes "exec E (query f) s = (r, s')"
  shows "app_db s' = db_others E (statements s) (app_db s)" "r = Ok a \<Longrightarrow> a = f (app_db s')"
  using assms by (auto simp: exec_unfold query_def Let_def split: if_splits)

lemma resolve_inner_frame:
  assumes "resolve_inner E s = (r, s')"
  shows "s' = s\<lparr>app_db := app_db s', statements := Suc (statements s)\<rparr>"
    "app_db s' = db_others E (statements s) (app_db s)"
proof -
  obtain q t where x: "exec E (query masters) s = (q, t)" by fastforce
  have "s' = t" using assms by (auto simp: resolve_inner_def x split: sum.splits list.splits)
  then show "s' = s\<lparr>app_db := app_db s', statements := Suc (statements s)\<rparr>"
    "app_db s' = db_others E (statements s) (app_db s)"
    using exec_frame [OF x] exec_query [OF x] by simp_all
qed

lemma resolve_inner_Ok:
  assumes "resolve_inner E s = (Ok i, s')"
  shows "\<exists>m. masters (app_db s') = [m] \<and> key_id m = i"
proof -
  obtain q t where x: "exec E (query masters) s = (q, t)" by fastforce
  then show ?thesis
    using assms exec_query(2) [OF x]
    by (auto simp: resolve_inner_def split: sum.splits list.splits)
qed

lemma pin_set_pin [simp]:
  "app_master_pin (set_pin i s) = (case app_master_pin s of None \<Rightarrow> Some i | Some p \<Rightarrow> Some p)"
  "app_db (set_pin i s) = app_db s" "statements (set_pin i s) = statements s"
  "app_replay_guard (set_pin i s) = app_replay_guard s"
  by (simp_all add: set_pin_def split: option.splits)

text \<open>What \<open>resolve\<close> gives is what the cell holds afterwards, and a full cell is never rewritten.\<close>

lemma resolve_pin_frame:
  assumes "resolve_pin E s = (p, s')"
  shows "app_master_pin s' = p" and "app_master_pin s = Some i \<Longrightarrow> p = Some i \<and> s' = s"
    and "app_replay_guard s' = app_replay_guard s"
    and "app_db s' = (if app_master_pin s = None then db_others E (statements s) (app_db s) else app_db s)"
    and "s' = s\<lparr>app_db := app_db s', statements := statements s', app_master_pin := p\<rparr>"
proof -
  obtain r t where x: "resolve_inner E s = (r, t)" by fastforce
  note f = resolve_inner_frame [OF x]
  have pin: "app_master_pin t = app_master_pin s" "app_replay_guard t = app_replay_guard s"
    by (subst f(1), simp)+
  show "app_master_pin s' = p" "app_master_pin s = Some i \<Longrightarrow> p = Some i \<and> s' = s"
    "app_replay_guard s' = app_replay_guard s"
    "app_db s' = (if app_master_pin s = None then db_others E (statements s) (app_db s) else app_db s)"
    using assms pin f(2) by (auto simp: resolve_pin_def x split: option.splits sum.splits)
  obtain d n where t: "t = s\<lparr>app_db := d, statements := n\<rparr>" using f(1) by blast
  show "s' = s\<lparr>app_db := app_db s', statements := statements s', app_master_pin := p\<rparr>"
    using assms by (auto simp: resolve_pin_def x t set_pin_def split: option.splits sum.splits)
qed

lemma authenticate_fst:
  "fst (authenticate E key s) =
     key\<lparr>is_master := is_master key \<and> fst (resolve_pin E s) = Some (key_id key)\<rparr>"
  by (cases "resolve_pin E s") (auto simp: authenticate_def split: option.splits)

lemma authenticate_snd: "snd (authenticate E key s) = (if is_master key then snd (resolve_pin E s) else s)"
  by (cases "resolve_pin E s") (auto simp: authenticate_def split: option.splits)

subsection \<open>Properties\<close>

text \<open>
  C6: the Master identity is fixed for the life of the process. Pinning at boot succeeds only
  when the uniqueness index is there and exactly one row claims to be the Master, and that
  row is the one pinned. Once an identity is pinned, no authentication changes it, and a key
  leaves authentication as Master exactly when it claims to be and is the pinned key, whatever
  the database then holds and whatever other requests write to it; its other columns are
  untouched.
\<close>

theorem master_identity_pinned:
  "(case pin_at_boot E s of
      (Ok i, s') \<Rightarrow>
        app_master_pin s' = Some i
        \<and> (''api_keys'', MARKER_INDEX) \<in> set (indexes (db_others E (statements s) (app_db s)))
        \<and> (app_master_pin s = None \<longrightarrow> (\<exists>m. masters (app_db s') = [m] \<and> key_id m = i))
    | (Err _, s') \<Rightarrow> app_master_pin s' = app_master_pin s)
   \<and> (app_master_pin s = Some p \<longrightarrow>
        authenticate E key s = (key\<lparr>is_master := is_master key \<and> key_id key = p\<rparr>, s))"
proof
  obtain b t where x: "exec E (has_index ''api_keys'' MARKER_INDEX) s = (b, t)" by fastforce
  obtain r u where y: "resolve_inner E t = (r, u)" by fastforce
  have t: "app_master_pin t = app_master_pin s" by (subst exec_frame [OF x]) simp
  have u: "app_master_pin u = app_master_pin s" by (subst resolve_inner_frame(1) [OF y]) (simp add: t)
  have idx: "b = Ok True \<Longrightarrow> (''api_keys'', MARKER_INDEX) \<in> set (indexes (db_others E (statements s) (app_db s)))"
    using x by (auto simp: exec_unfold Let_def split: if_splits sum.splits dest: has_index_Ok)
  show "case pin_at_boot E s of
      (Ok i, s') \<Rightarrow>
        app_master_pin s' = Some i
        \<and> (''api_keys'', MARKER_INDEX) \<in> set (indexes (db_others E (statements s) (app_db s)))
        \<and> (app_master_pin s = None \<longrightarrow> (\<exists>m. masters (app_db s') = [m] \<and> key_id m = i))
    | (Err _, s') \<Rightarrow> app_master_pin s' = app_master_pin s"
  proof (cases b)
    case (Inl e)
    then show ?thesis using t by (simp add: pin_at_boot_def x)
  next
    case b: (Inr present)
    show ?thesis
    proof (cases r)
      case (Inl e)
      then show ?thesis using t u b by (simp add: pin_at_boot_def x y)
    next
      case (Inr i)
      have "\<exists>m. masters (app_db u) = [m] \<and> key_id m = i" using resolve_inner_Ok y Inr by blast
      then show ?thesis using t u b Inr idx
        by (simp add: pin_at_boot_def x y Let_def split: option.splits)
    qed
  qed
  show "app_master_pin s = Some p \<longrightarrow>
      authenticate E key s = (key\<lparr>is_master := is_master key \<and> key_id key = p\<rparr>, s)"
    by (auto simp: authenticate_def resolve_pin_def)
qed

theorem master_identity_pinned_witness:
  "fst (authenticate calm_env (demo_key 2 ''daughter'' True) (pinned_to 1 (demo_app demo_db)))
     = demo_key 2 ''daughter'' False
   \<and> (\<exists>m. masters (app_db (snd (pin_at_boot calm_env (demo_app demo_db)))) = [m] \<and> key_id m = 1)"
proof
  have "authenticate calm_env (demo_key 2 ''daughter'' True) (pinned_to 1 (demo_app demo_db))
      = ((demo_key 2 ''daughter'' True)\<lparr>is_master := False\<rparr>, pinned_to 1 (demo_app demo_db))"
    using master_identity_pinned [where E = calm_env and s = "pinned_to 1 (demo_app demo_db)" and p = 1 and key = "demo_key 2 ''daughter'' True"]
    by (simp add: pinned_to_def demo_key_def)
  then show "fst (authenticate calm_env (demo_key 2 ''daughter'' True) (pinned_to 1 (demo_app demo_db)))
      = demo_key 2 ''daughter'' False" by (simp add: demo_key_def)
  have "fst (pin_at_boot calm_env (demo_app demo_db)) = Ok 1" by code_simp
  moreover have "app_master_pin (demo_app demo_db) = None" by (simp add: demo_app_def app_state_new_def)
  ultimately show "\<exists>m. masters (app_db (snd (pin_at_boot calm_env (demo_app demo_db)))) = [m] \<and> key_id m = 1"
    using master_identity_pinned [where E = calm_env and s = "demo_app demo_db"]
    by (cases "pin_at_boot calm_env (demo_app demo_db)") auto
qed

end
