(* ===== verification/Middleware.thy ===== *)
theory Middleware
  imports Master
begin

text \<open>
  The authentication layer in front of every \<open>/api\<close> route, \<open>src/middleware.rs\<close>. A request is its
  method, original target, headers, peer and body; a body is \<open>None\<close> when reading it fails. The
  layer answers with the client address and the key record it hands to the handler. Arithmetic
  on timestamps is that of \<open>i64\<close> in a release build: it wraps.
\<close>

definition API_KEY_HEADER :: string where "API_KEY_HEADER = ''X-API-Key''"
definition SIGNATURE_HEADER :: string where "SIGNATURE_HEADER = ''X-Signature-256''"
definition TIMESTAMP_HEADER :: string where "TIMESTAMP_HEADER = ''X-Timestamp''"
definition MAX_REQUEST_BODY_BYTES :: nat where "MAX_REQUEST_BODY_BYTES = 3 * 1024 * 1024"
definition MAX_SIGNED_BODY_BYTES :: nat where "MAX_SIGNED_BODY_BYTES = MAX_REQUEST_BODY_BYTES"

record request =
  rq_method :: string
  rq_target :: string
  rq_headers :: header_map
  rq_peer :: ipaddr
  rq_body :: "string option"

definition wrap64 :: "int \<Rightarrow> int" where
  "wrap64 x = (x + 2 ^ 63) mod 2 ^ 64 - 2 ^ 63"

definition validate_timestamp :: "int \<Rightarrow> string \<Rightarrow> int \<Rightarrow> (unit, app_error) result" where
  "validate_timestamp now raw max_age =
     (case parse_i64 (trim raw) of
        None \<Rightarrow> Err (Unauthorized (TIMESTAMP_HEADER @ '' must be a Unix timestamp''))
      | Some presented \<Rightarrow>
          let skew = wrap64 \<bar>wrap64 (now - presented)\<bar>
          in if max_age < skew
             then Err (Unauthorized (''Request timestamp is outside the permitted '' @ show_int max_age
                    @ ''s window (off by '' @ show_int skew @ ''s)''))
             else Ok ())"

fun reject_signature :: "signature_rejection \<Rightarrow> app_error" where
  "reject_signature MissingPrefix = Unauthorized ''Signature must be formatted as sha256=<hex>''"
| "reject_signature MalformedHex = Unauthorized ''Signature is not valid hexadecimal''"
| "reject_signature Mismatch = Unauthorized ''Invalid request signature''"
| "reject_signature KeyUnusable = Internal"

definition recover_signing_secret :: "crypto \<Rightarrow> secret_cipher \<Rightarrow> api_key \<Rightarrow> (string, app_error) result" where
  "recover_signing_secret C cipher key =
     (case signing_secret key of
        None \<Rightarrow> Err (Unauthorized ''This API key has no signing secret; rotate it to obtain one'')
      | Some stored \<Rightarrow>
          (case open_secret C cipher stored of Ok secret \<Rightarrow> Ok secret | Err _ \<Rightarrow> Err Internal))"

text \<open>\<open>resolved()\<close> and \<open>resolve_client_ip\<close>: the request's client address.\<close>

definition client_address :: "'net crates \<Rightarrow> request_env \<Rightarrow> request \<Rightarrow> (ipaddr, 'net) action" where
  "client_address L E rq s =
     (case proxies_resolved (ipnet_crate L) (name_lookup E) (clock E)
             (config_trusted_proxies (app_config s)) (app_dns_resolver s) of
        (trusted, dns) \<Rightarrow>
          (Ok (resolve_client_ip (ipnet_crate L) (rq_peer rq) (rq_headers rq) trusted),
           s\<lparr>app_dns_resolver := dns\<rparr>))"

text \<open>The declared length, then the bytes themselves.\<close>

definition read_body :: "request \<Rightarrow> (string, app_error) result" where
  "read_body rq =
     (let too_large = Err (BodyRejected 413 ''Request body exceeds the maximum allowed size'')
      in if (case Option.bind (rq_headers rq ''Content-Length'') parse_usize of
               Some declared \<Rightarrow> int MAX_SIGNED_BODY_BYTES < declared
             | None \<Rightarrow> False)
         then too_large
         else case rq_body rq of
                None \<Rightarrow> too_large
              | Some bytes \<Rightarrow> if length bytes \<le> MAX_SIGNED_BODY_BYTES then Ok bytes else too_large)"

definition use_signature :: "request_env \<Rightarrow> uuid \<Rightarrow> string \<Rightarrow> (bool, 'net) action" where
  "use_signature E key digest s =
     (case replay_check_and_record (clock E) key digest (app_replay_guard s) of
        (fresh, g) \<Rightarrow> (Ok fresh, s\<lparr>app_replay_guard := g\<rparr>))"

text \<open>The check of \<open>bound_ips\<close>, shared with the feed; an empty list admits everyone.\<close>

definition check_bound_ips ::
    "'net crates \<Rightarrow> request_env \<Rightarrow> string option \<Rightarrow> ipaddr \<Rightarrow> (bool, 'net) action" where
  "check_bound_ips L E bound client_ip s =
     (case parse_bound_ips (ipnet_crate L) (case bound of Some raw \<Rightarrow> raw | None \<Rightarrow> []) of
        Err _ \<Rightarrow> (Err Internal, s)
      | Ok entries \<Rightarrow>
          if entries = [] then (Ok True, s)
          else case is_allowed (ipnet_crate L) (name_lookup E) (clock E) entries client_ip (app_dns_resolver s) of
                 (allowed, dns) \<Rightarrow> (Ok allowed, s\<lparr>app_dns_resolver := dns\<rparr>))"

definition master_authenticate :: "request_env \<Rightarrow> api_key \<Rightarrow> (api_key, 'net) action" where
  "master_authenticate E key s = (case authenticate E key s of (key', s') \<Rightarrow> (Ok key', s'))"

definition auth_middleware ::
    "'net crates \<Rightarrow> request_env \<Rightarrow> request \<Rightarrow> (ipaddr \<times> api_key, 'net) action" where
  "auth_middleware L E rq =
     and_then (client_address L E rq) (\<lambda>client_ip.
     and_then (some_or (rq_headers rq API_KEY_HEADER)
       (Unauthorized (''Missing credentials: provide an '' @ API_KEY_HEADER @ '' header''))) (\<lambda>presented_key.
     and_then (some_or (rq_headers rq TIMESTAMP_HEADER)
       (Unauthorized (''A signed request must include '' @ TIMESTAMP_HEADER))) (\<lambda>timestamp_header.
     and_then (gets (\<lambda>s. signature_max_age_seconds (app_config s))) (\<lambda>max_age.
     and_then (lift_result (validate_timestamp (wall_clock E div int nanos) timestamp_header max_age)) (\<lambda>_.
     and_then (some_or (rq_headers rq SIGNATURE_HEADER)
       (Unauthorized (''A signed request must include '' @ SIGNATURE_HEADER))) (\<lambda>signature.
     and_then (run_stmt E (query (find_key_by_hash
       (hex_encode (crypto_crate L) (sha256 (crypto_crate L) presented_key))))) (\<lambda>found.
     and_then (some_or found (Unauthorized ''Invalid API Key'')) (\<lambda>row.
     and_then (master_authenticate E row) (\<lambda>key.
     and_then (gets app_cipher) (\<lambda>cipher.
     and_then (lift_result (recover_signing_secret (crypto_crate L) cipher key)) (\<lambda>secret.
     and_then (lift_result (read_body rq)) (\<lambda>bytes.
     and_then (lift_result
       (case verify_signature (crypto_crate L) secret
               (canonical_v1_payload (rq_method rq) (rq_target rq) timestamp_header bytes) signature of
          Ok digest \<Rightarrow> Ok digest
        | Err rejection \<Rightarrow> Err (reject_signature rejection))) (\<lambda>digest.
     and_then (use_signature E (key_id key) digest) (\<lambda>fresh.
     and_then (ensure fresh
       (Unauthorized ''This signature has already been used; sign a fresh request'')) (\<lambda>_.
     and_then (check_bound_ips L E (key_bound_ips key) client_ip) (\<lambda>allowed.
     and_then (ensure allowed (Forbidden ''Client IP not allowed'')) (\<lambda>_.
     ret (client_ip, key))))))))))))))))))"

subsection \<open>What an accepted request has shown\<close>

text \<open>The trusted networks and the client address, as functions of the state before the request.\<close>

definition trusted_networks :: "'net crates \<Rightarrow> request_env \<Rightarrow> 'net app \<Rightarrow> 'net list" where
  "trusted_networks L E s =
     networks (config_trusted_proxies (app_config s))
     @ concat (map (host_nets (ipnet_crate L) (name_lookup E) (clock E) (app_dns_resolver s))
         (hostnames (config_trusted_proxies (app_config s))))"

definition client_of :: "'net crates \<Rightarrow> request_env \<Rightarrow> request \<Rightarrow> 'net app \<Rightarrow> ipaddr" where
  "client_of L E rq s = resolve_client_ip (ipnet_crate L) (rq_peer rq) (rq_headers rq) (trusted_networks L E s)"

text \<open>An allow-list, as it stands in a row, admits an address: it parses, and it is empty or one
  of the networks its entries denote contains the address.\<close>

definition admits :: "'net crates \<Rightarrow> request_env \<Rightarrow> 'net app \<Rightarrow> string option \<Rightarrow> ipaddr \<Rightarrow> bool" where
  "admits L E s bound ip =
     (case parse_bound_ips (ipnet_crate L) (case bound of Some raw \<Rightarrow> raw | None \<Rightarrow> []) of
        Err _ \<Rightarrow> False
      | Ok entries \<Rightarrow>
          entries = [] \<or>
          covers (ipnet_crate L)
            (concat (map (entry_nets (host_nets (ipnet_crate L) (name_lookup E) (clock E) (app_dns_resolver s)))
               entries)) ip)"

lemma client_address_Ok:
  assumes "dns_inv (app_dns_resolver s)" and "client_address L E rq s = (Ok ip, s')"
  shows "ip = client_of L E rq s"
    and "\<exists>dns. s' = s\<lparr>app_dns_resolver := dns\<rparr> \<and> dns_inv dns
           \<and> host_nets (ipnet_crate L) (name_lookup E) (clock E) dns
             = host_nets (ipnet_crate L) (name_lookup E) (clock E) (app_dns_resolver s)"
proof -
  let ?p = "proxies_resolved (ipnet_crate L) (name_lookup E) (clock E)
             (config_trusted_proxies (app_config s)) (app_dns_resolver s)"
  obtain trusted dns where p: "?p = (trusted, dns)" by fastforce
  have "trusted = trusted_networks L E s"
    using proxies_resolved_nets [OF assms(1)] p by (metis fst_conv trusted_networks_def)
  then show "ip = client_of L E rq s" using assms(2) by (simp add: client_address_def p client_of_def)
  have "dns_inv dns \<and> host_nets (ipnet_crate L) (name_lookup E) (clock E) dns
      = host_nets (ipnet_crate L) (name_lookup E) (clock E) (app_dns_resolver s)"
    using dns_inv_proxies_resolved [OF assms(1)] host_nets_proxies_resolved [OF assms(1)] p
    by (metis snd_conv)
  then show "\<exists>dns. s' = s\<lparr>app_dns_resolver := dns\<rparr> \<and> dns_inv dns
      \<and> host_nets (ipnet_crate L) (name_lookup E) (clock E) dns
        = host_nets (ipnet_crate L) (name_lookup E) (clock E) (app_dns_resolver s)"
    using assms(2) by (auto simp: client_address_def p)
qed

lemma check_bound_ips_Ok:
  assumes "dns_inv (app_dns_resolver s)" and "check_bound_ips L E bound ip s = (Ok allowed, s')"
  shows "allowed = admits L E s bound ip"
  using assms
  by (auto simp: check_bound_ips_def admits_def is_allowed_nets [symmetric] split: sum.splits if_splits prod.splits)

lemma read_body_Ok: "read_body rq = Ok bytes \<Longrightarrow> rq_body rq = Some bytes \<and> length bytes \<le> MAX_SIGNED_BODY_BYTES"
  by (auto simp: read_body_def Let_def split: if_splits option.splits)

lemma verify_signature_mac: "verify_signature C secret payload provided = Ok digest \<Longrightarrow> hmac_sha256 C secret payload = Some digest"
  by (auto simp: verify_signature_def split: option.splits if_splits)

lemma recover_signing_secret_Ok:
  "recover_signing_secret C cipher key = Ok secret \<Longrightarrow>
     \<exists>stored. signing_secret key = Some stored \<and> open_secret C cipher stored = Ok secret"
  by (auto simp: recover_signing_secret_def split: option.splits sum.splits)

lemma admits_cong:
  "host_nets (ipnet_crate L) (name_lookup E) (clock E) (app_dns_resolver t)
     = host_nets (ipnet_crate L) (name_lookup E) (clock E) (app_dns_resolver s)
   \<Longrightarrow> admits L E t bound ip = admits L E s bound ip"
  by (simp add: admits_def split: sum.split)

lemma master_authenticate_Ok: "master_authenticate E row s = (Ok key, s') \<longleftrightarrow> authenticate E row s = (key, s')"
  by (auto simp: master_authenticate_def split: prod.splits)

lemma ok_or_reject: "(case r of Ok a \<Rightarrow> Ok a | Err e \<Rightarrow> Err (f e)) = Ok b \<longleftrightarrow> r = Ok b"
  by (cases r) auto

text \<open>The stages of an accepted request, with the states in between.\<close>

lemma auth_stages:
  assumes "auth_middleware L E rq s = (Ok (ip, key), s')"
  obtains presented timestamp signature row secret bytes digest s1 s2 s3 s4 where
    "client_address L E rq s = (Ok ip, s1)"
    "rq_headers rq API_KEY_HEADER = Some presented"
    "rq_headers rq TIMESTAMP_HEADER = Some timestamp"
    "rq_headers rq SIGNATURE_HEADER = Some signature"
    "validate_timestamp (wall_clock E div int nanos) timestamp (signature_max_age_seconds (app_config s1)) = Ok ()"
    "run_stmt E (query (find_key_by_hash (hex_encode (crypto_crate L) (sha256 (crypto_crate L) presented)))) s1
       = (Ok (Some row), s2)"
    "authenticate E row s2 = (key, s3)"
    "recover_signing_secret (crypto_crate L) (app_cipher s3) key = Ok secret"
    "read_body rq = Ok bytes"
    "verify_signature (crypto_crate L) secret
       (canonical_v1_payload (rq_method rq) (rq_target rq) timestamp bytes) signature = Ok digest"
    "use_signature E (key_id key) digest s3 = (Ok True, s4)"
    "check_bound_ips L E (key_bound_ips key) ip s4 = (Ok True, s')"
  using assms that unfolding auth_middleware_def
  by (clarsimp simp: ok_simps master_authenticate_Ok ok_or_reject)

lemma authenticate_frame:
  assumes "authenticate E row s = (key, s')"
  shows "key = row\<lparr>is_master := is_master key\<rparr>"
    and "is_master key \<Longrightarrow> is_master row \<and> app_master_pin s' = Some (key_id row)"
    and "\<exists>d n p. s' = s\<lparr>app_db := d, statements := n, app_master_pin := p\<rparr>"
proof -
  obtain p t where r: "resolve_pin E s = (p, t)" by fastforce
  have key: "key = row\<lparr>is_master := is_master row \<and> p = Some (key_id row)\<rparr>"
    using authenticate_fst [of E row s] assms r by simp
  have s': "s' = (if is_master row then t else s)" using authenticate_snd [of E row s] assms r by simp
  show "key = row\<lparr>is_master := is_master key\<rparr>" using key by simp
  show "is_master key \<Longrightarrow> is_master row \<and> app_master_pin s' = Some (key_id row)"
    using key s' resolve_pin_frame(1) [OF r] by simp
  have "t = s\<lparr>app_db := app_db t, statements := statements t, app_master_pin := p\<rparr>"
    by (rule resolve_pin_frame(5) [OF r])
  moreover have "s = s\<lparr>app_db := app_db s, statements := statements s, app_master_pin := app_master_pin s\<rparr>" by simp
  ultimately show "\<exists>d n p. s' = s\<lparr>app_db := d, statements := n, app_master_pin := p\<rparr>"
    unfolding s' by metis
qed

text \<open>Conversely, a request with everything an accepted request has shown is accepted, where no
  statement fails and nobody else writes.\<close>

lemma check_bound_ips_admits:
  assumes "dns_inv (app_dns_resolver s)" and "admits L E s bound ip"
  shows "\<exists>s'. check_bound_ips L E bound ip s = (Ok True, s')"
  using assms
  by (auto simp: check_bound_ips_def admits_def is_allowed_nets [symmetric] split: sum.splits prod.splits)

lemma auth_accepts:
  assumes world: "db_others E = (\<lambda>_ d. d)" "\<And>n. \<not> db_fails E n" and inv: "dns_inv (app_dns_resolver s)"
    and headers: "rq_headers rq API_KEY_HEADER = Some presented" "rq_headers rq TIMESTAMP_HEADER = Some timestamp"
      "rq_headers rq SIGNATURE_HEADER = Some signature"
    and time: "validate_timestamp (wall_clock E div int nanos) timestamp (signature_max_age_seconds (app_config s)) = Ok ()"
    and row: "find_key_by_hash (hex_encode (crypto_crate L) (sha256 (crypto_crate L) presented)) (app_db s) = Some row"
    and secret: "recover_signing_secret (crypto_crate L) (app_cipher s) row = Ok secret"
    and body: "read_body rq = Ok bytes"
    and sig: "verify_signature (crypto_crate L) secret
       (canonical_v1_payload (rq_method rq) (rq_target rq) timestamp bytes) signature = Ok digest"
    and fresh: "fst (replay_check_and_record (clock E) (key_id row) digest (app_replay_guard s))"
    and bound: "admits L E s (key_bound_ips row) (client_of L E rq s)"
  shows "\<exists>key s'. auth_middleware L E rq s = (Ok (client_of L E rq s, key), s') \<and> key = row\<lparr>is_master := is_master key\<rparr>"
proof -
  have "\<exists>ip s1. client_address L E rq s = (Ok ip, s1)" by (auto simp: client_address_def split: prod.split)
  then obtain ip s1 where 1: "client_address L E rq s = (Ok ip, s1)" by blast
  obtain dns where s1: "s1 = s\<lparr>app_dns_resolver := dns\<rparr>" and dns: "dns_inv dns"
    and nets: "host_nets (ipnet_crate L) (name_lookup E) (clock E) dns
      = host_nets (ipnet_crate L) (name_lookup E) (clock E) (app_dns_resolver s)"
    using client_address_Ok(2) [OF inv 1] by blast
  have ip: "ip = client_of L E rq s" by (rule client_address_Ok(1) [OF inv 1])
  define s2 where "s2 = s1\<lparr>statements := Suc (statements s)\<rparr>"
  have 2: "run_stmt E (query (find_key_by_hash (hex_encode (crypto_crate L) (sha256 (crypto_crate L) presented)))) s1
      = (Ok (Some row), s2)"
    using row world by (simp add: run_stmt_Ok query_def s2_def s1)
  obtain key s3 where 3: "authenticate E row s2 = (key, s3)" by fastforce
  note key = authenticate_frame(1) [OF 3]
  obtain d n p where s3: "s3 = s2\<lparr>app_db := d, statements := n, app_master_pin := p\<rparr>"
    using authenticate_frame(3) [OF 3] by blast
  have cols: "key_id key = key_id row" "signing_secret key = signing_secret row" "key_bound_ips key = key_bound_ips row"
    by (simp_all add: arg_cong [OF key, of key_id] arg_cong [OF key, of signing_secret]
        arg_cong [OF key, of key_bound_ips])
  have sec: "recover_signing_secret (crypto_crate L) (app_cipher s3) key = Ok secret"
    using secret by (simp add: recover_signing_secret_def cols s3 s2_def s1)
  obtain g where "replay_check_and_record (clock E) (key_id row) digest (app_replay_guard s) = (True, g)"
    using fresh by (cases "replay_check_and_record (clock E) (key_id row) digest (app_replay_guard s)") auto
  then obtain s4 where 4: "use_signature E (key_id key) digest s3 = (Ok True, s4)"
    and s4: "app_dns_resolver s4 = dns"
    by (simp add: use_signature_def cols s3 s2_def s1)
  have "dns_inv (app_dns_resolver s4)" by (simp add: s4 dns)
  moreover have "admits L E s4 (key_bound_ips key) ip"
    using bound admits_cong [of L E s4 s] nets by (simp add: s4 cols ip)
  ultimately obtain s5 where 5: "check_bound_ips L E (key_bound_ips key) ip s4 = (Ok True, s5)"
    using check_bound_ips_admits by blast
  have conf: "app_config s1 = app_config s" by (simp add: s1)
  have "auth_middleware L E rq s = (Ok (ip, key), s5)"
    unfolding auth_middleware_def using headers time body sig
    by (simp add: and_then_def 1 2 3 4 5 sec some_or_def gets_def lift_result_def ret_def ensure_def
        master_authenticate_def conf)
  then show ?thesis using key ip by auto
qed


definition demo_request :: request where
  "demo_request =
     \<lparr>rq_method = ''GET'', rq_target = ''/api/keys'',
      rq_headers = (\<lambda>h. if h = API_KEY_HEADER then Some ''daughter''
                        else if h = TIMESTAMP_HEADER then Some ''0''
                        else if h = SIGNATURE_HEADER
                        then compute_signature demo_crypto ''secret''
                               (canonical_v1_payload ''GET'' ''/api/keys'' ''0'' [])
                        else None),
      rq_peer = V4 7, rq_body = Some []\<rparr>"

lemma demo_request_accepted:
  "\<exists>s'. auth_middleware demo_crates calm_env demo_request (demo_app demo_db)
     = (Ok (V4 7, demo_key 2 ''daughter'' False), s')"
proof -
  have "fst (auth_middleware demo_crates calm_env demo_request (demo_app demo_db))
      = Ok (V4 7, demo_key 2 ''daughter'' False)" by code_simp
  then show ?thesis by (metis prod.collapse)
qed

lemma demo_app_inv:
  "dns_inv (app_dns_resolver (demo_app d))" "guard_inv (app_replay_guard (demo_app d))"
  by (simp_all add: demo_app_def app_state_new_def dns_inv_new guard_inv_new)


subsection \<open>The timestamp window\<close>

text \<open>
  C40: which timestamps are accepted. For a clock and a window below \<open>2 ^ 62\<close>, a parsed timestamp
  passes exactly when it is within the window of the clock in either direction, or it is the
  single value \<open>2 ^ 63\<close> seconds in the past, for which the subtraction and the absolute value
  both wrap and the difference is taken to be negative.
\<close>

theorem validate_timestamp_exact:
  assumes "0 \<le> now" and "now < 2 ^ 62" and "0 \<le> max_age" and "max_age < 2 ^ 62"
    and "parse_i64 (trim raw) = Some p"
  shows "validate_timestamp now raw max_age = Ok () \<longleftrightarrow> \<bar>now - p\<bar> \<le> max_age \<or> p = now - 2 ^ 63"
proof -
  have p: "- (2 ^ 63) \<le> p" "p \<le> 2 ^ 63 - 1"
    using parse_int_range assms(5) unfolding parse_i64_def by blast+
  have wrap: "wrap64 x = x" if "- (2 ^ 63) \<le> x" "x < 2 ^ 63" for x
    unfolding wrap64_def using that by (subst mod_pos_pos_trivial) auto
  have wrap_high: "wrap64 x = x - 2 ^ 64" if "2 ^ 63 \<le> x" "x < 2 ^ 64" for x
  proof -
    have "(x + 2 ^ 63) mod 2 ^ 64 = (x + 2 ^ 63 - 2 ^ 64) mod 2 ^ 64"
      by (rule minus_mod_self2 [symmetric])
    also have "\<dots> = x + 2 ^ 63 - 2 ^ 64" using that by (intro mod_pos_pos_trivial) auto
    finally show ?thesis by (simp add: wrap64_def)
  qed
  have "validate_timestamp now raw max_age = Ok () \<longleftrightarrow> wrap64 \<bar>wrap64 (now - p)\<bar> \<le> max_age"
    by (auto simp: validate_timestamp_def assms(5) Let_def)
  also have "\<dots> \<longleftrightarrow> \<bar>now - p\<bar> \<le> max_age \<or> p = now - 2 ^ 63"
  proof -
    consider "now - p < 2 ^ 63" | "now - p = 2 ^ 63" | "2 ^ 63 < now - p" by linarith
    then show ?thesis
    proof cases
      case 1
      then show ?thesis using p assms(1,2) wrap [of "now - p"] wrap [of "\<bar>now - p\<bar>"] by auto
    next
      case 2
      then show ?thesis using assms(3) wrap_high [of "now - p"] wrap_high [of "2 ^ 63"] by simp
    next
      case 3
      then have "wrap64 (now - p) = now - p - 2 ^ 64" using p assms(2) by (intro wrap_high) auto
      moreover have "wrap64 (2 ^ 64 - (now - p)) = 2 ^ 64 - (now - p)" using 3 p assms(2) by (intro wrap) auto
      ultimately show ?thesis using 3 p assms by (auto simp: abs_if)
    qed
  qed
  finally show ?thesis .
qed

theorem validate_timestamp_exact_witness:
  "validate_timestamp 1800000000 ''-9223372035054775808'' 300 = Ok ()
   \<and> validate_timestamp 1800000000 ''1799999700'' 300 = Ok ()
   \<and> validate_timestamp 1800000000 ''1799999699'' 300 \<noteq> Ok ()"
proof -
  have "parse_i64 (trim ''-9223372035054775808'') = Some (- 9223372035054775808)"
    "parse_i64 (trim ''1799999700'') = Some 1799999700"
    "parse_i64 (trim ''1799999699'') = Some 1799999699" by code_simp+
  then show ?thesis
    using validate_timestamp_exact [of 1800000000 300 "''-9223372035054775808''"]
      validate_timestamp_exact [of 1800000000 300 "''1799999700''"]
      validate_timestamp_exact [of 1800000000 300 "''1799999699''"] by simp
qed

subsection \<open>Single use of a signature\<close>

text \<open>What any action does to the replay guard: it runs critical sections of the guard, at the
  request's own instant.\<close>

definition guard_steps :: "instant \<Rightarrow> 'net app \<Rightarrow> 'net app \<Rightarrow> bool" where
  "guard_steps now s s' \<longleftrightarrow>
     (\<exists>secs. app_replay_guard s' = fold run_section secs (app_replay_guard s)
        \<and> (\<forall>sec \<in> set secs. section_now sec = now))"

interpretation guard: state_relation "guard_steps now" for now
proof
  fix s s' s'' :: "'a app"
  show "guard_steps now s s" unfolding guard_steps_def by (rule exI [of _ "[]"]) simp
  assume "guard_steps now s s'" "guard_steps now s' s''"
  then obtain a b where "app_replay_guard s'' = fold run_section (a @ b) (app_replay_guard s)"
    "\<forall>sec \<in> set (a @ b). section_now sec = now"
    unfolding guard_steps_def by fastforce
  then show "guard_steps now s s''" unfolding guard_steps_def by blast
qed

lemma guard_steps_same: "app_replay_guard s' = app_replay_guard s \<Longrightarrow> guard_steps now s s'"
  unfolding guard_steps_def by (rule exI [of _ "[]"]) simp

lemma replay_check_sections:
  "\<exists>secs. snd (replay_check_and_record now k digest g) = fold run_section secs g
     \<and> (\<forall>sec \<in> set secs. section_now sec = now)"
proof -
  obtain secs where "prune_if_due now g = fold run_section secs g" "\<forall>sec \<in> set secs. section_now sec = now"
    using prune_if_due_sections by blast
  then show ?thesis
    by (intro exI [of _ "secs @ [RecordSignature now \<lparr>sig_key_id = k, sig_digest = digest\<rparr>]"])
      (auto simp: replay_check_and_record_def)
qed

lemma guard_use_signature: "steps (guard_steps (clock E)) (use_signature E k digest)"
  unfolding steps_def use_signature_def guard_steps_def
proof
  fix s :: "'a app"
  show "\<exists>secs. app_replay_guard
        (snd (case replay_check_and_record (clock E) k digest (app_replay_guard s) of
                (fresh, g) \<Rightarrow> (Ok fresh, s\<lparr>app_replay_guard := g\<rparr>)))
      = fold run_section secs (app_replay_guard s) \<and> (\<forall>sec \<in> set secs. section_now sec = clock E)"
    using replay_check_sections [of "clock E" k digest "app_replay_guard s"]
    by (cases "replay_check_and_record (clock E) k digest (app_replay_guard s)") simp
qed

lemma verify_signature_digest:
  "verify_signature C k p sig = Ok d \<Longrightarrow> verify_signature C k' p' sig = Ok d' \<Longrightarrow> d = d'"
  by (auto simp: verify_signature_def split: option.splits if_splits)

text \<open>Two requests with the same signature and key, the second within the first's window.\<close>

lemma auth_single_use:
  assumes first: "auth_middleware L E rq s = (Ok (ip, key), s1)" and inv: "guard_inv (app_replay_guard s)"
    and later: "app_replay_guard t = fold run_section secs (app_replay_guard s1)"
      "\<forall>sec \<in> set secs. section_now sec < clock E + guard_window (app_replay_guard s)"
      "clock E' < clock E + guard_window (app_replay_guard s)"
    and second: "auth_middleware L E' rq' t = (Ok (ip', key'), t')"
    and same: "rq_headers rq' SIGNATURE_HEADER = rq_headers rq SIGNATURE_HEADER" "key_id key' = key_id key"
  shows False
proof -
  have use: "\<exists>C k p sig digest. rq_headers rq SIGNATURE_HEADER = Some sig \<and> C = crypto_crate L
      \<and> verify_signature C k p sig = Ok digest
      \<and> replay_check_and_record (clock E) (key_id key) digest (app_replay_guard s) = (True, app_replay_guard s')"
    if "auth_middleware L E rq s = (Ok (ip, key), s')" for E rq s ip key s'
    using that
  proof (cases rule: auth_stages)
    case (1 presented timestamp signature row secret bytes digest s1 s2 s3 s4)
    have "app_replay_guard s3 = app_replay_guard s2" using authenticate_frame(3) [OF 1(7)] by auto
    moreover have "app_replay_guard s2 = app_replay_guard s1" using 1(6) by (auto simp: run_stmt_Ok)
    moreover have "app_replay_guard s1 = app_replay_guard s"
      using 1(1) by (auto simp: client_address_def split: prod.splits)
    moreover have "app_replay_guard s' = app_replay_guard s4"
      using 1(12) by (auto simp: check_bound_ips_def split: prod.splits sum.splits if_splits)
    moreover have "replay_check_and_record (clock E) (key_id key) digest (app_replay_guard s3)
        = (True, app_replay_guard s4)"
      using 1(11) by (auto simp: use_signature_def split: prod.splits)
    ultimately show ?thesis using 1(4,10) by auto
  qed
  obtain k p sig digest where a: "rq_headers rq SIGNATURE_HEADER = Some sig"
    "verify_signature (crypto_crate L) k p sig = Ok digest"
    "replay_check_and_record (clock E) (key_id key) digest (app_replay_guard s) = (True, app_replay_guard s1)"
    using use [OF first] by blast
  obtain k' p' digest' where b: "verify_signature (crypto_crate L) k' p' sig = Ok digest'"
    "replay_check_and_record (clock E') (key_id key) digest' (app_replay_guard t) = (True, app_replay_guard t')"
    using use [OF second] a(1) same by auto
  have "digest' = digest" using verify_signature_digest [OF b(1) a(2)] .
  then have "fst (replay_check_and_record (clock E') (key_id key) digest
      (fold run_section secs (app_replay_guard s1)))" using b(2) later(1) by simp
  then show False using replay_single_use [OF inv a(3) later(2,3)] by blast
qed

end
