(* ===== verification/Api_Support.thy ===== *)
theory Api_Support
  imports Middleware
begin

text \<open>
  What the \<open>/api\<close> handlers share: the authorization guards of \<open>src/api/guards.rs\<close> and the helpers
  of \<open>src/api/support.rs\<close>, which mint and hash credentials and write the audit trail.
\<close>

subsection \<open>Guards\<close>

definition require_master :: "api_key \<Rightarrow> (unit, app_error) result" where
  "require_master caller =
     (if is_master caller then Ok () else Err (Forbidden ''Only the Master key can manage API keys''))"

definition guard_master_delete_or_rotate :: "api_key \<Rightarrow> string \<Rightarrow> (unit, app_error) result" where
  "guard_master_delete_or_rotate target operation =
     (if is_master target
      then Err (Forbidden (''The Master key cannot be '' @ operation @ '' through the API''))
      else Ok ())"

definition guard_master_update :: "api_key \<Rightarrow> bool \<Rightarrow> bool \<Rightarrow> (unit, app_error) result" where
  "guard_master_update target name_present can_manage_keys_present =
     (if is_master target \<and> (name_present \<or> can_manage_keys_present)
      then Err (Forbidden ''The Master key is immutable through the API except for its own bound_ips'')
      else Ok ())"

subsection \<open>Credentials\<close>

definition generate_random_key :: "crypto \<Rightarrow> string \<Rightarrow> string" where
  "generate_random_key C bytes = hex_encode C bytes"

definition hash_key :: "crypto \<Rightarrow> string \<Rightarrow> string" where
  "hash_key C key = hex_encode C (sha256 C key)"

text \<open>Sealing a fresh signing secret; a failure is logged and answered as an internal error.\<close>

definition seal_secret :: "'net crates \<Rightarrow> request_env \<Rightarrow> string \<Rightarrow> (string, 'net) action" where
  "seal_secret L E secret =
     and_then (gets app_cipher) (\<lambda>cipher.
       lift_result (case seal (crypto_crate L) (nonce_bytes E) cipher secret of
                      Ok sealed \<Rightarrow> Ok sealed | Err _ \<Rightarrow> Err Internal))"

subsection \<open>Audit trail\<close>

definition describe_resource :: "'net crates \<Rightarrow> string \<Rightarrow> uuid \<Rightarrow> string \<Rightarrow> string" where
  "describe_resource L kind i name = kind @ '':'' @ uuid_to_string L i @ '' ('' @ name @ '')''"

definition audit_entry ::
    "request_env \<Rightarrow> api_key \<Rightarrow> ipaddr \<Rightarrow> string \<Rightarrow> string option \<Rightarrow> string option \<Rightarrow> audit_log" where
  "audit_entry E key client_ip action target details =
     \<lparr>log_id = audit_id E, log_api_key_id = Some (key_id key), log_api_key_name = key_name key,
      log_api_key_prefix = key_prefix key, log_client_ip = show_ip client_ip, log_action = action,
      target_resource = target, log_details = details, log_timestamp = audit_clock E\<rparr>"

definition create_audit_log ::
    "request_env \<Rightarrow> api_key \<Rightarrow> ipaddr \<Rightarrow> string \<Rightarrow> string option \<Rightarrow> string option \<Rightarrow> (unit, 'net) action" where
  "create_audit_log E key client_ip action target details =
     run_stmt E (insert_audit_log (audit_entry E key client_ip action target details))"

text \<open>The same, inside a transaction.\<close>

definition create_audit_log_txn ::
    "request_env \<Rightarrow> api_key \<Rightarrow> ipaddr \<Rightarrow> string \<Rightarrow> string option \<Rightarrow> string option \<Rightarrow> (unit, 'net) action" where
  "create_audit_log_txn E key client_ip action target details =
     txn_stmt E (insert_audit_log (audit_entry E key client_ip action target details))"

definition changed_details :: "string list \<Rightarrow> string" where
  "changed_details changed =
     ''changed: '' @ (if changed = [] then ''(none)'' else join '', '' changed)"

subsection \<open>Fields of a payload\<close>

text \<open>\<open>{entry:?}\<close>: quoted, with backslash escapes; bytes above ASCII are left as they are.\<close>

definition debug_char :: "char \<Rightarrow> string" where
  "debug_char c =
     (if c = CHR 0x22 then [CHR 0x5C, CHR 0x22]
      else if c = CHR 0x5C then [CHR 0x5C, CHR 0x5C]
      else if c = CHR 0x09 then [CHR 0x5C, CHR ''t'']
      else if c = CHR 0x0D then [CHR 0x5C, CHR ''r'']
      else if c = CHR 0x0A then [CHR 0x5C, CHR ''n'']
      else if c = CHR 0x00 then [CHR 0x5C, CHR ''0'']
      else if byte c < 32 \<or> byte c = 127
      then [CHR 0x5C, CHR ''u'', CHR 0x7B] @ hex_digits (byte c) @ [CHR 0x7D]
      else [c])"

definition debug_str :: "string \<Rightarrow> string" where
  "debug_str s = [CHR 0x22] @ concat (map debug_char s) @ [CHR 0x22]"

definition check_name :: "string \<Rightarrow> (unit, 'net) action" where
  "check_name name = ensure (trim name \<noteq> []) (InvalidInput ''name must not be empty'')"

definition bound_ips_input :: "'net crates \<Rightarrow> string \<Rightarrow> (unit, app_error) result" where
  "bound_ips_input L raw =
     (case validate_bound_ips (ipnet_crate L) raw of
        Ok _ \<Rightarrow> Ok ()
      | Err (entry, reason) \<Rightarrow>
          Err (InvalidInput (''Invalid entry in bound_ips: '' @ debug_str entry
            @ '' is not a CIDR range, IP address, or valid hostname ('' @ reason @ '')'')))"

text \<open>The binding of a creation payload: an empty one is dropped, any other must parse.\<close>

definition created_bound_ips :: "'net crates \<Rightarrow> string option \<Rightarrow> (string option, app_error) result" where
  "created_bound_ips L raw =
     (case raw of
        None \<Rightarrow> Ok None
      | Some s \<Rightarrow>
          if trim s = [] then Ok None
          else case bound_ips_input L s of Ok _ \<Rightarrow> Ok (Some s) | Err e \<Rightarrow> Err e)"

text \<open>The binding of an update payload: trimmed, and cleared when empty.\<close>

definition updated_bound_ips :: "'net crates \<Rightarrow> string \<Rightarrow> (string option, app_error) result" where
  "updated_bound_ips L raw =
     (let trimmed = trim raw
      in if trimmed = [] then Ok None
         else case bound_ips_input L trimmed of Ok _ \<Rightarrow> Ok (Some trimmed) | Err e \<Rightarrow> Err e)"

subsection \<open>Stored bindings always parse\<close>

definition bound_ips_ok :: "'net crates \<Rightarrow> string option \<Rightarrow> bool" where
  "bound_ips_ok L bound = (case bound of None \<Rightarrow> True | Some raw \<Rightarrow> is_ok (parse_bound_ips (ipnet_crate L) raw))"

lemma bound_ips_input_Ok: "bound_ips_input L raw = Ok u \<Longrightarrow> bound_ips_ok L (Some raw)"
  by (auto simp: bound_ips_input_def validate_bound_ips_def bound_ips_ok_def split: sum.splits)

lemma created_bound_ips_Ok: "created_bound_ips L raw = Ok bound \<Longrightarrow> bound_ips_ok L bound"
  by (auto simp: created_bound_ips_def bound_ips_ok_def [of L None] split: option.splits sum.splits if_splits
      dest: bound_ips_input_Ok)

lemma updated_bound_ips_Ok: "updated_bound_ips L raw = Ok bound \<Longrightarrow> bound_ips_ok L bound"
  by (auto simp: updated_bound_ips_def Let_def bound_ips_ok_def [of L None] split: sum.splits if_splits
      dest: bound_ips_input_Ok)

end
