(* ===== verification/Api_Keys.thy ===== *)
theory Api_Keys
  imports Api_Support
begin

text \<open>
  The key handlers of \<open>src/api/keys.rs\<close>: create, list, update, delete, and the two rotations. Each
  is the whole handler after its extractors; a response is the record the handler serializes.
\<close>

record key_response =
  kr_id :: uuid
  kr_name :: string
  kr_prefix :: string
  kr_bound_ips :: "string option"
  kr_is_master :: bool
  kr_can_manage_keys :: bool
  kr_parent_key_id :: "uuid option"
  kr_owner_key_id :: "uuid option"
  kr_created_at :: datetime
  kr_updated_at :: datetime

definition key_response_from :: "api_key \<Rightarrow> key_response" where
  "key_response_from m =
     \<lparr>kr_id = key_id m, kr_name = key_name m, kr_prefix = key_prefix m, kr_bound_ips = key_bound_ips m,
      kr_is_master = is_master m, kr_can_manage_keys = can_manage_keys m,
      kr_parent_key_id = parent_key_id m, kr_owner_key_id = key_owner_key_id m,
      kr_created_at = key_created_at m, kr_updated_at = key_updated_at m\<rparr>"

record minted_key_response =
  mk_key :: key_response
  mk_api_key :: string
  mk_signing_secret :: string

record create_key_payload =
  ck_name :: string
  ck_bound_ips :: "string option"
  ck_can_manage_keys :: bool

definition create_api_key ::
    "'net crates \<Rightarrow> request_env \<Rightarrow> api_key \<Rightarrow> ipaddr \<Rightarrow> create_key_payload \<Rightarrow> (minted_key_response, 'net) action" where
  "create_api_key L E caller client_ip payload =
     and_then (lift_result (require_master caller)) (\<lambda>_.
     and_then (check_name (ck_name payload)) (\<lambda>_.
     and_then (lift_result (created_bound_ips L (ck_bound_ips payload))) (\<lambda>bound.
     let plaintext_key = generate_random_key (crypto_crate L) (key_bytes E);
         secret = generate_signing_secret (crypto_crate L) (secret_bytes E)
     in
     and_then (seal_secret L E secret) (\<lambda>sealed.
     and_then (run_stmt E (insert_key
       \<lparr>key_id = fresh_id E, key_name = ck_name payload, key_prefix = take 8 plaintext_key,
        key_hash = hash_key (crypto_crate L) plaintext_key, signing_secret = Some sealed,
        key_bound_ips = bound, is_master = False, can_manage_keys = ck_can_manage_keys payload,
        parent_key_id = Some (key_id caller), key_owner_key_id = Some (key_id caller),
        key_created_at = wall_clock E, key_updated_at = wall_clock E\<rparr>)) (\<lambda>created.
     and_then (create_audit_log E caller client_ip ''KEY_CREATE''
       (Some (describe_resource L ''api_key'' (key_id created) (key_name created)))
       (Some (''can_manage_keys='' @ (if can_manage_keys created then ''true'' else ''false'')))) (\<lambda>_.
     ret \<lparr>mk_key = key_response_from created, mk_api_key = plaintext_key, mk_signing_secret = secret\<rparr>))))))"

definition list_api_keys :: "request_env \<Rightarrow> api_key \<Rightarrow> (key_response list, 'net) action" where
  "list_api_keys E caller =
     and_then (lift_result (require_master caller)) (\<lambda>_.
     and_then (run_stmt E (query api_keys)) (\<lambda>ks.
     ret (map key_response_from ks)))"

text \<open>\<open>ApiKey::find_by_id(id).one(&state.db).await?.ok_or(AppError::NotFound)?\<close>.\<close>

definition existing_key :: "request_env \<Rightarrow> uuid \<Rightarrow> (api_key, 'net) action" where
  "existing_key E i = and_then (run_stmt E (query (find_key i))) (\<lambda>found. some_or found NotFound)"

record update_key_payload =
  uk_name :: "string option"
  uk_bound_ips :: "string option"
  uk_can_manage_keys :: "bool option"

text \<open>The columns an update sets, on the row as it is when the statement runs.\<close>

definition key_columns ::
    "update_key_payload \<Rightarrow> string option option \<Rightarrow> datetime \<Rightarrow> api_key \<Rightarrow> api_key" where
  "key_columns payload bound now r =
     r\<lparr>key_name := (case uk_name payload of Some n \<Rightarrow> n | None \<Rightarrow> key_name r),
       key_bound_ips := (case bound of Some b \<Rightarrow> b | None \<Rightarrow> key_bound_ips r),
       can_manage_keys := (case uk_can_manage_keys payload of Some c \<Rightarrow> c | None \<Rightarrow> can_manage_keys r),
       key_updated_at := now\<rparr>"

definition key_changes :: "update_key_payload \<Rightarrow> string list" where
  "key_changes payload =
     (if uk_name payload = None then [] else [''name''])
     @ (if uk_bound_ips payload = None then [] else [''bound_ips''])
     @ (if uk_can_manage_keys payload = None then [] else [''can_manage_keys''])"

definition update_api_key ::
    "'net crates \<Rightarrow> request_env \<Rightarrow> api_key \<Rightarrow> ipaddr \<Rightarrow> uuid \<Rightarrow> update_key_payload \<Rightarrow> (key_response, 'net) action" where
  "update_api_key L E caller client_ip i payload =
     and_then (lift_result (require_master caller)) (\<lambda>_.
     and_then (existing_key E i) (\<lambda>existing.
     and_then (lift_result (guard_master_update existing
       (uk_name payload \<noteq> None) (uk_can_manage_keys payload \<noteq> None))) (\<lambda>_.
     and_then (case uk_name payload of None \<Rightarrow> ret () | Some n \<Rightarrow> check_name n) (\<lambda>_.
     and_then (case uk_bound_ips payload of
                 None \<Rightarrow> ret None
               | Some raw \<Rightarrow> and_then (lift_result (updated_bound_ips L raw)) (\<lambda>b. ret (Some b))) (\<lambda>bound.
     and_then (run_stmt E (update_key i (key_columns payload bound (wall_clock E)))) (\<lambda>updated.
     and_then (create_audit_log E caller client_ip ''KEY_UPDATE''
       (Some (describe_resource L ''api_key'' (key_id updated) (key_name updated)))
       (Some (changed_details (key_changes payload)))) (\<lambda>_.
     ret (key_response_from updated))))))))"

definition owned_inventory :: "'net crates \<Rightarrow> endpoint list \<Rightarrow> json" where
  "owned_inventory L es =
     JObj [(''owned_endpoints'',
       JArr (map (\<lambda>e. JObj [(''id'', JStr (uuid_to_string L (ep_id e))), (''name'', JStr (ep_name e))]) es))]"

text \<open>The body of the transaction in \<open>delete_api_key\<close>.\<close>

definition delete_key_txn ::
    "'net crates \<Rightarrow> request_env \<Rightarrow> api_key \<Rightarrow> ipaddr \<Rightarrow> uuid \<Rightarrow> uuid option \<Rightarrow> string \<Rightarrow> (unit, 'net) action" where
  "delete_key_txn L E caller client_ip i reassign_to described =
     and_then (txn_stmt E (query (owned_by i))) (\<lambda>owned.
     and_then (case reassign_to of
         Some target_id \<Rightarrow>
           and_then (txn_stmt E (query (find_key target_id))) (\<lambda>found.
           and_then (some_or found (InvalidInput ''reassign_to does not name an existing key'')) (\<lambda>target.
           ret (Some target)))
       | None \<Rightarrow>
           and_then (ensure (owned = [])
             (ConflictWithDetails
               (''this key still owns '' @ nat_digits (length owned)
                 @ '' endpoint(s); reassign or delete them first, or retry with ?reassign_to=<key id>'')
               (owned_inventory L owned))) (\<lambda>_.
           ret None)) (\<lambda>reassign_target.
     and_then (case reassign_target of
         Some target \<Rightarrow> txn_stmt E (reassign_owned i (key_id target) (wall_clock E))
       | None \<Rightarrow> ret ()) (\<lambda>_.
     and_then (txn_stmt E (delete_key_by_id i)) (\<lambda>rows_affected.
     and_then (ensure (rows_affected \<noteq> 0) NotFound) (\<lambda>_.
     create_audit_log_txn E caller client_ip ''KEY_DELETE'' (Some described)
       (case reassign_target of
          Some target \<Rightarrow>
            Some (''reassigned '' @ nat_digits (length owned) @ '' endpoint(s) to '' @ key_name target
              @ '' ('' @ uuid_to_string L (key_id target) @ ''); key deleted'')
        | None \<Rightarrow> None))))))"

definition delete_api_key ::
    "'net crates \<Rightarrow> request_env \<Rightarrow> api_key \<Rightarrow> ipaddr \<Rightarrow> uuid \<Rightarrow> uuid option \<Rightarrow> (unit, 'net) action" where
  "delete_api_key L E caller client_ip i reassign_to =
     and_then (lift_result (require_master caller)) (\<lambda>_.
     and_then (existing_key E i) (\<lambda>existing.
     and_then (lift_result (guard_master_delete_or_rotate existing ''deleted'')) (\<lambda>_.
     and_then (ensure (reassign_to \<noteq> Some i)
       (InvalidInput ''reassign_to cannot name the key being deleted'')) (\<lambda>_.
     transaction E (delete_key_txn L E caller client_ip i reassign_to
       (describe_resource L ''api_key'' (key_id existing) (key_name existing)))))))"

definition rotate_api_key ::
    "'net crates \<Rightarrow> request_env \<Rightarrow> api_key \<Rightarrow> ipaddr \<Rightarrow> uuid \<Rightarrow> (minted_key_response, 'net) action" where
  "rotate_api_key L E caller client_ip i =
     and_then (lift_result (require_master caller)) (\<lambda>_.
     and_then (existing_key E i) (\<lambda>existing.
     and_then (lift_result (guard_master_delete_or_rotate existing ''rotated'')) (\<lambda>_.
     let plaintext_key = generate_random_key (crypto_crate L) (key_bytes E);
         secret = generate_signing_secret (crypto_crate L) (secret_bytes E)
     in
     and_then (seal_secret L E secret) (\<lambda>sealed.
     and_then (run_stmt E (update_key i (\<lambda>r. r\<lparr>key_hash := hash_key (crypto_crate L) plaintext_key,
         key_prefix := take 8 plaintext_key, signing_secret := Some sealed,
         key_updated_at := wall_clock E\<rparr>))) (\<lambda>updated.
     and_then (create_audit_log E caller client_ip ''KEY_ROTATE''
       (Some (describe_resource L ''api_key'' (key_id updated) (key_name updated)))
       (Some ''credentials rotated'')) (\<lambda>_.
     ret \<lparr>mk_key = key_response_from updated, mk_api_key = plaintext_key, mk_signing_secret = secret\<rparr>))))))"

record rotate_signing_secret_response =
  rs_id :: uuid
  rs_name :: string
  rs_signing_secret :: string

definition rotate_signing_secret ::
    "'net crates \<Rightarrow> request_env \<Rightarrow> api_key \<Rightarrow> ipaddr \<Rightarrow> uuid
       \<Rightarrow> (rotate_signing_secret_response, 'net) action" where
  "rotate_signing_secret L E caller client_ip i =
     and_then (lift_result (require_master caller)) (\<lambda>_.
     and_then (existing_key E i) (\<lambda>existing.
     and_then (lift_result (guard_master_delete_or_rotate existing ''rotated'')) (\<lambda>_.
     let secret = generate_signing_secret (crypto_crate L) (secret_bytes E)
     in
     and_then (seal_secret L E secret) (\<lambda>sealed.
     and_then (run_stmt E (update_key i
       (\<lambda>r. r\<lparr>signing_secret := Some sealed, key_updated_at := wall_clock E\<rparr>))) (\<lambda>updated.
     and_then (create_audit_log E caller client_ip ''KEY_SECRET_ROTATE''
       (Some (describe_resource L ''api_key'' (key_id updated) (key_name updated)))
       (Some ''signing secret rotated'')) (\<lambda>_.
     ret \<lparr>rs_id = key_id updated, rs_name = key_name existing, rs_signing_secret = secret\<rparr>))))))"

end
