(* ===== verification/Api_Endpoints.thy ===== *)
theory Api_Endpoints
  imports Api_Keys
begin

text \<open>
  The endpoint handlers of \<open>src/api/endpoints.rs\<close>, and the grants of \<open>src/api/groups.rs\<close> that
  decide which Vault groups a caller may name.
\<close>

definition generate_token_secret :: "crypto \<Rightarrow> string \<Rightarrow> string" where
  "generate_token_secret C bytes = hex_encode C bytes"

definition may_manage :: "api_key \<Rightarrow> endpoint \<Rightarrow> bool" where
  "may_manage caller ep \<longleftrightarrow> is_master caller \<or> owner_key_id ep = Some (key_id caller)"

text \<open>A response is every column of the row, and the path of its feed.\<close>

record endpoint_response =
  er_endpoint :: endpoint
  er_feed_path :: string

definition endpoint_response_from :: "endpoint \<Rightarrow> endpoint_response" where
  "endpoint_response_from m =
     \<lparr>er_endpoint = m, er_feed_path = ''/feed/v1/'' @ token_secret m @ ''/list.txt''\<rparr>"

record create_endpoint_payload =
  ce_name :: string
  ce_description :: "string option"
  ce_vault_groups :: string
  ce_ttl_seconds :: "int option"
  ce_max_age_seconds :: "int option"
  ce_bound_ips :: "string option"
  ce_filter_rfc1918 :: bool
  ce_filter_bogons :: bool
  ce_filter_loopback :: bool

definition validate_groups :: "string \<Rightarrow> (unit, app_error) result" where
  "validate_groups raw =
     (if list_all (\<lambda>g. trim g = []) (split_on (CHR '','') raw)
      then Err (InvalidInput ''vault_groups must name at least one group'')
      else Ok ())"

definition validate_max_age :: "int \<Rightarrow> (unit, app_error) result" where
  "validate_max_age n =
     (if n < 0
      then Err (InvalidInput ''max_age_seconds must be zero (unlimited) or a positive number of seconds'')
      else Ok ())"

definition granted_group_names :: "request_env \<Rightarrow> uuid \<Rightarrow> (string list, 'net) action" where
  "granted_group_names E k =
     and_then (run_stmt E (query (permissions_of k))) (\<lambda>grants. ret (map vault_group_name grants))"

text \<open>The dash of the message is the character U+2014, as its UTF-8 bytes.\<close>

definition validate_group_access :: "request_env \<Rightarrow> api_key \<Rightarrow> string \<Rightarrow> (unit, 'net) action" where
  "validate_group_access E caller groups =
     (if is_master caller then ret ()
      else
        and_then (granted_group_names E (key_id caller)) (\<lambda>granted.
        let ungranted = filter (\<lambda>g. g \<notin> set granted) (comma_entries groups)
        in ensure (ungranted = [])
             (Forbidden (''You do not have read access to Vault group(s): '' @ join '', '' ungranted
               @ [CHR '' '', CHR 0xE2, CHR 0x80, CHR 0x94]
               @ '' ask the Master to grant it via POST /api/keys/{id}/groups''))))"

definition check_ttl :: "int \<Rightarrow> (unit, 'net) action" where
  "check_ttl n = ensure (0 < n) (InvalidInput ''ttl_seconds must be positive'')"

definition create_endpoint ::
    "'net crates \<Rightarrow> request_env \<Rightarrow> api_key \<Rightarrow> ipaddr \<Rightarrow> create_endpoint_payload
       \<Rightarrow> (endpoint_response, 'net) action" where
  "create_endpoint L E caller client_ip payload =
     and_then (check_name (ce_name payload)) (\<lambda>_.
     and_then (lift_result (validate_groups (ce_vault_groups payload))) (\<lambda>_.
     and_then (validate_group_access E caller (ce_vault_groups payload)) (\<lambda>_.
     and_then (lift_result (created_bound_ips L (ce_bound_ips payload))) (\<lambda>bound.
     let ttl = (case ce_ttl_seconds payload of Some n \<Rightarrow> n | None \<Rightarrow> 3600);
         max_age = (case ce_max_age_seconds payload of Some n \<Rightarrow> n | None \<Rightarrow> 0)
     in
     and_then (check_ttl ttl) (\<lambda>_.
     and_then (lift_result (validate_max_age max_age)) (\<lambda>_.
     and_then (run_stmt E (insert_endpoint
       \<lparr>ep_id = fresh_id E, owner_key_id = Some (key_id caller), ep_name = ce_name payload,
        description = ce_description payload,
        token_secret = generate_token_secret (crypto_crate L) (token_bytes E),
        vault_groups = ce_vault_groups payload, ttl_seconds = ttl, max_age_seconds = max_age,
        ep_bound_ips = bound, filter_rfc1918 = ce_filter_rfc1918 payload,
        filter_bogons = ce_filter_bogons payload, filter_loopback = ce_filter_loopback payload,
        ep_last_synced_at = None, ep_created_at = wall_clock E, ep_updated_at = wall_clock E\<rparr>)) (\<lambda>created.
     and_then (create_audit_log E caller client_ip ''ENDPOINT_CREATE''
       (Some (describe_resource L ''endpoint'' (ep_id created) (ep_name created)))
       (Some (''vault_groups='' @ vault_groups created))) (\<lambda>_.
     ret (endpoint_response_from created)))))))))"

definition list_endpoints :: "request_env \<Rightarrow> api_key \<Rightarrow> (endpoint_response list, 'net) action" where
  "list_endpoints E caller =
     and_then (if is_master caller then run_stmt E (query endpoints)
               else run_stmt E (query (owned_by (key_id caller)))) (\<lambda>rows.
     ret (map endpoint_response_from rows))"

record update_endpoint_payload =
  ue_name :: "string option"
  ue_description :: "string option"
  ue_vault_groups :: "string option"
  ue_ttl_seconds :: "int option"
  ue_max_age_seconds :: "int option"
  ue_bound_ips :: "string option"
  ue_filter_rfc1918 :: "bool option"
  ue_filter_bogons :: "bool option"
  ue_filter_loopback :: "bool option"

definition endpoint_columns ::
    "update_endpoint_payload \<Rightarrow> string option option \<Rightarrow> datetime \<Rightarrow> endpoint \<Rightarrow> endpoint" where
  "endpoint_columns payload bound now r =
     r\<lparr>ep_name := (case ue_name payload of Some n \<Rightarrow> n | None \<Rightarrow> ep_name r),
       description := (case ue_description payload of
                         Some d \<Rightarrow> (if trim d = [] then None else Some d) | None \<Rightarrow> description r),
       vault_groups := (case ue_vault_groups payload of Some g \<Rightarrow> g | None \<Rightarrow> vault_groups r),
       ttl_seconds := (case ue_ttl_seconds payload of Some n \<Rightarrow> n | None \<Rightarrow> ttl_seconds r),
       max_age_seconds := (case ue_max_age_seconds payload of Some n \<Rightarrow> n | None \<Rightarrow> max_age_seconds r),
       ep_bound_ips := (case bound of Some b \<Rightarrow> b | None \<Rightarrow> ep_bound_ips r),
       filter_rfc1918 := (case ue_filter_rfc1918 payload of Some v \<Rightarrow> v | None \<Rightarrow> filter_rfc1918 r),
       filter_bogons := (case ue_filter_bogons payload of Some v \<Rightarrow> v | None \<Rightarrow> filter_bogons r),
       filter_loopback := (case ue_filter_loopback payload of Some v \<Rightarrow> v | None \<Rightarrow> filter_loopback r),
       ep_updated_at := now\<rparr>"

definition endpoint_changes :: "update_endpoint_payload \<Rightarrow> string list" where
  "endpoint_changes payload =
     (if ue_name payload = None then [] else [''name''])
     @ (if ue_description payload = None then [] else [''description''])
     @ (if ue_vault_groups payload = None then [] else [''vault_groups''])
     @ (if ue_ttl_seconds payload = None then [] else [''ttl_seconds''])
     @ (if ue_max_age_seconds payload = None then [] else [''max_age_seconds''])
     @ (if ue_bound_ips payload = None then [] else [''bound_ips''])
     @ (if ue_filter_rfc1918 payload = None then [] else [''filter_rfc1918''])
     @ (if ue_filter_bogons payload = None then [] else [''filter_bogons''])
     @ (if ue_filter_loopback payload = None then [] else [''filter_loopback''])"

text \<open>\<open>find_by_id\<close>, \<open>ok_or(NotFound)\<close> and the ownership check.\<close>

definition managed_endpoint :: "request_env \<Rightarrow> api_key \<Rightarrow> uuid \<Rightarrow> (endpoint, 'net) action" where
  "managed_endpoint E caller i =
     and_then (run_stmt E (query (find_endpoint i))) (\<lambda>found.
     and_then (some_or found NotFound) (\<lambda>existing.
     and_then (ensure (may_manage caller existing)
       (Forbidden ''You do not have management rights over this endpoint'')) (\<lambda>_.
     ret existing)))"

definition update_endpoint ::
    "'net crates \<Rightarrow> request_env \<Rightarrow> api_key \<Rightarrow> ipaddr \<Rightarrow> uuid \<Rightarrow> update_endpoint_payload
       \<Rightarrow> (endpoint_response, 'net) action" where
  "update_endpoint L E caller client_ip i payload =
     and_then (managed_endpoint E caller i) (\<lambda>existing.
     and_then (case ue_name payload of None \<Rightarrow> ret () | Some n \<Rightarrow> check_name n) (\<lambda>_.
     and_then (case ue_vault_groups payload of
                 None \<Rightarrow> ret ()
               | Some g \<Rightarrow> and_then (lift_result (validate_groups g)) (\<lambda>_. validate_group_access E caller g)) (\<lambda>_.
     and_then (case ue_ttl_seconds payload of None \<Rightarrow> ret () | Some n \<Rightarrow> check_ttl n) (\<lambda>_.
     and_then (case ue_max_age_seconds payload of
                 None \<Rightarrow> ret () | Some n \<Rightarrow> lift_result (validate_max_age n)) (\<lambda>_.
     and_then (case ue_bound_ips payload of
                 None \<Rightarrow> ret None
               | Some raw \<Rightarrow> and_then (lift_result (updated_bound_ips L raw)) (\<lambda>b. ret (Some b))) (\<lambda>bound.
     and_then (run_stmt E (update_endpoint_row i (endpoint_columns payload bound (wall_clock E)))) (\<lambda>updated.
     and_then (create_audit_log E caller client_ip ''ENDPOINT_UPDATE''
       (Some (describe_resource L ''endpoint'' (ep_id updated) (ep_name updated)))
       (Some (changed_details (endpoint_changes payload)))) (\<lambda>_.
     ret (endpoint_response_from updated)))))))))"

definition evict_endpoint :: "uuid \<Rightarrow> (unit, 'net) action" where
  "evict_endpoint i s = (Ok (), s\<lparr>app_ip_cache := evict i (app_ip_cache s)\<rparr>)"

definition delete_endpoint ::
    "'net crates \<Rightarrow> request_env \<Rightarrow> api_key \<Rightarrow> ipaddr \<Rightarrow> uuid \<Rightarrow> (unit, 'net) action" where
  "delete_endpoint L E caller client_ip i =
     and_then (managed_endpoint E caller i) (\<lambda>existing.
     and_then (run_stmt E (delete_endpoint_by_id i)) (\<lambda>rows_affected.
     and_then (ensure (rows_affected \<noteq> 0) NotFound) (\<lambda>_.
     and_then (evict_endpoint i) (\<lambda>_.
     create_audit_log E caller client_ip ''ENDPOINT_DELETE''
       (Some (describe_resource L ''endpoint'' (ep_id existing) (ep_name existing))) None))))"

definition reassign_endpoint_owner ::
    "'net crates \<Rightarrow> request_env \<Rightarrow> api_key \<Rightarrow> ipaddr \<Rightarrow> uuid \<Rightarrow> uuid option
       \<Rightarrow> (endpoint_response, 'net) action" where
  "reassign_endpoint_owner L E caller client_ip i new_owner =
     and_then (ensure (is_master caller)
       (Forbidden ''Only the Master key can reassign endpoint ownership'')) (\<lambda>_.
     and_then (run_stmt E (query (find_endpoint i))) (\<lambda>found.
     and_then (some_or found NotFound) (\<lambda>existing.
     and_then (case new_owner of
         None \<Rightarrow> ret ()
       | Some k \<Rightarrow>
           and_then (run_stmt E (query (find_key k))) (\<lambda>key.
           ensure (key \<noteq> None) (InvalidInput ''owner_key_id does not name an existing key''))) (\<lambda>_.
     and_then (run_stmt E (update_endpoint_row i
       (\<lambda>r. r\<lparr>owner_key_id := new_owner, ep_updated_at := wall_clock E\<rparr>))) (\<lambda>updated.
     and_then (create_audit_log E caller client_ip ''ENDPOINT_OWNER_REASSIGN''
       (Some (describe_resource L ''endpoint'' (ep_id updated) (ep_name updated)))
       (Some (''owner_key_id -> ''
         @ (case new_owner of None \<Rightarrow> ''(none)'' | Some k \<Rightarrow> uuid_to_string L k)))) (\<lambda>_.
     ret (endpoint_response_from updated)))))))"

end
