(* ===== verification/Api_Groups.thy ===== *)
theory Api_Groups
  imports Api_Endpoints
begin

text \<open>
  Vault groups and grants, \<open>src/api/groups.rs\<close>; the audit listing, \<open>src/api/audit.rs\<close>; the caller's
  identity, \<open>src/api/auth.rs\<close>; and the probes, \<open>src/api/health.rs\<close>.
\<close>

subsection \<open>Vault groups\<close>

definition call_list_groups ::
    "'net crates \<Rightarrow> request_env \<Rightarrow> 'net app \<Rightarrow> (vault_group list, vault_error) result option \<times> 'net app" where
  "call_list_groups L E s =
     (case app_vault_client s of
        None \<Rightarrow> (None, s)
      | Some v \<Rightarrow>
          (case list_groups (vault_world E) (crypto_crate L) v of
             (r, v') \<Rightarrow> (Some r, s\<lparr>app_vault_client := Some v'\<rparr>)))"

text \<open>The match on the listing both handlers have: a 403 of the Vault is an empty list.\<close>

definition vault_groups_or_error :: "'net crates \<Rightarrow> request_env \<Rightarrow> (vault_group list, 'net) action" where
  "vault_groups_or_error L E s =
     (case call_list_groups L E s of
        (None, s') \<Rightarrow> (Err VaultNotConfigured, s')
      | (Some (Ok groups), s') \<Rightarrow> (Ok groups, s')
      | (Some (Err e), s') \<Rightarrow> (if e = Status 403 then Ok [] else Err VaultUnreachable, s'))"

definition list_vault_groups ::
    "'net crates \<Rightarrow> request_env \<Rightarrow> api_key \<Rightarrow> ((uuid \<times> string) list, 'net) action" where
  "list_vault_groups L E caller =
     and_then (lift_result (require_master caller)) (\<lambda>_.
     and_then (vault_groups_or_error L E) (\<lambda>groups.
     ret (map (\<lambda>g. (group_id g, group_name g)) groups)))"

text \<open>A grant is returned with all its columns.\<close>

definition list_key_groups ::
    "request_env \<Rightarrow> api_key \<Rightarrow> uuid \<Rightarrow> (vault_group_permission list, 'net) action" where
  "list_key_groups E caller i =
     and_then (ensure (is_master caller \<or> key_id caller = i)
       (Forbidden ''You may only view your own group grants'')) (\<lambda>_.
     run_stmt E (query (permissions_of i)))"

definition grant_of :: "uuid \<Rightarrow> uuid \<Rightarrow> database \<Rightarrow> vault_group_permission option" where
  "grant_of k g d = find (\<lambda>p. perm_api_key_id p = k \<and> vault_group_id p = g) (permissions d)"

definition grant_key_group ::
    "'net crates \<Rightarrow> request_env \<Rightarrow> api_key \<Rightarrow> ipaddr \<Rightarrow> uuid \<Rightarrow> uuid
       \<Rightarrow> (vault_group_permission, 'net) action" where
  "grant_key_group L E caller client_ip i wanted =
     and_then (lift_result (require_master caller)) (\<lambda>_.
     and_then (existing_key E i) (\<lambda>target.
     and_then (vault_groups_or_error L E) (\<lambda>groups.
     and_then (some_or (find (\<lambda>g. group_id g = wanted) groups) (InvalidInput ''No such Vault group'')) (\<lambda>grp.
     and_then (run_stmt E (query (grant_of i (group_id grp)))) (\<lambda>found.
     case found of
       Some existing \<Rightarrow> ret existing
     | None \<Rightarrow>
         and_then (run_stmt E (insert_permission
           \<lparr>perm_id = fresh_id E, perm_api_key_id = i, vault_group_id = group_id grp,
            vault_group_name = group_name grp, perm_created_at = wall_clock E\<rparr>)) (\<lambda>created.
         and_then (create_audit_log E caller client_ip ''KEY_GROUP_GRANT''
           (Some (describe_resource L ''api_key'' (key_id target) (key_name target)))
           (Some (''granted read on Vault group '' @ group_name grp
             @ '' ('' @ uuid_to_string L (group_id grp) @ '')''))) (\<lambda>_.
         ret created)))))))"

definition revoke_key_group ::
    "'net crates \<Rightarrow> request_env \<Rightarrow> api_key \<Rightarrow> ipaddr \<Rightarrow> uuid \<Rightarrow> uuid \<Rightarrow> (unit, 'net) action" where
  "revoke_key_group L E caller client_ip i permission =
     and_then (lift_result (require_master caller)) (\<lambda>_.
     and_then (existing_key E i) (\<lambda>target.
     and_then (run_stmt E (query (find_permission permission))) (\<lambda>found.
     and_then (some_or found NotFound) (\<lambda>grant.
     and_then (ensure (perm_api_key_id grant = i) NotFound) (\<lambda>_.
     and_then (run_stmt E (delete_permissions [permission])) (\<lambda>_.
     create_audit_log E caller client_ip ''KEY_GROUP_REVOKE''
       (Some (describe_resource L ''api_key'' (key_id target) (key_name target)))
       (Some (''revoked read on Vault group '' @ vault_group_name grant
         @ '' ('' @ uuid_to_string L (vault_group_id grant) @ '')''))))))))"

subsection \<open>Audit trail, identity and probes\<close>

record audit_log_query =
  aq_action :: "string option"
  aq_limit :: "nat option"
  aq_offset :: "nat option"

text \<open>\<open>order_by_desc(Timestamp)\<close>: sorted by timestamp, latest first; ties in table order.\<close>

definition audit_matching :: "string option \<Rightarrow> database \<Rightarrow> audit_log list" where
  "audit_matching action d =
     (let rows = sort_key (\<lambda>l. - log_timestamp l) (audit_logs d)
      in case action of
           Some a \<Rightarrow> if a = [] then rows else filter (\<lambda>l. log_action l = a) rows
         | None \<Rightarrow> rows)"

definition audit_page :: "audit_log_query \<Rightarrow> database \<Rightarrow> audit_log list" where
  "audit_page q d =
     (let limit = min (case aq_limit q of Some n \<Rightarrow> n | None \<Rightarrow> 50) 500;
          offset = (case aq_offset q of Some n \<Rightarrow> n | None \<Rightarrow> 0)
      in take limit (drop offset (audit_matching (aq_action q) d)))"

definition list_audit_logs :: "request_env \<Rightarrow> api_key \<Rightarrow> audit_log_query \<Rightarrow> (audit_log list, 'net) action" where
  "list_audit_logs E caller q =
     and_then (ensure (is_master caller) (Forbidden ''Only the Master key can view audit logs'')) (\<lambda>_.
     run_stmt E (query (audit_page q)))"

record me_response =
  me_id :: uuid
  me_name :: string
  me_prefix :: string
  me_is_master :: bool
  me_can_manage_keys :: bool
  me_bound_ips :: "string option"

definition get_me :: "api_key \<Rightarrow> me_response" where
  "get_me key =
     \<lparr>me_id = key_id key, me_name = key_name key, me_prefix = key_prefix key, me_is_master = is_master key,
      me_can_manage_keys = can_manage_keys key, me_bound_ips = key_bound_ips key\<rparr>"

definition health_check :: response where
  "health_check = \<lparr>status = 200, body = JObj [(''status'', JStr ''ok''), (''service'', JStr ''simply_ip_exporter'')]\<rparr>"

definition readiness_check :: "request_env \<Rightarrow> 'net app \<Rightarrow> response \<times> 'net app" where
  "readiness_check E s =
     (case exec E (query (\<lambda>d. length (api_keys d))) s of
        (r, s') \<Rightarrow>
          let db_ok = is_ok r; master_pinned = app_master_pin s' \<noteq> None
          in (if db_ok \<and> master_pinned then \<lparr>status = 200, body = JObj [(''status'', JStr ''ready'')]\<rparr>
              else \<lparr>status = 503, body = JObj [(''status'', JStr ''not_ready''),
                     (''database'', JBool db_ok), (''master_pinned'', JBool master_pinned)]\<rparr>,
              s'))"

subsection \<open>Properties\<close>

text \<open>
  A page of the audit trail is at most 500 entries, 50 by default, of entries that exist, have
  the requested action and are ordered latest first.
\<close>

lemma audit_page_bounded:
  "length (audit_page q d) \<le> 500
   \<and> set (audit_page q d) \<subseteq> set (audit_logs d)
   \<and> sorted_wrt (\<lambda>a b. log_timestamp b \<le> log_timestamp a) (audit_page q d)"
proof -
  have "sorted_wrt (\<lambda>a b. log_timestamp b \<le> log_timestamp a) (sort_key (\<lambda>l. - log_timestamp l) (audit_logs d))"
    using sorted_sort_key [of "\<lambda>l. - log_timestamp l" "audit_logs d"] by (simp add: sorted_wrt_map)
  then have "sorted_wrt (\<lambda>a b. log_timestamp b \<le> log_timestamp a) (audit_matching (aq_action q) d)"
    by (auto simp: audit_matching_def Let_def sorted_wrt_filter split: option.splits)
  moreover have "set (audit_matching (aq_action q) d) \<subseteq> set (audit_logs d)"
    by (auto simp: audit_matching_def Let_def split: option.splits)
  ultimately show ?thesis
    unfolding audit_page_def Let_def
    by (auto simp: sorted_wrt_take sorted_wrt_drop dest!: in_set_takeD in_set_dropD)
qed

end
