(* ===== verification/Group_Cleanup.thy ===== *)
theory Group_Cleanup
  imports Api_Groups
begin

text \<open>The hygiene of the group grants, \<open>src/groups.rs\<close>: one pass of the monthly worker.\<close>

definition CLEANUP_INTERVAL :: duration where "CLEANUP_INTERVAL = 30 * 24 * 60 * 60 * nanos"

definition stale_grants :: "vault_group list \<Rightarrow> vault_group_permission list \<Rightarrow> uuid list" where
  "stale_grants live grants =
     map perm_id (filter (\<lambda>g. vault_group_id g \<notin> set (map group_id live)) grants)"

definition cleanup_stale_group_permissions :: "'net crates \<Rightarrow> request_env \<Rightarrow> 'net app \<Rightarrow> 'net app" where
  "cleanup_stale_group_permissions L E s =
     (case call_list_groups L E s of
        (Some (Ok live), s1) \<Rightarrow>
          (case exec E (query permissions) s1 of
             (Err _, s2) \<Rightarrow> s2
           | (Ok grants, s2) \<Rightarrow>
               let stale = stale_grants live grants
               in if stale = [] then s2 else snd (exec E (delete_permissions stale) s2))
      | (_, s1) \<Rightarrow> s1)"

fun cleanup_worker :: "'net crates \<Rightarrow> (nat \<Rightarrow> request_env) \<Rightarrow> nat \<Rightarrow> 'net app \<Rightarrow> 'net app" where
  "cleanup_worker L Es 0 s = s"
| "cleanup_worker L Es (Suc n) s =
     cleanup_worker L (\<lambda>i. Es (Suc i)) n (cleanup_stale_group_permissions L (Es 0) s)"

subsection \<open>What a pass removes\<close>

definition live_grants :: "vault_group list \<Rightarrow> vault_group_permission list \<Rightarrow> vault_group_permission list" where
  "live_grants live grants = filter (\<lambda>g. vault_group_id g \<in> group_id ` set live) grants"

lemma not_stale:
  assumes "distinct (map perm_id grants)"
  shows "filter (\<lambda>g. perm_id g \<notin> set (stale_grants live grants)) grants = live_grants live grants"
  unfolding live_grants_def
proof (rule filter_cong [OF HOL.refl])
  fix g assume "g \<in> set grants"
  then show "perm_id g \<notin> set (stale_grants live grants) \<longleftrightarrow> vault_group_id g \<in> group_id ` set live"
    using inj_on_image_mem_iff [of perm_id "set grants" g "{h \<in> set grants. vault_group_id h \<notin> group_id ` set live}"]
      assms by (auto simp: stale_grants_def distinct_map)
qed

lemma permissions_filter_valid: "db_valid d \<Longrightarrow> db_valid (d\<lparr>permissions := filter P (permissions d)\<rparr>)"
  by (auto simp: db_valid_def api_keys_valid_def masters_def endpoints_valid_def permissions_valid_def
      audit_logs_valid_def nullable_fk_def key_exists_def list_all_iff distinct_map_filter cong: option.case_cong)

text \<open>
  C17: The cleanup removes exactly the orphans, and nothing when in doubt. When the Vault answered
  with its groups, a pass leaves exactly the grants whose group still exists, or, if a statement
  failed, all of them; when the Vault did not answer, was not configured or refused, no grant is
  touched. It never changes a key, an endpoint or the audit trail.
\<close>

theorem cleanup_exact:
  assumes alone: "db_others E = (\<lambda>_ d. d)" and valid: "db_valid (app_db s)"
  shows "app_db (cleanup_stale_group_permissions L E s) =
    (case fst (call_list_groups L E s) of
       Some (Ok live) \<Rightarrow>
         if db_fails E (statements s) \<or> db_fails E (Suc (statements s))
            \<and> stale_grants live (permissions (app_db s)) \<noteq> []
         then app_db s
         else (app_db s)\<lparr>permissions := live_grants live (permissions (app_db s))\<rparr>
     | _ \<Rightarrow> app_db s)"
proof -
  obtain g s1 where c: "call_list_groups L E s = (g, s1)" by fastforce
  have s1: "app_db s1 = app_db s" "statements s1 = statements s"
    using c by (auto simp: call_list_groups_def split: option.splits prod.splits)
  let ?d = "app_db s"
  have ids: "distinct (map perm_id (permissions ?d))" using valid by (simp add: db_valid_def permissions_valid_def)
  show ?thesis
  proof (cases "\<exists>live. g = Some (Ok live)")
    case True
    then obtain live where g: "g = Some (Ok live)" by blast
    note gone = not_stale [OF ids, of live]
    have "live_grants live (permissions ?d) = permissions ?d" if "stale_grants live (permissions ?d) = []"
      using gone that by simp
    then show ?thesis
      using permissions_filter_valid [OF valid, of "\<lambda>g. vault_group_id g \<in> group_id ` set live"] gone
      by (auto simp: live_grants_def [symmetric] cleanup_stale_group_permissions_def c g s1 alone exec_unfold query_def Let_def
          delete_permissions_def enforce_def)
  next
    case False
    then show ?thesis
      by (auto simp: cleanup_stale_group_permissions_def c s1 split: option.split sum.split)
  qed
qed

definition demo_grant_app :: "cidr app" where
  "demo_grant_app = (demo_app (demo_db\<lparr>permissions :=
     [\<lparr>perm_id = 1, perm_api_key_id = 2, vault_group_id = 9, vault_group_name = ''gone'', perm_created_at = 0\<rparr>]\<rparr>))
     \<lparr>app_vault_client := Some demo_client\<rparr>"

theorem cleanup_exact_witness:
  "permissions (app_db (cleanup_stale_group_permissions demo_crates calm_env demo_grant_app)) = []"
proof -
  have "fst (call_list_groups demo_crates calm_env demo_grant_app) = Some (Ok [])" by code_simp
  moreover have "db_valid (app_db demo_grant_app)"
    using demo_db_valid
    by (simp add: demo_grant_app_def demo_app_def app_state_new_def db_valid_def api_keys_valid_def masters_def
        endpoints_valid_def permissions_valid_def audit_logs_valid_def nullable_fk_def key_exists_def demo_db_def
        demo_key_def migrated_def)
  ultimately show ?thesis
    using cleanup_exact [of calm_env demo_grant_app demo_crates] by (simp add: calm_env_def live_grants_def)
qed

end
