(* ===== verification/Feed.thy ===== *)
theory Feed
  imports Middleware
begin

text \<open>
  The public feed, \<open>src/feed.rs\<close>. A reply is one of the four outcomes of the handler that are not
  an application error; \<open>FeedPanic\<close> is the panic of the date arithmetic of the retention window,
  which drops the connection.
\<close>

datatype feed_reply =
    FeedPanic
  | NotModified string
  | RetryAfter string
  | FeedBody string string

text \<open>The check of the endpoint's own binding.\<close>

definition feed_admits ::
    "'net crates \<Rightarrow> request_env \<Rightarrow> string option \<Rightarrow> ipaddr \<Rightarrow> (unit, 'net) action" where
  "feed_admits L E bound client_ip =
     (case bound of
        None \<Rightarrow> ret ()
      | Some raw \<Rightarrow>
          if trim raw = [] then ret ()
          else
            (case parse_bound_ips (ipnet_crate L) raw of
               Err _ \<Rightarrow> fail Internal
             | Ok entries \<Rightarrow>
                 and_then (\<lambda>s. case is_allowed (ipnet_crate L) (name_lookup E) (clock E) entries client_ip
                                      (app_dns_resolver s) of
                                 (allowed, dns) \<Rightarrow> (Ok allowed, s\<lparr>app_dns_resolver := dns\<rparr>)) (\<lambda>allowed.
                 ensure allowed (Forbidden ''Client IP not allowed for this endpoint''))))"

definition render_feed :: "'net ipnet \<Rightarrow> 'net list \<Rightarrow> string" where
  "render_feed I aggregated =
     (let lines = sort (map (net_to_string I) aggregated)
      in if lines = [] then [] else join [newline] lines @ [newline])"

definition feed_etag :: "crypto \<Rightarrow> string \<Rightarrow> string" where
  "feed_etag C feed = [CHR 0x22] @ hex_encode C (sha256 C feed) @ [CHR 0x22]"

text \<open>What the endpoint publishes now: the window of its cache, filtered and aggregated; \<open>None\<close>
  when the cutoff cannot be computed.\<close>

definition feed_networks :: "'net crates \<Rightarrow> request_env \<Rightarrow> endpoint \<Rightarrow> 'net ip_cache \<Rightarrow> 'net list option" where
  "feed_networks L E ep c =
     map_option
       (\<lambda>raw. filter_and_aggregate (ipnet_crate L) raw (filter_rfc1918 ep) (filter_bogons ep) (filter_loopback ep))
       (snapshot_within (sub_seconds L) (ep_id ep) (max_age_seconds ep) (wall_clock E) c)"

text \<open>The conditional answer, then the throttle, then the body.\<close>

definition answer_feed ::
    "'net crates \<Rightarrow> request_env \<Rightarrow> request \<Rightarrow> ipaddr \<Rightarrow> string \<Rightarrow> (feed_reply, 'net) action" where
  "answer_feed L E rq client_ip feed s =
     (let etag = feed_etag (crypto_crate L) feed
      in if (case rq_headers rq ''If-None-Match'' of Some inm \<Rightarrow> trim inm = etag | None \<Rightarrow> False)
         then (Ok (NotModified etag), s)
         else case rate_check_and_record (clock E) client_ip (app_rate_limiter s) of
                (Err remaining, lim') \<Rightarrow>
                  (Ok (RetryAfter (nat_digits (remaining div nanos))), s\<lparr>app_rate_limiter := lim'\<rparr>)
              | (Ok _, lim') \<Rightarrow> (Ok (FeedBody etag feed), s\<lparr>app_rate_limiter := lim'\<rparr>))"

definition serve_feed ::
    "'net crates \<Rightarrow> request_env \<Rightarrow> string \<Rightarrow> request \<Rightarrow> (feed_reply, 'net) action" where
  "serve_feed L E token rq =
     and_then (client_address L E rq) (\<lambda>client_ip.
     and_then (run_stmt E (query (find_endpoint_by_token token))) (\<lambda>found.
     and_then (some_or found NotFound) (\<lambda>ep.
     and_then (feed_admits L E (ep_bound_ips ep) client_ip) (\<lambda>_.
     and_then (gets app_ip_cache) (\<lambda>c.
     case feed_networks L E ep c of
       None \<Rightarrow> ret FeedPanic
     | Some aggregated \<Rightarrow> answer_feed L E rq client_ip (render_feed (ipnet_crate L) aggregated))))))"

subsection \<open>What a fetch of the feed shows\<close>

text \<open>The endpoint's binding, as a condition on the client.\<close>

definition feed_allows :: "'net crates \<Rightarrow> request_env \<Rightarrow> 'net app \<Rightarrow> string option \<Rightarrow> ipaddr \<Rightarrow> bool" where
  "feed_allows L E s bound ip \<longleftrightarrow>
     (case bound of
        None \<Rightarrow> True
      | Some raw \<Rightarrow>
          trim raw = []
          \<or> (case parse_bound_ips (ipnet_crate L) raw of
               Err _ \<Rightarrow> False
             | Ok entries \<Rightarrow>
                 covers (ipnet_crate L)
                   (concat (map (entry_nets (host_nets (ipnet_crate L) (name_lookup E) (clock E) (app_dns_resolver s)))
                      entries)) ip))"

lemma feed_admits_Ok:
  assumes "dns_inv (app_dns_resolver s)" and "feed_admits L E bound ip s = (Ok u, s')"
  shows "feed_allows L E s bound ip" and "\<exists>dns. s' = s\<lparr>app_dns_resolver := dns\<rparr>"
proof -
  show "feed_allows L E s bound ip"
    using assms(2)
    by (auto simp: feed_admits_def feed_allows_def is_allowed_nets [OF assms(1), symmetric] ok_simps
        split: option.splits if_splits sum.splits prod.splits)
  show "\<exists>dns. s' = s\<lparr>app_dns_resolver := dns\<rparr>"
    using assms(2)
    by (cases bound)
      (auto simp: feed_admits_def ok_simps split: if_splits sum.splits prod.splits intro: exI [of _ "app_dns_resolver s"])
qed

text \<open>The networks of an endpoint's cache that its feed shows: seen within the endpoint's window and
  sharing no address with a block list the endpoint filters.\<close>

definition shown :: "'net crates \<Rightarrow> request_env \<Rightarrow> endpoint \<Rightarrow> 'net ip_cache \<Rightarrow> 'net set" where
  "shown L E ep c =
     {network r | a r. map_of (records (entry_or_default (ep_id ep) c)) a = Some r
        \<and> (max_age_seconds ep \<le> 0 \<or> wall_clock E - max_age_seconds ep * int nanos \<le> cached_last_seen_at r)
        \<and> (filter_rfc1918 ep \<longrightarrow> \<not> overlaps_any (ipnet_crate L) (network r) (RFC1918 (ipnet_crate L)))
        \<and> (filter_bogons ep \<longrightarrow> \<not> overlaps_any (ipnet_crate L) (network r) (BOGONS (ipnet_crate L)))
        \<and> (filter_loopback ep \<longrightarrow> \<not> overlaps_any (ipnet_crate L) (network r) (LOOPBACK (ipnet_crate L)))}"

lemma feed_networks_shown:
  assumes "ipnet_laws (ipnet_crate L)" and "cache_wf (ipnet_crate L) c"
    and sub: "\<And>t n cut. sub_seconds L t n = Some cut \<Longrightarrow> cut = t - n * int nanos"
    and "feed_networks L E ep c = Some ns"
  shows "covers (ipnet_crate L) ns a \<longleftrightarrow> (\<exists>n \<in> shown L E ep c. net_contains (ipnet_crate L) n a)"
proof -
  obtain raw where raw: "snapshot_within (sub_seconds L) (ep_id ep) (max_age_seconds ep) (wall_clock E) c = Some raw"
    and ns: "ns = filter_and_aggregate (ipnet_crate L) raw (filter_rfc1918 ep) (filter_bogons ep) (filter_loopback ep)"
    using assms(4) by (auto simp: feed_networks_def)
  have cut: "sub_seconds L (wall_clock E) (max_age_seconds ep) = Some (wall_clock E - max_age_seconds ep * int nanos)"
    if "0 < max_age_seconds ep" "map_of (records (entry_or_default (ep_id ep) c)) x = Some r" for x r
    using raw that sub
    by (auto simp: snapshot_within_def entry_or_default_def endpoint_cache_default_def split: option.splits)
  have in_raw: "n \<in> set raw \<longleftrightarrow> (\<exists>x r. map_of (records (entry_or_default (ep_id ep) c)) x = Some r \<and> network r = n
      \<and> (max_age_seconds ep \<le> 0 \<or> wall_clock E - max_age_seconds ep * int nanos \<le> cached_last_seen_at r))" for n
    unfolding snapshot_within_set [OF assms(2) raw] using cut by (cases "max_age_seconds ep \<le> 0") fastforce+
  let ?clear = "\<lambda>n. (filter_rfc1918 ep \<longrightarrow> \<not> overlaps_any (ipnet_crate L) n (RFC1918 (ipnet_crate L)))
      \<and> (filter_bogons ep \<longrightarrow> \<not> overlaps_any (ipnet_crate L) n (BOGONS (ipnet_crate L)))
      \<and> (filter_loopback ep \<longrightarrow> \<not> overlaps_any (ipnet_crate L) n (LOOPBACK (ipnet_crate L)))"
  have "n \<in> shown L E ep c \<longleftrightarrow> n \<in> set raw \<and> ?clear n" for n
    unfolding shown_def in_raw by auto
  then show ?thesis
    unfolding ns ipnet_laws.covers_filter_and_aggregate [OF assms(1)] by blast
qed

text \<open>An answered fetch, short of a panic: the endpoint, the client's admission and the answer.\<close>

lemma feed_stages:
  assumes dns: "dns_inv (app_dns_resolver s)" and feed: "serve_feed L E token rq s = (Ok r, s')" and "r \<noteq> FeedPanic"
  obtains ep nets s3 where "find_endpoint_by_token token (db_others E (statements s) (app_db s)) = Some ep"
    "feed_allows L E s (ep_bound_ips ep) (client_of L E rq s)"
    "feed_networks L E ep (app_ip_cache s) = Some nets"
    "answer_feed L E rq (client_of L E rq s) (render_feed (ipnet_crate L) nets) s3 = (Ok r, s')"
    "app_ip_cache s3 = app_ip_cache s" "app_rate_limiter s3 = app_rate_limiter s"
proof -
  obtain ip s1 ep s2 s3 nets where 1: "client_address L E rq s = (Ok ip, s1)"
    "run_stmt E (query (find_endpoint_by_token token)) s1 = (Ok (Some ep), s2)"
    "feed_admits L E (ep_bound_ips ep) ip s2 = (Ok (), s3)"
    "feed_networks L E ep (app_ip_cache s3) = Some nets"
    "answer_feed L E rq ip (render_feed (ipnet_crate L) nets) s3 = (Ok r, s')"
    using feed assms(3) by (auto simp: serve_feed_def ok_simps split: option.splits)
  note ip = client_address_Ok(1) [OF dns 1(1)]
  obtain d where s1: "s1 = s\<lparr>app_dns_resolver := d\<rparr>" "dns_inv d"
    "host_nets (ipnet_crate L) (name_lookup E) (clock E) d
       = host_nets (ipnet_crate L) (name_lookup E) (clock E) (app_dns_resolver s)"
    using client_address_Ok(2) [OF dns 1(1)] by blast
  have s2: "s2 = s1\<lparr>app_db := app_db s2, statements := statements s2\<rparr>"
    "find_endpoint_by_token token (db_others E (statements s) (app_db s)) = Some ep"
    using 1(2) by (auto simp: run_stmt_Ok query_def s1(1))
  have dns2: "app_dns_resolver s2 = d" by (subst s2(1)) (simp add: s1(1))
  have allow: "feed_allows L E s (ep_bound_ips ep) ip"
    using feed_admits_Ok(1) [OF _ 1(3), unfolded dns2, OF s1(2)] unfolding feed_allows_def dns2 s1(3) .
  obtain d3 where s3: "s3 = s2\<lparr>app_dns_resolver := d3\<rparr>" using feed_admits_Ok(2) [OF _ 1(3)] s1(2) dns2 by auto
  have keep: "app_ip_cache s3 = app_ip_cache s" "app_rate_limiter s3 = app_rate_limiter s"
    unfolding s3 by (subst s2(1), simp add: s1(1))+
  show thesis using that [OF s2(2) allow [unfolded ip] 1(4,5) [unfolded ip keep] keep] .
qed

text \<open>
  C7: What a fetch that is answered with a body has shown. The token names a stored endpoint; the client,
  as resolved through the trusted proxies, is allowed by its binding; the limiter had no unexpired
  entry for the client; the body is the sorted rendering of a list of networks that covers exactly
  the addresses of the records in the endpoint's cache that are within its window and clear of the
  block lists it filters; the tag is the digest of that body; and the cache is untouched.
\<close>

theorem feed_publishes_exactly:
  assumes "ipnet_laws (ipnet_crate L)" and "cache_wf (ipnet_crate L) (app_ip_cache s)"
    and sub: "\<And>t n cut. sub_seconds L t n = Some cut \<Longrightarrow> cut = t - n * int nanos"
    and dns: "dns_inv (app_dns_resolver s)"
    and feed: "serve_feed L E token rq s = (Ok (FeedBody etag feed), s')"
  shows "\<exists>ep nets. find_endpoint_by_token token (db_others E (statements s) (app_db s)) = Some ep
    \<and> feed_allows L E s (ep_bound_ips ep) (client_of L E rq s)
    \<and> rate_check_and_record (clock E) (client_of L E rq s) (app_rate_limiter s) = (Ok (), app_rate_limiter s')
    \<and> feed = render_feed (ipnet_crate L) nets \<and> etag = feed_etag (crypto_crate L) feed
    \<and> (\<forall>a. covers (ipnet_crate L) nets a \<longleftrightarrow>
           (\<exists>n \<in> shown L E ep (app_ip_cache s). net_contains (ipnet_crate L) n a))
    \<and> app_ip_cache s' = app_ip_cache s"
  using feed_stages [OF dns feed feed_reply.distinct(6)]
proof cases
  case (1 ep nets s3)
  have "feed = render_feed (ipnet_crate L) nets" "etag = feed_etag (crypto_crate L) feed"
    "rate_check_and_record (clock E) (client_of L E rq s) (app_rate_limiter s) = (Ok (), app_rate_limiter s')"
    "app_ip_cache s' = app_ip_cache s"
    using 1(4-6) by (auto simp: answer_feed_def Let_def split: prod.splits sum.splits if_splits)
  with 1(1,2) feed_networks_shown [OF assms(1,2) sub 1(3)] show ?thesis by blast
qed

definition demo_feed_app :: "cidr app" where
  "demo_feed_app = (demo_app (demo_db\<lparr>endpoints := [demo_endpoint]\<rparr>))\<lparr>app_ip_cache := one_record_cache\<rparr>"

definition demo_fetch :: "(feed_reply, app_error) result \<times> cidr app" where
  "demo_fetch = serve_feed demo_crates calm_env ''token'' demo_request demo_feed_app"

lemma demo_fetch_body:
  "\<exists>etag. demo_fetch = (Ok (FeedBody etag (''8.8.8.8/32'' @ [newline])), snd demo_fetch)"
proof -
  have "case fst demo_fetch of
      Ok (FeedBody etag feed) \<Rightarrow> feed = ''8.8.8.8/32'' @ [newline] | _ \<Rightarrow> False"
    by code_simp
  then obtain etag where "fst demo_fetch = Ok (FeedBody etag (''8.8.8.8/32'' @ [newline]))"
    by (auto split: sum.splits feed_reply.splits)
  then show ?thesis by (metis prod.collapse)
qed

lemma demo_feed_app_wf:
  "cache_wf cidr_ipnet (app_ip_cache demo_feed_app)" "dns_inv (app_dns_resolver demo_feed_app)"
proof -
  have "parse_target_address cidr_ipnet ''8.8.8.8'' = Some (Cidr (V4 0x08080808) 32)" by code_simp
  then show "cache_wf cidr_ipnet (app_ip_cache demo_feed_app)"
    by (simp add: demo_feed_app_def one_record_cache_def cache_wf_def records_wf_def)
  show "dns_inv (app_dns_resolver demo_feed_app)"
    using demo_app_inv(1) by (simp add: demo_feed_app_def)
qed

theorem feed_publishes_exactly_witness:
  "\<exists>nets. ''8.8.8.8/32'' @ [newline] = render_feed cidr_ipnet nets
     \<and> app_ip_cache (snd demo_fetch) = app_ip_cache demo_feed_app"
proof -
  obtain etag where x: "serve_feed demo_crates calm_env ''token'' demo_request demo_feed_app
      = (Ok (FeedBody etag (''8.8.8.8/32'' @ [newline])), snd demo_fetch)"
    using demo_fetch_body unfolding demo_fetch_def by blast
  have I: "ipnet_crate demo_crates = cidr_ipnet" by (simp add: demo_crates_def)
  have sub: "sub_seconds demo_crates t n = Some cut \<Longrightarrow> cut = t - n * int nanos" for t n cut
    by (simp add: demo_crates_def)
  show ?thesis
    using feed_publishes_exactly [of demo_crates, unfolded I,
        OF cidr.ipnet_laws_axioms demo_feed_app_wf(1) sub demo_feed_app_wf(2) x]
    by blast
qed

text \<open>
  C31: A conditional fetch costs nothing and reveals nothing more. It is answered as not modified only
  when the presented tag is the tag of the body the endpoint would serve now, only for a client the
  endpoint's binding allows, and it leaves the limiter as it was.
\<close>

theorem feed_not_modified_free:
  assumes dns: "dns_inv (app_dns_resolver s)"
    and feed: "serve_feed L E token rq s = (Ok (NotModified etag), s')"
  shows "\<exists>ep nets inm. find_endpoint_by_token token (db_others E (statements s) (app_db s)) = Some ep
    \<and> feed_allows L E s (ep_bound_ips ep) (client_of L E rq s)
    \<and> feed_networks L E ep (app_ip_cache s) = Some nets
    \<and> rq_headers rq ''If-None-Match'' = Some inm \<and> trim inm = etag
    \<and> etag = feed_etag (crypto_crate L) (render_feed (ipnet_crate L) nets)
    \<and> app_rate_limiter s' = app_rate_limiter s \<and> app_ip_cache s' = app_ip_cache s"
  using feed_stages [OF dns feed feed_reply.distinct(2)]
proof cases
  case (1 ep nets s3)
  then show ?thesis
    by (auto simp: answer_feed_def Let_def split: option.splits prod.splits sum.splits if_splits)
qed

definition demo_conditional :: request where
  "demo_conditional = demo_request\<lparr>rq_headers := (\<lambda>h. if h = ''If-None-Match''
     then Some (feed_etag demo_crypto (''8.8.8.8/32'' @ [newline])) else None)\<rparr>"

theorem feed_not_modified_free_witness:
  "app_rate_limiter (snd (serve_feed demo_crates calm_env ''token'' demo_conditional demo_feed_app))
     = app_rate_limiter demo_feed_app"
proof -
  let ?x = "serve_feed demo_crates calm_env ''token'' demo_conditional demo_feed_app"
  have "case fst ?x of Ok (NotModified etag) \<Rightarrow> True | _ \<Rightarrow> False" by code_simp
  then obtain etag where "fst ?x = Ok (NotModified etag)" by (auto split: sum.splits feed_reply.splits)
  then have "?x = (Ok (NotModified etag), snd ?x)" by (metis prod.collapse)
  from feed_not_modified_free [OF demo_feed_app_wf(2) this] show ?thesis by blast
qed

end
