(* ===== verification/Sync.thy ===== *)
theory Sync
  imports App_State
begin

text \<open>
  The synchronisation of the caches with the Vault, \<open>src/sync.rs\<close>. A pass over the endpoints takes
  one environment per endpoint, so that clocks, failures and interference vary along it.
\<close>

definition FULL_SYNC_INTERVAL :: duration where "FULL_SYNC_INTERVAL = 24 * 3600 * nanos"
definition TICK_INTERVAL :: duration where "TICK_INTERVAL = 15 * nanos"
definition BOOT_SYNC_BUDGET :: duration where "BOOT_SYNC_BUDGET = 30 * nanos"

definition map_records :: "vault_api_record list \<Rightarrow> vault_record list" where
  "map_records =
     map (\<lambda>r. \<lparr>target_address = api_target_address r, last_seen_at = api_last_seen_at r,
               is_deleted = api_is_deleted r\<rparr>)"

text \<open>A failure to persist is logged and ignored.\<close>

definition mark_synced :: "request_env \<Rightarrow> endpoint \<Rightarrow> 'net app \<Rightarrow> 'net app" where
  "mark_synced E ep s =
     snd (exec E (update_endpoint_row (ep_id ep) (\<lambda>r. r\<lparr>ep_last_synced_at := Some (audit_clock E)\<rparr>)) s)"

text \<open>
  What one endpoint's turn fetches: everything when a full sync is due, what changed since the
  row's own cursor when its time to live has passed, and otherwise nothing.
\<close>

datatype sync_plan = FullSync | DiffSync "datetime option" | NotDue

definition sync_plan_of :: "request_env \<Rightarrow> endpoint \<Rightarrow> 'net app \<Rightarrow> sync_plan" where
  "sync_plan_of E ep s =
     (if full_sync_due (clock E) (ep_id ep) FULL_SYNC_INTERVAL (app_ip_cache s) then FullSync
      else if (case ep_last_synced_at ep of
                 None \<Rightarrow> True
               | Some prev \<Rightarrow> max (ttl_seconds ep) 1 * int nanos \<le> wall_clock E - prev)
      then DiffSync (ep_last_synced_at ep)
      else NotDue)"

definition fetch_since ::
    "'net crates \<Rightarrow> request_env \<Rightarrow> vault_client \<Rightarrow> endpoint \<Rightarrow> datetime option \<Rightarrow> 'net app
       \<Rightarrow> (vault_api_record list, vault_error) result \<times> 'net app" where
  "fetch_since L E v ep since s =
     (case fetch_ips (vault_world E) (crypto_crate L) (vault_pick E) (vault_groups ep) since v of
        (r, v') \<Rightarrow> (r, s\<lparr>app_vault_client := Some v'\<rparr>))"

text \<open>Fetching and applying; the flag says whether the cache was updated.\<close>

definition sync_fetch_apply ::
    "'net crates \<Rightarrow> request_env \<Rightarrow> vault_client \<Rightarrow> endpoint \<Rightarrow> 'net app \<Rightarrow> bool \<times> 'net app" where
  "sync_fetch_apply L E v ep s =
     (case sync_plan_of E ep s of
        NotDue \<Rightarrow> (False, s)
      | FullSync \<Rightarrow>
          (case fetch_since L E v ep None s of
             (Ok recs, s') \<Rightarrow>
               (True, s'\<lparr>app_ip_cache :=
                  apply_full (ipnet_crate L) (clock E) (ep_id ep) (map_records recs) (app_ip_cache s')\<rparr>)
           | (Err _, s') \<Rightarrow> (False, s'))
      | DiffSync since \<Rightarrow>
          (case fetch_since L E v ep since s of
             (Ok recs, s') \<Rightarrow>
               (True, s'\<lparr>app_ip_cache :=
                  apply_diff (ipnet_crate L) (ep_id ep) (map_records recs) (app_ip_cache s')\<rparr>)
           | (Err _, s') \<Rightarrow> (False, s')))"

definition sync_endpoint :: "'net crates \<Rightarrow> request_env \<Rightarrow> endpoint \<Rightarrow> 'net app \<Rightarrow> 'net app" where
  "sync_endpoint L E ep s =
     (case app_vault_client s of
        None \<Rightarrow> s
      | Some v \<Rightarrow>
          (case sync_fetch_apply L E v ep s of
             (True, s') \<Rightarrow> mark_synced E ep s'
           | (False, s') \<Rightarrow> s'))"

fun sync_rows :: "'net crates \<Rightarrow> (nat \<Rightarrow> request_env) \<Rightarrow> nat \<Rightarrow> endpoint list \<Rightarrow> 'net app \<Rightarrow> 'net app" where
  "sync_rows L Es n [] s = s"
| "sync_rows L Es n (ep # eps) s = sync_rows L Es (Suc n) eps (sync_endpoint L (Es n) ep s)"

definition listed_endpoints :: "request_env \<Rightarrow> 'net app \<Rightarrow> endpoint list \<times> 'net app" where
  "listed_endpoints E s =
     (case exec E (query endpoints) s of
        (Ok rows, s') \<Rightarrow> (rows, s')
      | (Err _, s') \<Rightarrow> ([], s'))"

definition sync_all_endpoints :: "'net crates \<Rightarrow> (nat \<Rightarrow> request_env) \<Rightarrow> 'net app \<Rightarrow> 'net app" where
  "sync_all_endpoints L Es s =
     (if app_vault_client s = None then s
      else case listed_endpoints (Es 0) s of (rows, s') \<Rightarrow> sync_rows L Es 1 rows s')"

text \<open>
  The pass before the listener opens, under a time budget. When the budget runs out the pass is
  dropped where it waits: after some number of endpoints, and possibly after the next one was
  applied to the cache and before its cursor was persisted.
\<close>

datatype budget = InTime | CutAfter nat bool

definition run_boot_sync :: "'net crates \<Rightarrow> (nat \<Rightarrow> request_env) \<Rightarrow> budget \<Rightarrow> 'net app \<Rightarrow> 'net app" where
  "run_boot_sync L Es b s =
     (if app_vault_client s = None then s
      else case b of
             InTime \<Rightarrow> sync_all_endpoints L Es s
           | CutAfter n applied \<Rightarrow>
               (case listed_endpoints (Es 0) s of
                  (rows, s') \<Rightarrow>
                    let s'' = sync_rows L Es 1 (take n rows) s'
                    in case (drop n rows, app_vault_client s'', applied) of
                         (ep # _, Some v, True) \<Rightarrow> snd (sync_fetch_apply L (Es (Suc n)) v ep s'')
                       | _ \<Rightarrow> s''))"

text \<open>The worker: a pass, a sleep, and again; \<open>n\<close> rounds of it.\<close>

fun sync_worker :: "'net crates \<Rightarrow> (nat \<Rightarrow> nat \<Rightarrow> request_env) \<Rightarrow> nat \<Rightarrow> 'net app \<Rightarrow> 'net app" where
  "sync_worker L Ess 0 s = s"
| "sync_worker L Ess (Suc n) s = sync_worker L (\<lambda>i. Ess (Suc i)) n (sync_all_endpoints L (Ess 0) s)"

subsection \<open>One endpoint's turn\<close>

text \<open>
  A Vault that answers a fetch with a given dataset, in one of the dialects it may speak, for a
  client that can sign and a dataset below the page limit.
\<close>

definition vault_answers ::
    "vault_env \<Rightarrow> crypto \<Rightarrow> string \<Rightarrow> datetime option \<Rightarrow> vault_client \<Rightarrow> vault_api_record list \<Rightarrow> bool" where
  "vault_answers W C groups since v data \<longleftrightarrow>
     serves_pages W C (ips_base groups since) v data \<and> 0 < page_size v
     \<and> length data < MAX_PAGES * page_size v
     \<and> (\<forall>n req. req_url req = base_url v @ probe_path (ips_base groups since) (page_size v) \<longrightarrow>
          transport W n req \<in>
            {Reply 200 (EnvelopeBody (page_at (page_size v) data 0) ((length data + page_size v - 1) div page_size v)),
             Reply 200 (RecordsBody (page_at (page_size v) data 0)), Reply 400 OtherBody})"

text \<open>The dataset tells the truth about a state of the Vault, and mentions the addresses \<open>A\<close>.\<close>

definition tells :: "vault_api_record list \<Rightarrow> vault_state \<Rightarrow> string set \<Rightarrow> bool" where
  "tells data V A \<longleftrightarrow> describes (map_records data) V \<and> A \<subseteq> api_target_address ` set data"

lemma fetch_tells:
  assumes "vault_answers W C groups since v data" and "tells data V A"
  obtains rs v' where "fetch_ips W C pick groups since v = (Ok rs, v')" "describes (map_records rs) V"
    "A \<subseteq> target_address ` set (map_records rs)"
proof -
  obtain rs v' where rs: "fetch_ips W C pick groups since v = (Ok rs, v')" "mset rs = mset data"
    using fetch_ips_complete [of W C groups since v data pick] assms(1)
    unfolding vault_answers_def by (metis prod.collapse)
  have "set rs = set data" by (rule mset_eq_setD [OF rs(2)])
  then have "describes (map_records rs) V" "A \<subseteq> target_address ` set (map_records rs)"
    using assms(2) by (auto simp: tells_def describes_def map_records_def list_all_iff image_image)
  with rs(1) show thesis by (rule that)
qed

lemma mark_synced_cache: "app_ip_cache (mark_synced E ep s) = app_ip_cache s"
  by (simp add: mark_synced_def exec_unfold Let_def split: sum.split)

text \<open>The cache after a full sync that was due and answered.\<close>

lemma full_sync_cache:
  assumes "app_vault_client s = Some v"
    and "full_sync_due (clock E) (ep_id ep) FULL_SYNC_INTERVAL (app_ip_cache s)"
    and "vault_answers (vault_world E) (crypto_crate L) (vault_groups ep) None v data"
    and "tells data V (dom V)"
  shows "mirrors (ipnet_crate L) (ep_id ep) (app_ip_cache (sync_endpoint L E ep s)) V
    \<and> (full_sync_due now (ep_id ep) FULL_SYNC_INTERVAL (app_ip_cache (sync_endpoint L E ep s))
        \<longleftrightarrow> FULL_SYNC_INTERVAL \<le> now - clock E)"
proof -
  obtain rs v' where rs: "fetch_ips (vault_world E) (crypto_crate L) (vault_pick E) (vault_groups ep) None v = (Ok rs, v')"
    "describes (map_records rs) V" "dom V \<subseteq> target_address ` set (map_records rs)"
    using fetch_tells [OF assms(3,4)] by blast
  have "app_ip_cache (sync_endpoint L E ep s)
      = apply_full (ipnet_crate L) (clock E) (ep_id ep) (map_records rs) (app_ip_cache s)"
    using assms(1,2) rs(1)
    by (simp add: sync_endpoint_def sync_fetch_apply_def sync_plan_of_def fetch_since_def mark_synced_cache)
  moreover have "mirrors (ipnet_crate L) (ep_id ep)
      (apply_full (ipnet_crate L) (clock E) (ep_id ep) (map_records rs) (app_ip_cache s)) V"
    using rs(3) by (intro apply_full_resynchronises [OF rs(2)]) blast
  ultimately show ?thesis by (simp add: full_sync_due_def apply_full_eq)
qed


definition demo_sync_env :: "vault_api_record list \<Rightarrow> request_env" where
  "demo_sync_env data = calm_env\<lparr>vault_world := demo_env data ''group''\<rparr>"

definition demo_sync_app :: "cidr app" where
  "demo_sync_app = (demo_app (demo_db\<lparr>endpoints := [demo_endpoint]\<rparr>))\<lparr>app_vault_client := Some demo_client\<rparr>"

definition demo_dataset :: "vault_api_record list" where
  "demo_dataset = [\<lparr>api_target_address = ''8.8.8.8'', api_last_seen_at = 9, api_is_deleted = False\<rparr>]"

lemma demo_vault_answers:
  "vault_answers (vault_world (demo_sync_env demo_dataset)) demo_crypto ''group'' None demo_client demo_dataset"
  using demo_env_serves [of demo_dataset "''group''"]
  by (simp add: vault_answers_def demo_sync_env_def demo_client_def demo_env_def demo_dataset_def
      PAGE_SIZE_def MAX_PAGES_def)

lemma demo_tells:
  "tells demo_dataset (\<lambda>a. if a = ''8.8.8.8'' then Some 9 else None) (dom (\<lambda>a. if a = ''8.8.8.8'' then Some (9 :: int) else None))"
  by (auto simp: tells_def describes_def map_records_def demo_dataset_def split: if_splits)




text \<open>
  C16: A turn is contained. Whatever the Vault answers and whether or not the cursor is persisted,
  the caches of the other endpoints are as they were, and of the database at most the cursor of this
  endpoint's row has changed; when the fetch fails nothing has, and the feed keeps serving what
  it had.
\<close>

theorem sync_endpoint_contained:
  assumes alone: "db_others E = (\<lambda>_ d. d)" and s': "sync_endpoint L E ep s = s'"
  shows "(\<forall>e. e \<noteq> ep_id ep \<longrightarrow> map_of (app_ip_cache s') e = map_of (app_ip_cache s) e)
    \<and> (app_db s' = app_db s
       \<or> app_db s' = (app_db s)\<lparr>endpoints :=
           map (\<lambda>r. if ep_id r = ep_id ep then r\<lparr>ep_last_synced_at := Some (audit_clock E)\<rparr> else r)
             (endpoints (app_db s))\<rparr>)
    \<and> ((\<forall>v since. app_vault_client s = Some v \<longrightarrow>
          \<not> is_ok (fst (fetch_ips (vault_world E) (crypto_crate L) (vault_pick E) (vault_groups ep) since v)))
       \<longrightarrow> app_ip_cache s' = app_ip_cache s \<and> app_db s' = app_db s)"
proof (cases "app_vault_client s")
  case (Some v)
  let ?fetch = "\<lambda>since. fetch_ips (vault_world E) (crypto_crate L) (vault_pick E) (vault_groups ep) since v"
  obtain applied t where x: "sync_fetch_apply L E v ep s = (applied, t)" by fastforce
  have t: "app_db t = app_db s"
    "e \<noteq> ep_id ep \<Longrightarrow> map_of (app_ip_cache t) e = map_of (app_ip_cache s) e"
    "\<not> applied \<Longrightarrow> app_ip_cache t = app_ip_cache s" for e
    using x by (auto simp: sync_fetch_apply_def fetch_since_def apply_full_eq apply_diff_eq
        split: sync_plan.splits prod.splits sum.splits)
  have fetched: "\<exists>since. is_ok (fst (?fetch since))" if applied
    using x that unfolding is_ok_iff
    by (auto simp: sync_fetch_apply_def fetch_since_def split: sync_plan.splits prod.splits sum.splits)
      (metis fst_conv)+
  have "app_db (mark_synced E ep t) = app_db s
      \<or> app_db (mark_synced E ep t) = (app_db s)\<lparr>endpoints :=
           map (\<lambda>r. if ep_id r = ep_id ep then r\<lparr>ep_last_synced_at := Some (audit_clock E)\<rparr> else r)
             (endpoints (app_db s))\<rparr>"
    using t(1) alone by (auto simp: mark_synced_def exec_unfold Let_def update_endpoint_row_def enforce_def
        split: option.split sum.split)
  then show ?thesis
    using s' t Some fetched by (cases applied) (auto simp: sync_endpoint_def x mark_synced_cache)
qed (use s' in \<open>simp add: sync_endpoint_def\<close>)

theorem sync_endpoint_contained_witness:
  "app_ip_cache (sync_endpoint demo_crates (calm_env\<lparr>vault_world := \<lparr>wall = \<lambda>_. 0, transport = \<lambda>_ _. TransportFailure\<rparr>\<rparr>)
      demo_endpoint (demo_sync_app\<lparr>app_ip_cache := one_record_cache\<rparr>)) = one_record_cache"
proof -
  let ?E = "calm_env\<lparr>vault_world := \<lparr>wall = \<lambda>_. 0, transport = \<lambda>_ _. TransportFailure\<rparr>\<rparr>"
  have "\<not> is_ok (fst (fetch_ips (vault_world ?E) C pick groups since v))" for C pick groups since v
    by (simp add: fetch_ips_def signed_get_def Let_def split: option.split)
  moreover have "db_others ?E = (\<lambda>_ d. d)" by (simp add: calm_env_def)
  ultimately show ?thesis
    using sync_endpoint_contained [of ?E demo_crates demo_endpoint "demo_sync_app\<lparr>app_ip_cache := one_record_cache\<rparr>"]
    by simp
qed

end
