(* ===== verification/Router.thy ===== *)
theory Router
  imports Group_Cleanup Feed Sync
begin

text \<open>
  The routes of \<open>create_app\<close> in \<open>src/lib.rs\<close>. An \<open>api_call\<close> is an authenticated route with what its
  extractors found in the request; matching a path and deserializing a body belong to axum and
  serde, so the map from a request to its call is a parameter, \<open>route\<close>. An extractor failure is
  answered before the handler runs, path first.
\<close>

type_synonym path_id = "(uuid, string) result"

datatype api_call =
    GetMe
  | CreateApiKey "create_key_payload extracted"
  | ListApiKeys
  | UpdateApiKey path_id "update_key_payload extracted"
  | DeleteApiKey path_id "(uuid option, string) result"
  | RotateApiKey path_id
  | RotateSigningSecret path_id
  | CreateEndpoint "create_endpoint_payload extracted"
  | ListEndpoints
  | UpdateEndpoint path_id "update_endpoint_payload extracted"
  | DeleteEndpoint path_id
  | ReassignEndpointOwner path_id "uuid option extracted"
  | ListAuditLogs "(audit_log_query, string) result"
  | ListVaultGroups
  | ListKeyGroups path_id
  | GrantKeyGroup path_id "uuid extracted"
  | RevokeKeyGroup "(uuid \<times> uuid, string) result"

datatype api_reply =
    Me me_response
  | Minted minted_key_response
  | Keys "key_response list"
  | Key key_response
  | Rotated rotate_signing_secret_response
  | Endpoints "endpoint_response list"
  | Endpoint endpoint_response
  | AuditLogs "audit_log list"
  | VaultGroups "(uuid \<times> string) list"
  | Grants "vault_group_permission list"
  | Grant vault_group_permission
  | NoContent

definition reply :: "('a \<Rightarrow> api_reply) \<Rightarrow> ('a, 'net) action \<Rightarrow> (api_reply, 'net) action" where
  "reply f m = and_then m (\<lambda>a. ret (f a))"

definition with_path :: "path_id \<Rightarrow> (uuid \<Rightarrow> ('a, 'net) action) \<Rightarrow> ('a, 'net) action" where
  "with_path p k = and_then (lift_result (strict_path p)) k"

definition with_json :: "'p extracted \<Rightarrow> ('p \<Rightarrow> ('a, 'net) action) \<Rightarrow> ('a, 'net) action" where
  "with_json j k = and_then (lift_result (strict_json j)) k"

definition with_query :: "('p, string) result \<Rightarrow> ('p \<Rightarrow> ('a, 'net) action) \<Rightarrow> ('a, 'net) action" where
  "with_query q k = and_then (lift_result (strict_query q)) k"

fun dispatch ::
    "'net crates \<Rightarrow> request_env \<Rightarrow> api_key \<Rightarrow> ipaddr \<Rightarrow> api_call \<Rightarrow> (api_reply, 'net) action" where
  "dispatch L E caller ip GetMe = ret (Me (get_me caller))"
| "dispatch L E caller ip (CreateApiKey j) =
     with_json j (\<lambda>p. reply Minted (create_api_key L E caller ip p))"
| "dispatch L E caller ip ListApiKeys = reply Keys (list_api_keys E caller)"
| "dispatch L E caller ip (UpdateApiKey i j) =
     with_path i (\<lambda>i. with_json j (\<lambda>p. reply Key (update_api_key L E caller ip i p)))"
| "dispatch L E caller ip (DeleteApiKey i q) =
     with_path i (\<lambda>i. with_query q (\<lambda>r. reply (\<lambda>_. NoContent) (delete_api_key L E caller ip i r)))"
| "dispatch L E caller ip (RotateApiKey i) =
     with_path i (\<lambda>i. reply Minted (rotate_api_key L E caller ip i))"
| "dispatch L E caller ip (RotateSigningSecret i) =
     with_path i (\<lambda>i. reply Rotated (rotate_signing_secret L E caller ip i))"
| "dispatch L E caller ip (CreateEndpoint j) =
     with_json j (\<lambda>p. reply Endpoint (create_endpoint L E caller ip p))"
| "dispatch L E caller ip ListEndpoints = reply Endpoints (list_endpoints E caller)"
| "dispatch L E caller ip (UpdateEndpoint i j) =
     with_path i (\<lambda>i. with_json j (\<lambda>p. reply Endpoint (update_endpoint L E caller ip i p)))"
| "dispatch L E caller ip (DeleteEndpoint i) =
     with_path i (\<lambda>i. reply (\<lambda>_. NoContent) (delete_endpoint L E caller ip i))"
| "dispatch L E caller ip (ReassignEndpointOwner i j) =
     with_path i (\<lambda>i. with_json j (\<lambda>k. reply Endpoint (reassign_endpoint_owner L E caller ip i k)))"
| "dispatch L E caller ip (ListAuditLogs q) =
     with_query q (\<lambda>q. reply AuditLogs (list_audit_logs E caller q))"
| "dispatch L E caller ip ListVaultGroups = reply VaultGroups (list_vault_groups L E caller)"
| "dispatch L E caller ip (ListKeyGroups i) = with_path i (\<lambda>i. reply Grants (list_key_groups E caller i))"
| "dispatch L E caller ip (GrantKeyGroup i j) =
     with_path i (\<lambda>i. with_json j (\<lambda>g. reply Grant (grant_key_group L E caller ip i g)))"
| "dispatch L E caller ip (RevokeKeyGroup p) =
     and_then (lift_result (case p of Ok x \<Rightarrow> Ok x | Err text \<Rightarrow> Err (InvalidInput text))) (\<lambda>(i, g).
     reply (\<lambda>_. NoContent) (revoke_key_group L E caller ip i g))"

text \<open>A request to \<open>/api\<close>: the authentication layer, then the route's handler.\<close>

definition serve_api ::
    "'net crates \<Rightarrow> request_env \<Rightarrow> (request \<Rightarrow> api_call) \<Rightarrow> request \<Rightarrow> (api_reply, 'net) action" where
  "serve_api L E route rq =
     and_then (auth_middleware L E rq) (\<lambda>(client_ip, key). dispatch L E key client_ip (route rq))"

subsection \<open>The running service\<close>

text \<open>
  What can happen to the state while the service runs: a request to the API or to the feed, a
  readiness probe, a pass of the sync worker, a pass of the cleanup worker, and the detached
  resolution of the trusted proxies' names, in any order.
\<close>

datatype event =
    ApiRequest request_env request
  | FeedRequest request_env string request
  | ReadinessProbe request_env
  | SyncPass "nat \<Rightarrow> request_env"
  | CleanupPass request_env
  | PrimeProxies request_env

fun service_step :: "'net crates \<Rightarrow> (request \<Rightarrow> api_call) \<Rightarrow> event \<Rightarrow> 'net app \<Rightarrow> 'net app" where
  "service_step L route (ApiRequest E rq) s = snd (serve_api L E route rq s)"
| "service_step L route (FeedRequest E token rq) s = snd (serve_feed L E token rq s)"
| "service_step L route (ReadinessProbe E) s = snd (readiness_check E s)"
| "service_step L route (SyncPass Es) s = sync_all_endpoints L Es s"
| "service_step L route (CleanupPass E) s = cleanup_stale_group_permissions L E s"
| "service_step L route (PrimeProxies E) s =
     s\<lparr>app_dns_resolver :=
       snd (prime_proxies (ipnet_crate L) (name_lookup E) (clock E)
         (config_trusted_proxies (app_config s)) (app_dns_resolver s))\<rparr>"

text \<open>The environments an event reads.\<close>

fun event_envs :: "event \<Rightarrow> request_env set" where
  "event_envs (ApiRequest E rq) = {E}"
| "event_envs (FeedRequest E token rq) = {E}"
| "event_envs (ReadinessProbe E) = {E}"
| "event_envs (SyncPass Es) = range Es"
| "event_envs (CleanupPass E) = {E}"
| "event_envs (PrimeProxies E) = {E}"

end
