(* ===== verification/Api_Contract.thy ===== *)
theory Api_Contract
  imports Router
begin

text \<open>
  What the handlers may write, as a contract on a database invariant. The locale \<open>api_contract\<close>
  lists the writes a caller can reach, each with the facts the handler has established before
  it; an invariant that admits them is maintained by every route. It is interpreted four times:
  for the well-formedness of the stored rows, for the identity of the Master, for the
  confinement of an ordinary key, and for the groups such a key may name.
\<close>

subsection \<open>Writes\<close>

text \<open>The columns of a key that are not its binding or its modification time.\<close>

definition key_core :: "api_key \<Rightarrow> api_key" where
  "key_core r = r\<lparr>key_bound_ips := None, key_updated_at := 0\<rparr>"

definition key_write :: "'net crates \<Rightarrow> bool \<Rightarrow> api_key \<Rightarrow> api_key \<Rightarrow> bool" where
  "key_write L protected r r' \<longleftrightarrow>
     key_id r' = key_id r \<and> is_master r' = is_master r
     \<and> (bound_ips_ok L (key_bound_ips r) \<longrightarrow> bound_ips_ok L (key_bound_ips r'))
     \<and> (protected \<longrightarrow> key_core r' = key_core r)"

definition endpoint_ok :: "'net crates \<Rightarrow> endpoint \<Rightarrow> bool" where
  "endpoint_ok L e \<longleftrightarrow>
     0 < ttl_seconds e \<and> 0 \<le> max_age_seconds e \<and> bound_ips_ok L (ep_bound_ips e)
     \<and> comma_entries (vault_groups e) \<noteq> []"

text \<open>\<open>G\<close> says of a list of groups that the caller may name it.\<close>

definition endpoint_write ::
    "'net crates \<Rightarrow> api_key \<Rightarrow> (string \<Rightarrow> bool) \<Rightarrow> endpoint \<Rightarrow> endpoint \<Rightarrow> bool" where
  "endpoint_write L caller G r r' \<longleftrightarrow>
     ep_id r' = ep_id r \<and> token_secret r' = token_secret r
     \<and> (owner_key_id r' = owner_key_id r \<or> is_master caller)
     \<and> (vault_groups r' = vault_groups r \<or> is_master caller \<or> G (vault_groups r'))
     \<and> (endpoint_ok L r \<longrightarrow> endpoint_ok L r')"

lemma validate_groups_Ok: "validate_groups g = Ok u \<longleftrightarrow> comma_entries g \<noteq> []"
  by (auto simp: validate_groups_def comma_entries_def list_all_iff filter_empty_conv)

lemma validate_max_age_Ok: "validate_max_age n = Ok u \<longleftrightarrow> 0 \<le> n"
  by (auto simp: validate_max_age_def)

lemma require_master_Ok: "require_master caller = Ok u \<longleftrightarrow> is_master caller"
  by (simp add: require_master_def)

lemma guard_master_Ok: "guard_master_delete_or_rotate r w = Ok u \<longleftrightarrow> \<not> is_master r"
  by (simp add: guard_master_delete_or_rotate_def)

lemma guard_master_update_Ok: "guard_master_update r n c = Ok u \<longleftrightarrow> (is_master r \<longrightarrow> \<not> n \<and> \<not> c)"
  by (auto simp: guard_master_update_def)

lemmas guard_facts = validate_groups_Ok validate_max_age_Ok require_master_Ok guard_master_Ok
  guard_master_update_Ok

lemma key_columns_write:
  assumes "is_master ex \<longrightarrow> uk_name p = None \<and> uk_can_manage_keys p = None"
    and "case bound of None \<Rightarrow> True | Some b \<Rightarrow> bound_ips_ok L b"
  shows "key_write L (is_master ex) r (key_columns p bound now r)"
  using assms by (auto simp: key_write_def key_columns_def key_core_def split: option.splits)

lemma endpoint_columns_write:
  assumes "case ue_vault_groups p of None \<Rightarrow> True
      | Some g \<Rightarrow> comma_entries g \<noteq> [] \<and> (is_master caller \<or> G g)"
    and "case ue_ttl_seconds p of None \<Rightarrow> True | Some n \<Rightarrow> 0 < n"
    and "case ue_max_age_seconds p of None \<Rightarrow> True | Some n \<Rightarrow> 0 \<le> n"
    and "case bound of None \<Rightarrow> True | Some b \<Rightarrow> bound_ips_ok L b"
  shows "endpoint_write L caller G r (endpoint_columns p bound now r)"
  using assms by (auto simp: endpoint_write_def endpoint_columns_def endpoint_ok_def split: option.splits)

subsection \<open>Sub-actions the handlers share\<close>

lemma maintains_stmtT:
  "others_keep E J \<Longrightarrow> (\<And>d a d'. J d \<Longrightarrow> q d = Ok (a, d') \<Longrightarrow> J d') \<Longrightarrow> maintains J (run_stmt E q) (\<lambda>_. True)"
  by (rule maintains_stmt) auto

lemma maintains_txn_stmtT:
  "(\<And>d a d'. J d \<Longrightarrow> q d = Ok (a, d') \<Longrightarrow> J d') \<Longrightarrow> maintains J (txn_stmt E q) (\<lambda>_. True)"
  by (rule maintains_txn_stmt) auto

lemma maintains_queryT: "others_keep E J \<Longrightarrow> maintains J (run_stmt E (query f)) (\<lambda>_. True)"
  by (rule maintains_query) auto

lemma maintains_txn_queryT: "maintains J (txn_stmt E (query f)) (\<lambda>_. True)"
  by (rule maintains_txn_query) auto

lemma maintains_retT: "maintains J (ret a) (\<lambda>_. True)"
  by (simp add: maintains_ret)

lemma maintains_check_name: "maintains J (check_name n) (\<lambda>_. True)"
  unfolding check_name_def by (rule maintains_weaken [OF maintains_ensure]) simp

lemma maintains_check_ttl: "maintains J (check_ttl n) (\<lambda>_. 0 < n)"
  unfolding check_ttl_def by (rule maintains_ensure)

lemma maintains_seal_secret: "maintains J (seal_secret L E secret) (\<lambda>_. True)"
  unfolding seal_secret_def
  by (rule maintains_and_then [OF maintains_gets], rule maintains_weaken [OF maintains_lift]) simp

lemma maintains_vault_groups: "maintains J (vault_groups_or_error L E) (\<lambda>_. True)"
  by (rule maintains_same_db)
    (auto simp: vault_groups_or_error_def call_list_groups_def split: option.splits sum.splits prod.splits)

lemma maintains_evict: "maintains J (evict_endpoint i) (\<lambda>_. True)"
  by (rule maintains_same_db) (simp add: evict_endpoint_def)

lemma maintains_option:
  "(x = None \<Longrightarrow> maintains J m F) \<Longrightarrow> (\<And>y. x = Some y \<Longrightarrow> maintains J (k y) F) \<Longrightarrow>
     maintains J (case x of None \<Rightarrow> m | Some y \<Rightarrow> k y) F"
  by (cases x) auto

lemma maintains_new_binding:
  "maintains J (case raw of None \<Rightarrow> ret None
      | Some r \<Rightarrow> and_then (lift_result (updated_bound_ips L r)) (\<lambda>b. ret (Some b)))
     (\<lambda>bound. case bound of None \<Rightarrow> True | Some b \<Rightarrow> bound_ips_ok L b)"
  by (rule maintains_option; (rule maintains_and_then [OF maintains_lift])?; rule maintains_ret)
    (auto dest: updated_bound_ips_Ok)

lemmas maintains_basic = maintains_lift maintains_ensure maintains_some_or maintains_gets maintains_check_name
  maintains_check_ttl maintains_seal_secret maintains_vault_groups maintains_evict maintains_new_binding
  maintains_txn_queryT

subsection \<open>The contract\<close>

locale api_contract =
  fixes L :: "'net crates" and caller :: api_key and J :: "database \<Rightarrow> bool"
    and T :: "api_key \<Rightarrow> bool" and U :: "endpoint \<Rightarrow> bool" and G :: "string \<Rightarrow> bool"
  assumes found_key: "J d \<Longrightarrow> find_key i d = Some r \<Longrightarrow> T r"
    and found_endpoint: "J d \<Longrightarrow> find_endpoint i d = Some ep \<Longrightarrow> U ep"
    and found_grants: "J d \<Longrightarrow> \<not> is_master caller \<Longrightarrow>
      set (comma_entries g) \<subseteq> vault_group_name ` set (permissions_of (key_id caller) d) \<Longrightarrow> G g"
    and write_audit: "J d \<Longrightarrow> insert_audit_log l d = Ok (u, d') \<Longrightarrow> J d'"
    and write_new_key: "J d \<Longrightarrow> insert_key r d = Ok (a, d') \<Longrightarrow>
      is_master caller \<Longrightarrow> \<not> is_master r \<Longrightarrow> bound_ips_ok L (key_bound_ips r) \<Longrightarrow> J d'"
    and write_key: "J d \<Longrightarrow> update_key (key_id ex) f d = Ok (a, d') \<Longrightarrow>
      is_master caller \<Longrightarrow> T ex \<Longrightarrow> (\<And>r. key_write L (is_master ex) r (f r)) \<Longrightarrow> J d'"
    and write_no_key: "J d \<Longrightarrow> delete_key_by_id (key_id ex) d = Ok (n, d') \<Longrightarrow>
      is_master caller \<Longrightarrow> T ex \<Longrightarrow> \<not> is_master ex \<Longrightarrow> J d'"
    and write_owner: "J d \<Longrightarrow> reassign_owned i k now d = Ok (u, d') \<Longrightarrow> is_master caller \<Longrightarrow> J d'"
    and write_new_endpoint: "J d \<Longrightarrow> insert_endpoint e d = Ok (b, d') \<Longrightarrow>
      endpoint_ok L e \<Longrightarrow> owner_key_id e = Some (key_id caller) \<Longrightarrow>
      is_master caller \<or> G (vault_groups e) \<Longrightarrow> J d'"
    and write_endpoint: "J d \<Longrightarrow> update_endpoint_row (ep_id ep) h d = Ok (b, d') \<Longrightarrow>
      U ep \<Longrightarrow> may_manage caller ep \<Longrightarrow> (\<And>r. endpoint_write L caller G r (h r)) \<Longrightarrow> J d'"
    and write_no_endpoint: "J d \<Longrightarrow> delete_endpoint_by_id (ep_id ep) d = Ok (n, d') \<Longrightarrow>
      U ep \<Longrightarrow> may_manage caller ep \<Longrightarrow> J d'"
    and write_grant: "J d \<Longrightarrow> insert_permission p d = Ok (q, d') \<Longrightarrow> is_master caller \<Longrightarrow> J d'"
    and write_no_grant: "J d \<Longrightarrow> delete_permissions ps d = Ok (n, d') \<Longrightarrow> is_master caller \<Longrightarrow> J d'"
begin

lemma maintains_audit: "others_keep E J \<Longrightarrow> maintains J (create_audit_log E key ip action target details) (\<lambda>_. True)"
  unfolding create_audit_log_def by (rule maintains_stmtT) (auto intro: write_audit)

lemma maintains_existing_key:
  "others_keep E J \<Longrightarrow> maintains J (existing_key E i) (\<lambda>r. T r \<and> key_id r = i)"
  unfolding existing_key_def
  by (rule maintains_and_then [OF maintains_query [where F = "\<lambda>x. \<forall>r. x = Some r \<longrightarrow> T r \<and> key_id r = i"]],
      assumption, force intro: found_key dest: find_key_Some,
      rule maintains_weaken [OF maintains_some_or], simp)

lemma maintains_managed_endpoint:
  "others_keep E J \<Longrightarrow> maintains J (managed_endpoint E caller i) (\<lambda>ep. U ep \<and> may_manage caller ep \<and> ep_id ep = i)"
  unfolding managed_endpoint_def
  by (rule maintains_and_then [OF maintains_query [where F = "\<lambda>x. \<forall>r. x = Some r \<longrightarrow> U r \<and> ep_id r = i"]],
      assumption, force intro: found_endpoint dest: find_endpoint_Some,
      rule maintains_and_then [OF maintains_some_or], rule maintains_and_then [OF maintains_ensure],
      rule maintains_ret, simp)

lemma maintains_group_access:
  "others_keep E J \<Longrightarrow> maintains J (validate_group_access E caller g) (\<lambda>_. is_master caller \<or> G g)"
proof (cases "is_master caller")
  case True
  then show ?thesis by (simp add: validate_group_access_def maintains_ret)
next
  case False
  assume others: "others_keep E J"
  let ?F = "\<lambda>granted. set (comma_entries g) \<subseteq> set granted \<longrightarrow> G g"
  have "maintains J (granted_group_names E (key_id caller)) ?F"
    unfolding granted_group_names_def
    by (rule maintains_and_then [OF maintains_query
          [where F = "\<lambda>ps. set (comma_entries g) \<subseteq> vault_group_name ` set ps \<longrightarrow> G g", OF others]])
      (use found_grants False in blast, rule maintains_ret, simp)
  then show ?thesis
    unfolding validate_group_access_def Let_def
    by (auto simp: False filter_empty_conv intro!: maintains_and_then
        intro: maintains_weaken [OF maintains_ensure])
qed

lemmas handler_steps = maintains_and_then maintains_basic maintains_retT maintains_audit maintains_stmtT
  maintains_existing_key maintains_managed_endpoint maintains_group_access

lemma create_api_key_keeps: "others_keep E J \<Longrightarrow> maintains J (create_api_key L E caller ip p) (\<lambda>_. True)"
  unfolding create_api_key_def Let_def
  by (rule handler_steps | assumption
      | (erule (1) write_new_key; simp add: guard_facts created_bound_ips_Ok))+

lemma list_api_keys_keeps: "others_keep E J \<Longrightarrow> maintains J (list_api_keys E caller) (\<lambda>_. True)"
  unfolding list_api_keys_def by (rule maintains_queryT handler_steps | assumption)+

lemma update_api_key_keeps: "others_keep E J \<Longrightarrow> maintains J (update_api_key L E caller ip i p) (\<lambda>_. True)"
proof -
  assume others: "others_keep E J"
  have name: "maintains J (case uk_name p of None \<Rightarrow> ret () | Some n \<Rightarrow> check_name n) (\<lambda>_. True)"
    by (rule maintains_option; rule maintains_retT maintains_check_name)
  show ?thesis
    unfolding update_api_key_def
    by (rule handler_steps name | rule others
        | (clarify, erule (1) write_key; simp add: guard_facts key_columns_write))+
qed

lemma rotate_api_key_keeps: "others_keep E J \<Longrightarrow> maintains J (rotate_api_key L E caller ip i) (\<lambda>_. True)"
  unfolding rotate_api_key_def Let_def
  by (rule handler_steps | assumption
      | (clarify, erule (1) write_key; simp add: guard_facts key_write_def))+

lemma rotate_signing_secret_keeps:
  "others_keep E J \<Longrightarrow> maintains J (rotate_signing_secret L E caller ip i) (\<lambda>_. True)"
  unfolding rotate_signing_secret_def Let_def
  by (rule handler_steps | assumption
      | (clarify, erule (1) write_key; simp add: guard_facts key_write_def))+

lemma delete_api_key_keeps: "others_keep E J \<Longrightarrow> maintains J (delete_api_key L E caller ip i r) (\<lambda>_. True)"
proof -
  assume others: "others_keep E J"
  have target: "maintains J
      (case r of
         None \<Rightarrow> and_then (ensure c e) (\<lambda>_. ret None)
       | Some k \<Rightarrow> and_then (txn_stmt E (query (find_key k))) (\<lambda>found.
           and_then (some_or found e') (\<lambda>target. ret (Some target))))
      (\<lambda>_. True)" for c e e'
    by (rule maintains_option; (rule handler_steps)+)
  have body: "maintains J (delete_key_txn L E caller ip (key_id ex) r desc) (\<lambda>_. True)"
    if "is_master caller" "T ex" "\<not> is_master ex" for ex desc
  proof -
    have move: "maintains J (case t of None \<Rightarrow> ret ()
        | Some k \<Rightarrow> txn_stmt E (reassign_owned (key_id ex) (key_id k) (wall_clock E))) (\<lambda>_. True)" for t
      by (rule maintains_option; rule maintains_retT maintains_txn_stmtT) (erule (1) write_owner, rule that)
    have audit: "maintains J (create_audit_log_txn E caller ip a t' d) (\<lambda>_. True)" for a t' d
      unfolding create_audit_log_txn_def by (rule maintains_txn_stmtT) (erule (1) write_audit)
    show ?thesis
      unfolding delete_key_txn_def
      by (rule maintains_and_then maintains_txn_queryT target move audit maintains_ensure
          | (rule maintains_txn_stmtT, erule (1) write_no_key; simp add: that))+
  qed
  show ?thesis
    unfolding delete_api_key_def
    by (rule handler_steps maintains_transaction | rule others
        | (clarify, rule body; simp add: guard_facts))+
qed

lemma create_endpoint_keeps: "others_keep E J \<Longrightarrow> maintains J (create_endpoint L E caller ip p) (\<lambda>_. True)"
  unfolding create_endpoint_def Let_def
  by (rule handler_steps | assumption
      | (erule (1) write_new_endpoint; simp add: guard_facts created_bound_ips_Ok endpoint_ok_def))+

lemma list_endpoints_keeps: "others_keep E J \<Longrightarrow> maintains J (list_endpoints E caller) (\<lambda>_. True)"
  unfolding list_endpoints_def
  by (rule maintains_and_then [where F = "\<lambda>_. True"]) (auto intro: maintains_queryT maintains_retT)

lemma update_endpoint_keeps: "others_keep E J \<Longrightarrow> maintains J (update_endpoint L E caller ip i p) (\<lambda>_. True)"
proof -
  assume others: "others_keep E J"
  have name: "maintains J (case ue_name p of None \<Rightarrow> ret () | Some n \<Rightarrow> check_name n) (\<lambda>_. True)"
    by (rule maintains_option; rule maintains_retT maintains_check_name)
  have groups: "maintains J (case ue_vault_groups p of None \<Rightarrow> ret ()
      | Some g \<Rightarrow> and_then (lift_result (validate_groups g)) (\<lambda>_. validate_group_access E caller g))
      (\<lambda>_. case ue_vault_groups p of None \<Rightarrow> True
            | Some g \<Rightarrow> comma_entries g \<noteq> [] \<and> (is_master caller \<or> G g))"
    by (rule maintains_option, rule maintains_ret, simp, rule maintains_and_then [OF maintains_lift],
        rule maintains_weaken [OF maintains_group_access [OF others]], simp add: guard_facts)
  have ttl: "maintains J (case ue_ttl_seconds p of None \<Rightarrow> ret () | Some n \<Rightarrow> check_ttl n)
      (\<lambda>_. case ue_ttl_seconds p of None \<Rightarrow> True | Some n \<Rightarrow> 0 < n)"
    by (rule maintains_option, rule maintains_ret, simp, rule maintains_weaken [OF maintains_check_ttl], simp)
  have age: "maintains J (case ue_max_age_seconds p of None \<Rightarrow> ret () | Some n \<Rightarrow> lift_result (validate_max_age n))
      (\<lambda>_. case ue_max_age_seconds p of None \<Rightarrow> True | Some n \<Rightarrow> 0 \<le> n)"
    by (rule maintains_option, rule maintains_ret, simp, rule maintains_weaken [OF maintains_lift],
        simp add: guard_facts)
  show ?thesis
    unfolding update_endpoint_def
    by (rule handler_steps name groups ttl age | rule others
        | (clarify, erule (1) write_endpoint; simp add: endpoint_columns_write))+
qed

lemma delete_endpoint_keeps: "others_keep E J \<Longrightarrow> maintains J (delete_endpoint L E caller ip i) (\<lambda>_. True)"
  unfolding delete_endpoint_def
  by (rule handler_steps | assumption | (clarify, erule (1) write_no_endpoint; simp))+

lemma reassign_endpoint_owner_keeps:
  "others_keep E J \<Longrightarrow> maintains J (reassign_endpoint_owner L E caller ip i k) (\<lambda>_. True)"
proof -
  assume others: "others_keep E J"
  have owner: "maintains J (case k of None \<Rightarrow> ret ()
      | Some k \<Rightarrow> and_then (run_stmt E (query (find_key k))) (\<lambda>key. ensure (key \<noteq> None) e)) (\<lambda>_. True)" for e
    by (rule maintains_option; (rule maintains_retT maintains_and_then [OF maintains_queryT [OF others]]
          maintains_weaken [OF maintains_ensure])+) simp
  have found: "maintains J (run_stmt E (query (find_endpoint i)))
      (\<lambda>x. \<forall>ep. x = Some ep \<longrightarrow> U ep \<and> ep_id ep = i)"
    by (rule maintains_query [OF others]) (force intro: found_endpoint dest: find_endpoint_Some)
  show ?thesis
    unfolding reassign_endpoint_owner_def
    by (rule found maintains_and_then maintains_ensure maintains_some_or owner maintains_audit [OF others] maintains_retT
        | (rule maintains_stmtT [OF others], clarsimp, erule (1) write_endpoint;
           simp add: may_manage_def endpoint_write_def endpoint_ok_def))+
qed

lemma list_audit_logs_keeps: "others_keep E J \<Longrightarrow> maintains J (list_audit_logs E caller q) (\<lambda>_. True)"
  unfolding list_audit_logs_def by (rule maintains_queryT handler_steps | assumption)+

lemma list_vault_groups_keeps: "maintains J (list_vault_groups L E caller) (\<lambda>_. True)"
  unfolding list_vault_groups_def by (rule handler_steps)+

lemma list_key_groups_keeps: "others_keep E J \<Longrightarrow> maintains J (list_key_groups E caller i) (\<lambda>_. True)"
  unfolding list_key_groups_def by (rule maintains_queryT handler_steps | assumption)+

lemma grant_key_group_keeps: "others_keep E J \<Longrightarrow> maintains J (grant_key_group L E caller ip i g) (\<lambda>_. True)"
  unfolding grant_key_group_def
  by (rule maintains_queryT handler_steps maintains_option | assumption
      | (erule (1) write_grant; simp add: guard_facts))+

lemma revoke_key_group_keeps: "others_keep E J \<Longrightarrow> maintains J (revoke_key_group L E caller ip i g) (\<lambda>_. True)"
  unfolding revoke_key_group_def
  by (rule maintains_queryT handler_steps | assumption
      | (erule (1) write_no_grant; simp add: guard_facts))+

lemmas handlers_keep = create_api_key_keeps list_api_keys_keeps update_api_key_keeps delete_api_key_keeps
  rotate_api_key_keeps rotate_signing_secret_keeps create_endpoint_keeps list_endpoints_keeps
  update_endpoint_keeps delete_endpoint_keeps reassign_endpoint_owner_keeps list_audit_logs_keeps
  list_vault_groups_keeps list_key_groups_keeps grant_key_group_keeps revoke_key_group_keeps

text \<open>Every route keeps the invariant, whatever its result.\<close>

lemma dispatch_keeps: "others_keep E J \<Longrightarrow> maintains J (dispatch L E caller ip call) (\<lambda>_. True)"
  by (cases call)
    (auto simp: reply_def with_path_def with_json_def with_query_def split: prod.split
      intro!: maintains_retT handlers_keep maintains_and_then [OF maintains_lift]
        maintains_and_then [where F = "\<lambda>_. True"])

end

end
