(* ===== verification/Authorization.thy ===== *)
theory Authorization
  imports Api_Contract
begin

text \<open>
  Who may change what. The contract of the handlers is interpreted on four invariants of the
  database: its rows are well-formed, the Master rows are the ones given, everything outside an
  ordinary caller's own endpoints is as given, and every group an ordinary caller names is granted.
\<close>

lemmas write_defs = insert_audit_log_def insert_key_def insert_endpoint_def insert_permission_def
  update_key_def update_endpoint_row_def reassign_owned_def delete_key_by_id_def delete_endpoint_by_id_def
  delete_permissions_def

subsection \<open>Stored rows are well-formed\<close>

definition rows_ok :: "'net crates \<Rightarrow> database \<Rightarrow> bool" where
  "rows_ok L d \<longleftrightarrow>
     db_valid d \<and> list_all (\<lambda>k. bound_ips_ok L (key_bound_ips k)) (api_keys d)
     \<and> list_all (endpoint_ok L) (endpoints d)"

lemma endpoint_ok_owner [simp]:
  "endpoint_ok L (e\<lparr>owner_key_id := k\<rparr>) = endpoint_ok L e"
  "endpoint_ok L (e\<lparr>ep_updated_at := t\<rparr>) = endpoint_ok L e"
  "endpoint_ok L (e\<lparr>ep_last_synced_at := u\<rparr>) = endpoint_ok L e"
  by (simp_all add: endpoint_ok_def)

interpretation rows: api_contract L caller "rows_ok L" "\<lambda>_. True" "\<lambda>_. True" "\<lambda>_. True" for L caller
  by unfold_locales
    (auto simp: rows_ok_def write_defs enforce_Ok list_all_iff key_write_def endpoint_write_def
      split: option.splits)

subsection \<open>The Master row is immutable\<close>

definition masters_are :: "api_key list \<Rightarrow> database \<Rightarrow> bool" where
  "masters_are cs d \<longleftrightarrow> db_valid d \<and> map key_core (masters d) = cs"

lemma key_core_id [simp]: "key_id (key_core r) = key_id r"
  by (simp add: key_core_def)

lemma masters_are_ids: "masters_are cs d \<Longrightarrow> key_id ` set cs = key_id ` set (masters d)"
  by (auto simp: masters_are_def image_image)

lemma masters_are_found:
  assumes "masters_are cs d" and "r \<in> set (api_keys d)"
  shows "is_master r \<longleftrightarrow> key_id r \<in> key_id ` set cs"
proof -
  have "is_master r \<longleftrightarrow> key_id r \<in> key_id ` set (masters d)"
    using assms key_row_unique [of d] by (auto simp: masters_are_def masters_def)
  then show ?thesis using masters_are_ids [OF assms(1)] by simp
qed

lemma map_filter_update:
  assumes "\<And>r. r \<in> set xs \<Longrightarrow> p r \<Longrightarrow> P (f r) = P r" and "\<And>r. r \<in> set xs \<Longrightarrow> p r \<Longrightarrow> P r \<Longrightarrow> g (f r) = g r"
  shows "map g (filter P (map (\<lambda>r. if p r then f r else r) xs)) = map g (filter P xs)"
  using assms by (induction xs) auto

lemma masters_are_write:
  assumes "masters_are cs d" and "update_key (key_id ex) f d = Ok (a, d')"
    and "is_master ex \<longleftrightarrow> key_id ex \<in> key_id ` set cs" and "\<And>r. key_write L (is_master ex) r (f r)"
  shows "masters_are cs d'"
proof -
  obtain r where d': "db_valid d'"
    "d' = d\<lparr>api_keys := map (\<lambda>r. if key_id r = key_id ex then f r else r) (api_keys d)\<rparr>"
    using assms(2) by (auto simp: update_key_def enforce_Ok split: option.splits)
  have "map key_core (filter is_master (map (\<lambda>r. if key_id r = key_id ex then f r else r) (api_keys d)))
      = map key_core (filter is_master (api_keys d))"
  proof (rule map_filter_update)
    fix r assume r: "r \<in> set (api_keys d)" "key_id r = key_id ex"
    show "is_master (f r) = is_master r" using assms(4) by (simp add: key_write_def)
    show "key_core (f r) = key_core r" if "is_master r"
      using that r assms(3,4) masters_are_found [OF assms(1) r(1)] by (simp add: key_write_def)
  qed
  then show ?thesis using assms(1) d'(1) by (simp add: masters_are_def masters_def d'(2))
qed

lemma masters_are_delete:
  assumes "masters_are cs d" and "delete_key_by_id i d = Ok (n, d')" and "i \<notin> key_id ` set cs"
  shows "masters_are cs d'"
proof -
  have "filter is_master (filter (\<lambda>r. key_id r \<noteq> i) (api_keys d)) = filter is_master (api_keys d)"
    unfolding filter_filter using assms(3) masters_are_found [OF assms(1)] by (intro filter_cong) auto
  then show ?thesis
    using assms(1,2) by (auto simp: masters_are_def delete_key_by_id_def enforce_Ok masters_def)
qed

lemma masters_are_same: "masters_are cs d \<Longrightarrow> db_valid d' \<Longrightarrow> api_keys d' = api_keys d \<Longrightarrow> masters_are cs d'"
  by (simp add: masters_are_def masters_def)

interpretation master: api_contract L caller "masters_are cs" "\<lambda>r. is_master r \<longleftrightarrow> key_id r \<in> key_id ` set cs"
  "\<lambda>_. True" "\<lambda>_. True" for L caller cs
proof
  fix d d' :: database and r ex :: api_key and f a n
  assume J: "masters_are cs d"
  show "is_master r \<longleftrightarrow> key_id r \<in> key_id ` set cs" if "find_key i d = Some r" for i
    using masters_are_found [OF J] find_key_Some [OF that] by blast
  show "masters_are cs d'" if "insert_key r d = Ok (a, d')" "\<not> is_master r"
    using J that by (auto simp: masters_are_def insert_key_def enforce_Ok masters_def)
  show "masters_are cs d'" if "update_key (key_id ex) f d = Ok (a, d')"
    "is_master ex \<longleftrightarrow> key_id ex \<in> key_id ` set cs" "\<And>r. key_write L (is_master ex) r (f r)"
    using masters_are_write [OF J that] .
  show "masters_are cs d'" if "delete_key_by_id (key_id ex) d = Ok (n, d')"
    "is_master ex \<longleftrightarrow> key_id ex \<in> key_id ` set cs" "\<not> is_master ex"
    using masters_are_delete [OF J that(1)] that by simp
qed (auto simp: write_defs enforce_Ok split: option.splits elim!: masters_are_same)

subsection \<open>An ordinary key is confined to its own endpoints\<close>

text \<open>\<open>ks\<close>, \<open>ps\<close>, \<open>es\<close>: the keys, the grants and the endpoints of others, as they were; \<open>al\<close>: the
  audit trail so far, to which entries may be added.\<close>

definition foreign_endpoints :: "api_key \<Rightarrow> database \<Rightarrow> endpoint list" where
  "foreign_endpoints caller d = filter (\<lambda>e. owner_key_id e \<noteq> Some (key_id caller)) (endpoints d)"

definition confined ::
    "api_key \<Rightarrow> api_key list \<Rightarrow> vault_group_permission list \<Rightarrow> endpoint list \<Rightarrow> audit_log list \<Rightarrow> database \<Rightarrow> bool" where
  "confined caller ks ps es al d \<longleftrightarrow>
     is_master caller
     \<or> db_valid d \<and> api_keys d = ks \<and> permissions d = ps \<and> foreign_endpoints caller d = es
       \<and> prefix al (audit_logs d)"

lemma confined_own:
  assumes "confined caller ks ps es al d" and "\<not> is_master caller" and "find_endpoint i d = Some ep"
  shows "owner_key_id ep = Some (key_id caller) \<longrightarrow> ep_id ep \<notin> ep_id ` set es"
proof (intro impI notI)
  assume own: "owner_key_id ep = Some (key_id caller)" and "ep_id ep \<in> ep_id ` set es"
  then obtain e where e: "e \<in> set es" "ep_id e = ep_id ep" by auto
  have es: "set es = {e \<in> set (endpoints d). owner_key_id e \<noteq> Some (key_id caller)}"
    and "distinct (map ep_id (endpoints d))"
    using assms(1,2) by (auto simp: confined_def foreign_endpoints_def db_valid_def endpoints_valid_def)
  moreover have "ep \<in> set (endpoints d)" using find_endpoint_Some [OF assms(3)] by simp
  ultimately have "e = ep" using e distinct_map_eq [of ep_id "endpoints d" e ep] by auto
  then show False using e es own by auto
qed

lemma confined_row:
  assumes "foreign_endpoints caller d = es" and "i \<notin> ep_id ` set es"
    and "r \<in> set (endpoints d)" and "ep_id r = i"
  shows "owner_key_id r = Some (key_id caller)"
  using assms by (auto simp: foreign_endpoints_def)

lemma filter_update:
  assumes "\<And>r. r \<in> set xs \<Longrightarrow> p r \<Longrightarrow> \<not> P (f r) \<and> \<not> P r"
  shows "filter P (map (\<lambda>r. if p r then f r else r) xs) = filter P xs"
  using assms by (induction xs) auto

lemma confined_write:
  assumes "confined caller ks ps es al d" and "\<not> is_master caller" and "i \<notin> ep_id ` set es"
    and "update_endpoint_row i h d = Ok (b, d')" and "\<And>r. endpoint_write L caller G r (h r)"
  shows "confined caller ks ps es al d'"
proof -
  have d: "db_valid d" "foreign_endpoints caller d = es" using assms(1,2) by (auto simp: confined_def)
  have d': "db_valid d'" "d' = d\<lparr>endpoints := map (\<lambda>r. if ep_id r = i then h r else r) (endpoints d)\<rparr>"
    using assms(4) by (auto simp: update_endpoint_row_def enforce_Ok split: option.splits)
  have "foreign_endpoints caller d' = foreign_endpoints caller d"
    unfolding foreign_endpoints_def d'(2) database.select_convs database.update_convs
  proof (simp, rule filter_update)
    fix r assume r: "r \<in> set (endpoints d)" "ep_id r = i"
    have "owner_key_id r = Some (key_id caller)" by (rule confined_row [OF d(2) assms(3) r])
    moreover have "owner_key_id (h r) = owner_key_id r" using assms(2,5) by (simp add: endpoint_write_def)
    ultimately show "\<not> owner_key_id (h r) \<noteq> Some (key_id caller) \<and> \<not> owner_key_id r \<noteq> Some (key_id caller)"
      by simp
  qed
  then show ?thesis using assms(1,2) d d' by (simp add: confined_def)
qed

lemma confined_delete:
  assumes "confined caller ks ps es al d" and "\<not> is_master caller" and "i \<notin> ep_id ` set es"
    and "delete_endpoint_by_id i d = Ok (n, d')"
  shows "confined caller ks ps es al d'"
proof -
  have d: "db_valid d" "foreign_endpoints caller d = es" using assms(1,2) by (auto simp: confined_def)
  have d': "db_valid d'" "d' = d\<lparr>endpoints := filter (\<lambda>r. ep_id r \<noteq> i) (endpoints d)\<rparr>"
    using assms(4) by (auto simp: delete_endpoint_by_id_def enforce_Ok)
  have "foreign_endpoints caller d' = foreign_endpoints caller d"
    unfolding foreign_endpoints_def d'(2)
    using confined_row [OF d(2) assms(3)] by (auto intro!: filter_cong)
  then show ?thesis using assms(1,2) d d' by (simp add: confined_def)
qed

interpretation daughter: api_contract L caller "confined caller ks ps es al" "\<lambda>_. True"
  "\<lambda>ep. is_master caller \<or> (owner_key_id ep = Some (key_id caller) \<longrightarrow> ep_id ep \<notin> ep_id ` set es)" "\<lambda>_. True"
  for L caller ks ps es al
proof
  fix d d' :: database and ep e :: endpoint and h b n i
  assume J: "confined caller ks ps es al d"
  show "is_master caller \<or> (owner_key_id ep = Some (key_id caller) \<longrightarrow> ep_id ep \<notin> ep_id ` set es)"
    if "find_endpoint i d = Some ep"
    using confined_own [OF J _ that] by blast
  show "confined caller ks ps es al d'"
    if "update_endpoint_row (ep_id ep) h d = Ok (b, d')"
      "is_master caller \<or> (owner_key_id ep = Some (key_id caller) \<longrightarrow> ep_id ep \<notin> ep_id ` set es)"
      "may_manage caller ep" "\<And>r. endpoint_write L caller (\<lambda>_. True) r (h r)"
    using confined_write [OF J _ _ that(1,4)] that(2,3)
    by (cases "is_master caller") (auto simp: may_manage_def confined_def)
  show "confined caller ks ps es al d'"
    if "delete_endpoint_by_id (ep_id ep) d = Ok (n, d')"
      "is_master caller \<or> (owner_key_id ep = Some (key_id caller) \<longrightarrow> ep_id ep \<notin> ep_id ` set es)"
      "may_manage caller ep"
    using confined_delete [OF J _ _ that(1)] that(2,3)
    by (cases "is_master caller") (auto simp: may_manage_def confined_def)
  show "confined caller ks ps es al d'"
    if "insert_endpoint e d = Ok (b, d')" "owner_key_id e = Some (key_id caller)"
    using J that by (auto simp: confined_def insert_endpoint_def enforce_Ok foreign_endpoints_def)
  show "confined caller ks ps es al d'" if "insert_audit_log l d = Ok (u, d')" for l u
    using J that by (auto simp: confined_def insert_audit_log_def enforce_Ok foreign_endpoints_def)
qed (auto simp: confined_def)

subsection \<open>The groups an ordinary key names are granted to it\<close>

definition groups_granted :: "api_key \<Rightarrow> vault_group_permission list \<Rightarrow> string \<Rightarrow> bool" where
  "groups_granted caller ps g \<longleftrightarrow>
     list_all (\<lambda>name. list_ex (\<lambda>p. perm_api_key_id p = key_id caller \<and> vault_group_name p = name) ps)
       (comma_entries g)"

definition names_granted :: "api_key \<Rightarrow> vault_group_permission list \<Rightarrow> endpoint list \<Rightarrow> database \<Rightarrow> bool" where
  "names_granted caller ps es d \<longleftrightarrow>
     is_master caller
     \<or> permissions d = ps
       \<and> list_all (\<lambda>e. list_ex (\<lambda>e0. ep_id e0 = ep_id e \<and> vault_groups e0 = vault_groups e) es
                      \<or> groups_granted caller ps (vault_groups e)) (endpoints d)"

interpretation groups: api_contract L caller "names_granted caller ps es" "\<lambda>_. True" "\<lambda>_. True"
  "\<lambda>g. is_master caller \<or> groups_granted caller ps g" for L caller ps es
proof
  fix d d' :: database and g
  assume J: "names_granted caller ps es d" and "\<not> is_master caller"
    and "set (comma_entries g) \<subseteq> vault_group_name ` set (permissions_of (key_id caller) d)"
  then show "is_master caller \<or> groups_granted caller ps g"
    by (force simp: names_granted_def groups_granted_def permissions_of_def list_all_iff list_ex_iff)
next
  fix d d' :: database and ep h b
  assume J: "names_granted caller ps es d" and upd: "update_endpoint_row (ep_id ep) h d = Ok (b, d')"
    and w: "\<And>r. endpoint_write L caller (\<lambda>g. is_master caller \<or> groups_granted caller ps g) r (h r)"
  let ?ok = "\<lambda>e. list_ex (\<lambda>e0. ep_id e0 = ep_id e \<and> vault_groups e0 = vault_groups e) es
      \<or> groups_granted caller ps (vault_groups e)"
  have "?ok (h r)" if "?ok r" "\<not> is_master caller" for r
  proof -
    have "ep_id (h r) = ep_id r" "vault_groups (h r) = vault_groups r \<or> groups_granted caller ps (vault_groups (h r))"
      using w [of r] that(2) by (auto simp: endpoint_write_def)
    with that(1) show ?thesis by (elim disjE) simp_all
  qed
  then show "names_granted caller ps es d'"
    using J upd by (auto simp: names_granted_def update_endpoint_row_def enforce_Ok list_all_iff split: option.splits)
qed (auto simp: names_granted_def write_defs enforce_Ok list_all_iff split: option.splits)

subsection \<open>The whole service keeps an invariant\<close>

lemma sync_fetch_apply_db: "app_db (snd (sync_fetch_apply L E v ep s)) = app_db s"
  by (auto simp: sync_fetch_apply_def fetch_since_def split: sync_plan.split sum.split prod.split)

locale service_contract =
  fixes L :: "'net crates" and J :: "database \<Rightarrow> bool" and T :: "api_key \<Rightarrow> bool"
    and U :: "endpoint \<Rightarrow> bool" and G :: "string \<Rightarrow> bool"
  assumes api: "api_contract L caller J T U G"
    and write_cursor: "J d \<Longrightarrow> update_endpoint_row i (\<lambda>r. r\<lparr>ep_last_synced_at := t\<rparr>) d = Ok (b, d') \<Longrightarrow> J d'"
    and write_cleanup: "J d \<Longrightarrow> delete_permissions ps d = Ok (n, d') \<Longrightarrow> J d'"
begin

lemma exec_query_keeps: "others_keep E J \<Longrightarrow> J (app_db s) \<Longrightarrow> exec E (query f) s = (r, s') \<Longrightarrow> J (app_db s')"
  by (rule exec_maintains(1) [where F = "\<lambda>_. True"]) (auto simp: query_def)

lemma authenticate_keeps: "others_keep E J \<Longrightarrow> maintains J (master_authenticate E row) (\<lambda>_. True)"
  unfolding maintains_def
proof (intro allI impI conjI)
  fix s :: "'b app" assume "others_keep E J" "J (app_db s)"
  moreover obtain p t where r: "resolve_pin E s = (p, t)" by fastforce
  ultimately have "J (app_db t)" unfolding resolve_pin_frame(4) [OF r] by (simp add: others_keep_def)
  with \<open>J (app_db s)\<close> show "J (app_db (snd (master_authenticate E row s)))"
    using authenticate_snd [of E row s]
    by (cases "authenticate E row s") (auto simp: master_authenticate_def r split: if_splits)
qed simp

lemma auth_keeps: "others_keep E J \<Longrightarrow> maintains J (auth_middleware L E rq) (\<lambda>_. True)"
proof -
  assume others: "others_keep E J"
  have client: "maintains J (client_address L E rq) (\<lambda>_. True)"
    by (rule maintains_same_db) (simp add: client_address_def split: prod.split)
  have bound: "maintains J (check_bound_ips L E b ip) (\<lambda>_. True)" for b ip
    by (rule maintains_same_db) (simp add: check_bound_ips_def split: prod.split sum.split)
  have used: "maintains J (use_signature E k digest) (\<lambda>_. True)" for k digest
    by (rule maintains_same_db) (simp add: use_signature_def split: prod.split)
  show ?thesis
    unfolding auth_middleware_def
    by (rule client bound used authenticate_keeps [OF others] maintains_queryT [OF others]
        maintains_and_then maintains_basic maintains_retT)+
qed

lemma serve_api_keeps: "others_keep E J \<Longrightarrow> maintains J (serve_api L E route rq) (\<lambda>_. True)"
  unfolding serve_api_def
  by (rule maintains_and_then [OF auth_keeps])
    (auto intro: api_contract.dispatch_keeps [OF api] split: prod.split)

lemma serve_feed_keeps: "others_keep E J \<Longrightarrow> maintains J (serve_feed L E token rq) (\<lambda>_. True)"
proof -
  assume others: "others_keep E J"
  have client: "maintains J (client_address L E rq) (\<lambda>_. True)"
    by (rule maintains_same_db) (simp add: client_address_def split: prod.split)
  have bound: "maintains J (feed_admits L E b ip) (\<lambda>_. True)" for b ip
    by (rule maintains_same_db)
      (auto simp: feed_admits_def and_then_def action_defs split: option.split sum.split prod.split)
  have answer: "maintains J (case feed_networks L E ep c of None \<Rightarrow> ret FeedPanic
      | Some ns \<Rightarrow> answer_feed L E rq ip (render_feed (ipnet_crate L) ns)) (\<lambda>_. True)" for ep c ip
    by (rule maintains_same_db)
      (auto simp: answer_feed_def ret_def Let_def split: option.split sum.split prod.split)
  show ?thesis
    unfolding serve_feed_def
    by (rule client bound answer maintains_queryT [OF others] maintains_and_then maintains_some_or maintains_gets)+
qed

lemma mark_synced_keeps: "others_keep E J \<Longrightarrow> J (app_db s) \<Longrightarrow> J (app_db (mark_synced E ep s))"
proof -
  assume others: "others_keep E J" and J: "J (app_db s)"
  obtain r t where x: "exec E (update_endpoint_row (ep_id ep) (\<lambda>r. r\<lparr>ep_last_synced_at := Some (audit_clock E)\<rparr>)) s = (r, t)"
    by fastforce
  have "J (app_db t)"
    by (rule exec_maintains(1) [where F = "\<lambda>_. True", OF others _ J x]) (auto intro: write_cursor)
  then show ?thesis by (simp add: mark_synced_def x)
qed

lemma sync_endpoint_keeps: "others_keep E J \<Longrightarrow> J (app_db s) \<Longrightarrow> J (app_db (sync_endpoint L E ep s))"
proof -
  assume others: "others_keep E J" and J: "J (app_db s)"
  show ?thesis
  proof (cases "app_vault_client s")
    case (Some v)
    obtain applied t where x: "sync_fetch_apply L E v ep s = (applied, t)" by fastforce
    then have "J (app_db t)" using sync_fetch_apply_db [of L E v ep s] J by simp
    then show ?thesis using mark_synced_keeps [OF others] by (auto simp: sync_endpoint_def Some x split: bool.split)
  qed (simp add: sync_endpoint_def J)
qed

lemma sync_rows_keeps:
  "(\<And>n. others_keep (Es n) J) \<Longrightarrow> J (app_db s) \<Longrightarrow> J (app_db (sync_rows L Es n eps s))"
  by (induction eps arbitrary: n s) (simp_all add: sync_endpoint_keeps)

lemma sync_all_keeps:
  "(\<And>n. others_keep (Es n) J) \<Longrightarrow> J (app_db s) \<Longrightarrow> J (app_db (sync_all_endpoints L Es s))"
proof -
  assume others: "\<And>n. others_keep (Es n) J" and J: "J (app_db s)"
  obtain r t where x: "exec (Es 0) (query endpoints) s = (r, t)" by fastforce
  have "J (app_db t)" by (rule exec_query_keeps [OF others J x])
  then show ?thesis using J sync_rows_keeps [OF others]
    by (auto simp: sync_all_endpoints_def listed_endpoints_def x split: sum.split)
qed

lemma boot_sync_keeps:
  "(\<And>n. others_keep (Es n) J) \<Longrightarrow> J (app_db s) \<Longrightarrow> J (app_db (run_boot_sync L Es b s))"
proof -
  assume others: "\<And>n. others_keep (Es n) J" and J: "J (app_db s)"
  obtain r t where x: "exec (Es 0) (query endpoints) s = (r, t)" by fastforce
  have t: "J (app_db t)" by (rule exec_query_keeps [OF others J x])
  then have "J (app_db (sync_rows L Es 1 eps t))" for eps by (rule sync_rows_keeps [OF others])
  then show ?thesis using J t sync_all_keeps [OF others J]
    by (auto simp: run_boot_sync_def listed_endpoints_def x sync_fetch_apply_db Let_def
        split: budget.split sum.split list.split option.split bool.split)
qed

lemma cleanup_keeps: "others_keep E J \<Longrightarrow> J (app_db s) \<Longrightarrow> J (app_db (cleanup_stale_group_permissions L E s))"
proof -
  assume others: "others_keep E J" and J: "J (app_db s)"
  obtain g s1 where c: "call_list_groups L E s = (g, s1)" by fastforce
  have J1: "J (app_db s1)" using c J by (auto simp: call_list_groups_def split: option.splits prod.splits)
  obtain r s2 where x: "exec E (query permissions) s1 = (r, s2)" by fastforce
  have J2: "J (app_db s2)" by (rule exec_query_keeps [OF others J1 x])
  have "J (app_db (snd (exec E (delete_permissions ids) s2)))" for ids
  proof -
    obtain q s3 where y: "exec E (delete_permissions ids) s2 = (q, s3)" by fastforce
    have "J (app_db s3)"
      by (rule exec_maintains(1) [where F = "\<lambda>_. True", OF others _ J2 y]) (auto intro: write_cleanup)
    then show ?thesis by (simp add: y)
  qed
  with J1 J2 show ?thesis
    by (auto simp: cleanup_stale_group_permissions_def c x Let_def split: option.split sum.split)
qed

lemma service_step_keeps:
  assumes "\<And>E. E \<in> event_envs ev \<Longrightarrow> others_keep E J" and "J (app_db s)"
  shows "J (app_db (service_step L route ev s))"
proof (cases ev)
  case (ReadinessProbe E)
  obtain r t where x: "exec E (query (\<lambda>d. length (api_keys d))) s = (r, t)" by fastforce
  have "J (app_db t)" using exec_query_keeps [OF _ assms(2) x] assms(1) ReadinessProbe by simp
  then show ?thesis by (simp add: ReadinessProbe readiness_check_def x Let_def)
next
  case (ApiRequest E rq)
  then show ?thesis using serve_api_keeps [of E route rq] assms by (simp add: maintains_def)
next
  case (FeedRequest E token rq)
  then show ?thesis using serve_feed_keeps [of E token rq] assms by (simp add: maintains_def)
qed (use assms sync_all_keeps cleanup_keeps in auto)

lemma service_run_keeps:
  "(\<And>ev E. ev \<in> set evs \<Longrightarrow> E \<in> event_envs ev \<Longrightarrow> others_keep E J) \<Longrightarrow> J (app_db s) \<Longrightarrow>
     J (app_db (fold (service_step L route) evs s))"
proof (induction evs arbitrary: s)
  case (Cons ev evs)
  have "J (app_db (service_step L route ev s))" by (rule service_step_keeps) (auto intro: Cons.prems)
  then have "J (app_db (fold (service_step L route) evs (service_step L route ev s)))"
    by (rule Cons.IH [rotated]) (auto intro: Cons.prems)
  then show ?case by simp
qed simp

end

interpretation rows_service: service_contract L "rows_ok L" "\<lambda>_. True" "\<lambda>_. True" "\<lambda>_. True" for L
  by (intro service_contract.intro rows.api_contract_axioms)
    (auto simp: rows_ok_def write_defs enforce_Ok list_all_iff split: option.splits)

interpretation master_service: service_contract L "masters_are cs"
  "\<lambda>r. is_master r \<longleftrightarrow> key_id r \<in> key_id ` set cs" "\<lambda>_. True" "\<lambda>_. True" for L cs
  by (intro service_contract.intro master.api_contract_axioms)
    (auto simp: write_defs enforce_Ok split: option.splits elim!: masters_are_same)

end
