(* ===== verification/Handler_Outcomes.thy ===== *)
theory Handler_Outcomes
  imports Authorization
begin

text \<open>
  What a request that runs alone has done when it answers: a change that succeeded is on record in
  the audit trail, a key that could not be deleted left everything as it was, and an ordinary key
  is shown nothing but its own rows. Statements may still fail at any point.
\<close>

subsection \<open>Audited changes\<close>

text \<open>
  The database is as it was, or the trail has one more entry, at its end and naming the caller.
  Deleting a key clears it from older entries, so these are compared by their ids.
\<close>

definition audited :: "request_env \<Rightarrow> api_key \<Rightarrow> ipaddr \<Rightarrow> database \<Rightarrow> database \<Rightarrow> bool" where
  "audited E caller ip d d' \<longleftrightarrow>
     d' = d
     \<or> (\<exists>al action target details.
          audit_logs d' = al @ [audit_entry E caller ip action target details]
          \<and> map log_id al = map log_id (audit_logs d))"

text \<open>The end of a mutating handler: the entry is written on a database whose trail is the old one.\<close>

lemma audited_insert:
  assumes "insert_audit_log (audit_entry E caller ip action target details) d1 = Ok (u, d')"
    and "map log_id (audit_logs d1) = map log_id (audit_logs d)"
  shows "audited E caller ip d d'"
  using assms by (auto simp: audited_def insert_audit_log_def enforce_Ok)

lemma audited_refl [simp]: "audited E caller ip d d"
  by (simp add: audited_def)

lemma run_stmt_alone:
  assumes "db_others E = (\<lambda>_ d. d)" and "run_stmt E q s = (Ok a, s')"
  shows "q (app_db s) = Ok (a, app_db s')"
  using assms by (auto simp: run_stmt_Ok)

lemma query_alone:
  assumes "db_others E = (\<lambda>_ d. d)" and "run_stmt E (query f) s = (Ok a, s')"
  shows "app_db s' = app_db s \<and> a = f (app_db s)"
  using run_stmt_alone [OF assms] by (auto simp: query_def)

lemma existing_key_alone:
  assumes "db_others E = (\<lambda>_ d. d)" and "existing_key E i s = (Ok r, s')"
  shows "app_db s' = app_db s \<and> find_key i (app_db s) = Some r"
  using assms(2) by (auto simp: existing_key_def ok_simps dest!: query_alone [OF assms(1)])

lemma managed_endpoint_alone:
  assumes "db_others E = (\<lambda>_ d. d)" and "managed_endpoint E caller i s = (Ok r, s')"
  shows "app_db s' = app_db s \<and> find_endpoint i (app_db s) = Some r \<and> may_manage caller r"
  using assms(2) by (auto simp: managed_endpoint_def ok_simps dest!: query_alone [OF assms(1)])

lemma seal_secret_alone: "seal_secret L E secret s = (Ok a, s') \<Longrightarrow> s' = s"
  by (auto simp: seal_secret_def ok_simps)

lemma vault_groups_alone: "vault_groups_or_error L E s = (r, s') \<Longrightarrow> app_db s' = app_db s"
  by (auto simp: vault_groups_or_error_def call_list_groups_def split: option.splits sum.splits prod.splits)

lemma group_access_alone:
  assumes "db_others E = (\<lambda>_ d. d)" and "validate_group_access E caller g s = (Ok u, s')"
  shows "app_db s' = app_db s"
  using assms(2)
  by (auto simp: validate_group_access_def granted_group_names_def Let_def ok_simps split: if_splits
      dest!: query_alone [OF assms(1)])

lemma writes_keep_trail:
  "insert_key r d = Ok (a, d') \<Longrightarrow> audit_logs d' = audit_logs d"
  "update_key i f d = Ok (a, d') \<Longrightarrow> audit_logs d' = audit_logs d"
  "insert_endpoint e d = Ok (b, d') \<Longrightarrow> audit_logs d' = audit_logs d"
  "update_endpoint_row i h d = Ok (b, d') \<Longrightarrow> audit_logs d' = audit_logs d"
  "reassign_owned i k t d = Ok (u, d') \<Longrightarrow> audit_logs d' = audit_logs d"
  "delete_endpoint_by_id i d = Ok (n, d') \<Longrightarrow> audit_logs d' = audit_logs d"
  "insert_permission p d = Ok (q, d') \<Longrightarrow> audit_logs d' = audit_logs d"
  "delete_permissions ps d = Ok (n, d') \<Longrightarrow> audit_logs d' = audit_logs d"
  by (auto simp: write_defs enforce_Ok split: option.splits)

lemma delete_key_keeps_trail:
  "delete_key_by_id i d = Ok (n, d') \<Longrightarrow> map log_id (audit_logs d') = map log_id (audit_logs d)"
  by (auto simp: delete_key_by_id_def enforce_Ok)

lemmas handler_ok = ok_simps Let_def query_def check_name_def check_ttl_def create_audit_log_def evict_endpoint_def
lemmas trail_facts = seal_secret_alone vault_groups_alone writes_keep_trail

subsection \<open>Each handler\<close>

lemma create_api_key_audited:
  assumes "db_others E = (\<lambda>_ d. d)" and "create_api_key L E caller ip p s = (Ok r, s')"
  shows "audited E caller ip (app_db s) (app_db s')"
  using assms(2)
  by (auto simp: create_api_key_def handler_ok dest!: trail_facts run_stmt_alone [OF assms(1)]
      elim!: audited_insert)

lemma update_api_key_audited:
  assumes "db_others E = (\<lambda>_ d. d)" and "update_api_key L E caller ip i p s = (Ok r, s')"
  shows "audited E caller ip (app_db s) (app_db s')"
  using assms(2)
  by (auto simp: update_api_key_def handler_ok split: option.splits elim!: audited_insert
      dest!: existing_key_alone [OF assms(1)] trail_facts run_stmt_alone [OF assms(1)])

lemma rotate_api_key_audited:
  assumes "db_others E = (\<lambda>_ d. d)" and "rotate_api_key L E caller ip i s = (Ok r, s')"
  shows "audited E caller ip (app_db s) (app_db s')"
  using assms(2)
  by (auto simp: rotate_api_key_def handler_ok elim!: audited_insert
      dest!: existing_key_alone [OF assms(1)] trail_facts run_stmt_alone [OF assms(1)])

lemma rotate_signing_secret_audited:
  assumes "db_others E = (\<lambda>_ d. d)" and "rotate_signing_secret L E caller ip i s = (Ok r, s')"
  shows "audited E caller ip (app_db s) (app_db s')"
  using assms(2)
  by (auto simp: rotate_signing_secret_def handler_ok elim!: audited_insert
      dest!: existing_key_alone [OF assms(1)] trail_facts run_stmt_alone [OF assms(1)])

lemma delete_key_txn_audited:
  assumes "delete_key_txn L E caller ip i to described s = (Ok r, s')"
  shows "audited E caller ip (app_db s) (app_db s')"
proof -
  have alone: "db_others (E\<lparr>db_others := \<lambda>_ d. d\<rparr>) = (\<lambda>_ d. d)" by simp
  show ?thesis
    using assms
    by (auto simp: delete_key_txn_def create_audit_log_txn_def txn_stmt_def query_def ok_simps split: option.splits
        dest!: run_stmt_alone [OF alone] delete_key_keeps_trail writes_keep_trail
        elim!: audited_insert)
qed

lemma transaction_Ok:
  "transaction E m s = (Ok a, s') \<Longrightarrow> db_others E = (\<lambda>_ d. d) \<Longrightarrow>
     \<exists>s1 s2. app_db s1 = app_db s \<and> m s1 = (Ok a, s2) \<and> app_db s' = app_db s2"
  by (auto simp: transaction_def txn_stmt_def ok_simps split: prod.splits sum.splits
      dest!: query_alone [rotated])

lemma delete_api_key_audited:
  assumes "db_others E = (\<lambda>_ d. d)" and "delete_api_key L E caller ip i to s = (Ok r, s')"
  shows "audited E caller ip (app_db s) (app_db s')"
  using assms(2)
  by (auto simp: delete_api_key_def ok_simps dest!: existing_key_alone [OF assms(1)]
      transaction_Ok [OF _ assms(1)] delete_key_txn_audited)

lemma create_endpoint_audited:
  assumes "db_others E = (\<lambda>_ d. d)" and "create_endpoint L E caller ip p s = (Ok r, s')"
  shows "audited E caller ip (app_db s) (app_db s')"
  using assms(2)
  by (auto simp: create_endpoint_def handler_ok elim!: audited_insert
      dest!: group_access_alone [OF assms(1)] trail_facts run_stmt_alone [OF assms(1)])

lemma update_endpoint_audited:
  assumes "db_others E = (\<lambda>_ d. d)" and "update_endpoint L E caller ip i p s = (Ok r, s')"
  shows "audited E caller ip (app_db s) (app_db s')"
  using assms(2)
  by (auto simp: update_endpoint_def handler_ok split: option.splits elim!: audited_insert
      dest!: managed_endpoint_alone [OF assms(1)] group_access_alone [OF assms(1)] trail_facts
        run_stmt_alone [OF assms(1)])

lemma delete_endpoint_audited:
  assumes "db_others E = (\<lambda>_ d. d)" and "delete_endpoint L E caller ip i s = (Ok r, s')"
  shows "audited E caller ip (app_db s) (app_db s')"
  using assms(2)
  by (auto simp: delete_endpoint_def handler_ok elim!: audited_insert
      dest!: managed_endpoint_alone [OF assms(1)] trail_facts run_stmt_alone [OF assms(1)])

lemma reassign_endpoint_owner_audited:
  assumes "db_others E = (\<lambda>_ d. d)" and "reassign_endpoint_owner L E caller ip i k s = (Ok r, s')"
  shows "audited E caller ip (app_db s) (app_db s')"
  using assms(2)
  by (cases k) (auto simp: reassign_endpoint_owner_def handler_ok elim!: audited_insert
      dest!: trail_facts run_stmt_alone [OF assms(1)])

lemma found_or_Ok:
  "(case x of None \<Rightarrow> m | Some y \<Rightarrow> ret y) s = (Ok r, s') \<longleftrightarrow> x = Some r \<and> s' = s \<or> x = None \<and> m s = (Ok r, s')"
  by (auto simp: ret_Ok split: option.split)

lemma grant_key_group_audited:
  assumes "db_others E = (\<lambda>_ d. d)" and "grant_key_group L E caller ip i g s = (Ok r, s')"
  shows "audited E caller ip (app_db s) (app_db s')"
  using assms(2)
  by (auto simp: grant_key_group_def handler_ok found_or_Ok elim!: audited_insert
      dest!: existing_key_alone [OF assms(1)] trail_facts run_stmt_alone [OF assms(1)])

lemma revoke_key_group_audited:
  assumes "db_others E = (\<lambda>_ d. d)" and "revoke_key_group L E caller ip i p s = (Ok r, s')"
  shows "audited E caller ip (app_db s) (app_db s')"
  using assms(2)
  by (auto simp: revoke_key_group_def handler_ok elim!: audited_insert
      dest!: existing_key_alone [OF assms(1)] trail_facts run_stmt_alone [OF assms(1)])

lemmas handlers_audited = create_api_key_audited update_api_key_audited rotate_api_key_audited
  rotate_signing_secret_audited delete_api_key_audited create_endpoint_audited update_endpoint_audited
  delete_endpoint_audited reassign_endpoint_owner_audited grant_key_group_audited revoke_key_group_audited

lemma reads_alone:
  assumes "db_others E = (\<lambda>_ d. d)"
  shows "list_api_keys E caller s = (Ok ks, s') \<Longrightarrow> app_db s' = app_db s"
    and "list_endpoints E caller s = (Ok es, s') \<Longrightarrow> app_db s' = app_db s"
    and "list_audit_logs E caller q s = (Ok ls, s') \<Longrightarrow> app_db s' = app_db s"
    and "list_key_groups E caller i s = (Ok gs, s') \<Longrightarrow> app_db s' = app_db s"
    and "list_vault_groups L E caller s = (Ok vs, s') \<Longrightarrow> app_db s' = app_db s"
  by (auto simp: list_api_keys_def list_endpoints_def list_audit_logs_def list_key_groups_def
      list_vault_groups_def ok_simps split: if_splits dest!: query_alone [OF assms] vault_groups_alone)

lemmas route_ok = reply_def with_path_def with_json_def with_query_def ok_simps

lemma dispatch_audited:
  assumes "db_others E = (\<lambda>_ d. d)" and "dispatch L E caller ip call s = (Ok r, s')"
  shows "audited E caller ip (app_db s) (app_db s')"
  using assms(2)
  by (cases call) (auto simp: route_ok split: prod.splits dest: handlers_audited [OF assms(1)] reads_alone [OF assms(1)])

subsection \<open>Deleting a key\<close>

lemma and_then_Err:
  "and_then m k s = (Err e, s'') \<longleftrightarrow>
     m s = (Err e, s'') \<or> (\<exists>a s'. m s = (Ok a, s') \<and> k a s' = (Err e, s''))"
  by (auto simp: and_then_def split: prod.splits sum.splits)

lemma ensure_Err: "ensure c e s = (Err e', s') \<longleftrightarrow> \<not> c \<and> e' = e \<and> s' = s"
  by (auto simp: ensure_def ret_def fail_def)

lemma lift_result_Err: "lift_result r s = (Err e, s') \<longleftrightarrow> r = Err e \<and> s' = s"
  by (auto simp: lift_result_def ret_def fail_def split: sum.splits)

lemma some_or_Err: "some_or x e s = (Err e', s') \<longleftrightarrow> x = None \<and> e' = e \<and> s' = s"
  by (auto simp: some_or_def ret_def fail_def split: option.splits)

lemmas err_simps = and_then_Err ensure_Err lift_result_Err some_or_Err

lemma query_unchanged:
  "db_others E = (\<lambda>_ d. d) \<Longrightarrow> run_stmt E (query f) s = (r, s') \<Longrightarrow> app_db s' = app_db s"
  by (auto simp: run_stmt_def exec_unfold query_def Let_def split: if_splits)

lemma transaction_Err:
  "db_others E = (\<lambda>_ d. d) \<Longrightarrow> transaction E m s = (Err e, s') \<Longrightarrow> app_db s' = app_db s"
  by (auto simp: transaction_def split: prod.splits sum.splits dest!: query_unchanged [rotated])

lemma existing_key_unchanged:
  "db_others E = (\<lambda>_ d. d) \<Longrightarrow> existing_key E i s = (r, s') \<Longrightarrow> app_db s' = app_db s"
  by (cases r) (auto simp: existing_key_def ok_simps err_simps dest: query_unchanged)

lemma delete_key_txn_result:
  assumes "delete_key_txn L E caller ip i to described s = (Ok r, s')" and "to \<noteq> Some i"
  shows "api_keys (app_db s') = filter (\<lambda>k. key_id k \<noteq> i) (api_keys (app_db s))
    \<and> endpoints (app_db s') =
        map (\<lambda>e. if owner_key_id e = Some i then e\<lparr>owner_key_id := to, ep_updated_at := wall_clock E\<rparr> else e)
          (endpoints (app_db s))"
proof -
  have alone: "db_others (E\<lparr>db_others := \<lambda>_ d. d\<rparr>) = (\<lambda>_ d. d)" by simp
  show ?thesis
  proof (cases to)
    case None
    then show ?thesis
      using assms
      by (auto simp: delete_key_txn_def create_audit_log_txn_def txn_stmt_def query_def ok_simps write_defs enforce_Ok
          owned_by_def unlink_def filter_empty_conv dest!: run_stmt_alone [OF alone])
  next
    case (Some k)
    then show ?thesis
      using assms
      by (auto simp: delete_key_txn_def create_audit_log_txn_def txn_stmt_def query_def ok_simps write_defs enforce_Ok
          unlink_def dest!: run_stmt_alone [OF alone] find_key_Some)
  qed
qed

text \<open>
  C10: Deleting a key is all or nothing, wherever a statement or the commit fails: an error
  leaves the database as it was. After a success the caller was the Master, the key is gone, no
  other key is touched, no endpoint is lost and every endpoint the key owned belongs to the
  successor named in the request; without a successor the key owned none.
\<close>

theorem delete_api_key_atomic:
  assumes "db_others E = (\<lambda>_ d. d)" and "delete_api_key L E caller ip i to s = (r, s')"
  shows "case r of
      Err e \<Rightarrow> app_db s' = app_db s
    | Ok _ \<Rightarrow> is_master caller \<and> to \<noteq> Some i
        \<and> api_keys (app_db s') = filter (\<lambda>k. key_id k \<noteq> i) (api_keys (app_db s))
        \<and> endpoints (app_db s') =
            map (\<lambda>e. if owner_key_id e = Some i then e\<lparr>owner_key_id := to, ep_updated_at := wall_clock E\<rparr> else e)
              (endpoints (app_db s))"
proof (cases r)
  case (Inl e)
  then show ?thesis
    using assms(2) by (auto simp: delete_api_key_def err_simps ok_simps
        dest!: existing_key_unchanged [OF assms(1)] transaction_Err [OF assms(1)])
next
  case (Inr u)
  then have "is_master caller" "to \<noteq> Some i"
    "\<exists>s1 s2 d. app_db s1 = app_db s \<and> delete_key_txn L E caller ip i to d s1 = (Ok u, s2) \<and> app_db s' = app_db s2"
    using assms(2) by (auto simp: delete_api_key_def ok_simps require_master_Ok
        dest!: existing_key_alone [OF assms(1)] transaction_Ok [OF _ assms(1)]) blast
  with Inr show ?thesis by (auto dest: delete_key_txn_result)
qed

definition demo_delete :: "(unit, app_error) result \<times> cidr app" where
  "demo_delete =
     delete_api_key demo_crates calm_env (demo_key 1 ''master'' True) (V4 0) 2 None (demo_app demo_db)"

theorem delete_api_key_atomic_witness:
  "fst demo_delete = Ok ()
   \<and> api_keys (app_db (snd demo_delete)) = filter (\<lambda>k. key_id k \<noteq> 2) (api_keys demo_db)"
proof -
  have ok: "fst demo_delete = Ok ()" by code_simp
  have "db_others calm_env = (\<lambda>_ d. d)" by (simp add: calm_env_def)
  moreover have "delete_api_key demo_crates calm_env (demo_key 1 ''master'' True) (V4 0) 2 None (demo_app demo_db)
      = (fst demo_delete, snd demo_delete)"
    by (simp add: demo_delete_def)
  ultimately have "case fst demo_delete of Err e \<Rightarrow> True
      | Ok _ \<Rightarrow> api_keys (app_db (snd demo_delete)) = filter (\<lambda>k. key_id k \<noteq> 2) (api_keys (app_db (demo_app demo_db)))"
    using delete_api_key_atomic by (fastforce split: sum.split)
  then show ?thesis using ok by (simp add: demo_app_def app_state_new_def)
qed

subsection \<open>What an ordinary key is shown\<close>

definition own_reply :: "api_key \<Rightarrow> api_reply \<Rightarrow> bool" where
  "own_reply caller r \<longleftrightarrow>
     (case r of
        Me m \<Rightarrow> m = get_me caller
      | Endpoints es \<Rightarrow> list_all (\<lambda>e. owner_key_id (er_endpoint e) = Some (key_id caller)) es
      | Endpoint e \<Rightarrow> owner_key_id (er_endpoint e) = Some (key_id caller)
      | Grants gs \<Rightarrow> list_all (\<lambda>g. perm_api_key_id g = key_id caller) gs
      | NoContent \<Rightarrow> True
      | _ \<Rightarrow> False)"

lemma dispatch_master_only:
  assumes "\<not> is_master caller"
  shows "create_api_key L E caller ip p s \<noteq> (Ok a, s')" "list_api_keys E caller s \<noteq> (Ok b, s')"
    "update_api_key L E caller ip i q s \<noteq> (Ok c, s')" "delete_api_key L E caller ip i to s \<noteq> (Ok u, s')"
    "rotate_api_key L E caller ip i s \<noteq> (Ok a, s')" "rotate_signing_secret L E caller ip i s \<noteq> (Ok f, s')"
    "reassign_endpoint_owner L E caller ip i k s \<noteq> (Ok g, s')" "list_audit_logs E caller aq s \<noteq> (Ok h, s')"
    "list_vault_groups L E caller s \<noteq> (Ok v, s')" "grant_key_group L E caller ip i gid s \<noteq> (Ok w, s')"
    "revoke_key_group L E caller ip i gid s \<noteq> (Ok u, s')"
  using assms
  by (simp_all add: create_api_key_def list_api_keys_def update_api_key_def delete_api_key_def rotate_api_key_def
      rotate_signing_secret_def reassign_endpoint_owner_def list_audit_logs_def list_vault_groups_def
      grant_key_group_def revoke_key_group_def ok_simps require_master_Ok)

lemma endpoint_columns_owner:
  "update_endpoint_row i (endpoint_columns p bound now) d = Ok (row, d') \<Longrightarrow> find_endpoint i d = Some ex \<Longrightarrow>
     owner_key_id row = owner_key_id ex"
  by (auto simp: update_endpoint_row_def enforce_Ok endpoint_columns_def)

lemma update_endpoint_own:
  assumes "db_others E = (\<lambda>_ d. d)" and "\<not> is_master caller" and "update_endpoint L E caller ip i p s = (Ok r, s')"
  shows "owner_key_id (er_endpoint r) = Some (key_id caller)"
  using assms(2,3)
  by (auto simp: update_endpoint_def endpoint_response_from_def handler_ok may_manage_def split: option.splits
      dest!: managed_endpoint_alone [OF assms(1)] group_access_alone [OF assms(1)] run_stmt_alone [OF assms(1)]
      dest: endpoint_columns_owner)

lemma list_endpoints_own:
  assumes "\<not> is_master caller" and "list_endpoints E caller s = (Ok es, s')"
  shows "list_all (\<lambda>e. owner_key_id (er_endpoint e) = Some (key_id caller)) es"
  using assms
  by (auto simp: list_endpoints_def endpoint_response_from_def ok_simps run_stmt_Ok query_def owned_by_def list_all_iff)

lemma list_key_groups_own:
  assumes "\<not> is_master caller" and "list_key_groups E caller i s = (Ok gs, s')"
  shows "list_all (\<lambda>g. perm_api_key_id g = key_id caller) gs"
  using assms
  by (auto simp: list_key_groups_def ok_simps run_stmt_Ok query_def permissions_of_def list_all_iff)

lemma create_endpoint_own:
  "create_endpoint L E caller ip p s = (Ok r, s') \<Longrightarrow> owner_key_id (er_endpoint r) = Some (key_id caller)"
  by (auto simp: create_endpoint_def endpoint_response_from_def handler_ok run_stmt_Ok insert_endpoint_def enforce_Ok)

text \<open>
  C12: An ordinary key that runs alone is answered with its own identity, its own endpoints and its own
  grants, and nothing else: the routes on keys, on the audit trail, on the Vault's groups, on grants
  and on ownership never succeed for it.
\<close>

theorem ordinary_key_sees_own:
  assumes "db_others E = (\<lambda>_ d. d)" and "\<not> is_master caller" and "dispatch L E caller ip call s = (Ok r, s')"
  shows "own_reply caller r"
  using assms(3)
  by (cases call) (auto simp: route_ok own_reply_def dispatch_master_only [OF assms(2)]
      create_endpoint_own update_endpoint_own [OF assms(1,2)] list_endpoints_own [OF assms(2)]
      list_key_groups_own [OF assms(2)] split: prod.splits)

theorem ordinary_key_sees_own_witness:
  "own_reply (demo_key 2 ''daughter'' False) (Endpoints [])"
proof -
  let ?x = "dispatch demo_crates calm_env (demo_key 2 ''daughter'' False) (V4 0) ListEndpoints (demo_app demo_db)"
  have "fst ?x = Ok (Endpoints [])" by code_simp
  then have "?x = (Ok (Endpoints []), snd ?x)" by (metis prod.collapse)
  then show ?thesis
    using ordinary_key_sees_own [of calm_env "demo_key 2 ''daughter'' False" demo_crates "V4 0" ListEndpoints
        "demo_app demo_db"]
    by (simp add: calm_env_def demo_key_def)
qed

end
