(* ===== verification/Service_Frame.thy ===== *)
theory Service_Frame
  imports Router
begin

text \<open>
  What the parts of the service leave alone. The replay guard is moved only by the authentication of
  a request, the rate limiter only by a feed answer; everything else keeps both. The locale
  \<open>gate_relation\<close> says so once for every relation between states that ignores what those two
  components do not hold.
\<close>

definition same_gates :: "'net app \<Rightarrow> 'net app \<Rightarrow> bool" where
  "same_gates s s' \<longleftrightarrow>
     app_replay_guard s' = app_replay_guard s \<and> app_rate_limiter s' = app_rate_limiter s"

lemma exec_same_gates: "same_gates s (snd (exec E q s))"
  by (simp add: same_gates_def exec_unfold Let_def split: sum.split)

lemma same_gates_trans: "same_gates s s' \<Longrightarrow> same_gates s' s'' \<Longrightarrow> same_gates s s''"
  by (simp add: same_gates_def)

lemmas key_handler_defs = create_api_key_def list_api_keys_def update_api_key_def delete_api_key_def delete_key_txn_def
  rotate_api_key_def rotate_signing_secret_def existing_key_def
lemmas endpoint_handler_defs = create_endpoint_def list_endpoints_def update_endpoint_def delete_endpoint_def
  reassign_endpoint_owner_def managed_endpoint_def validate_group_access_def granted_group_names_def check_ttl_def
lemmas group_handler_defs = list_vault_groups_def list_key_groups_def grant_key_group_def revoke_key_group_def
  list_audit_logs_def
lemmas support_defs = check_name_def seal_secret_def create_audit_log_def create_audit_log_txn_def reply_def
  with_path_def with_json_def with_query_def Let_def

locale gate_relation = state_relation Q for Q :: "'net app \<Rightarrow> 'net app \<Rightarrow> bool" +
  assumes free: "same_gates s s' \<Longrightarrow> Q s s'"
begin

lemma steps_free: "(\<And>s. same_gates s (snd (m s))) \<Longrightarrow> steps Q m"
  unfolding steps_def by (blast intro: free)

lemma steps_option:
  "steps Q m \<Longrightarrow> (\<And>y. steps Q (k y)) \<Longrightarrow> steps Q (case x of None \<Rightarrow> m | Some y \<Rightarrow> k y)"
  by (cases x) auto

lemma steps_if: "steps Q m \<Longrightarrow> steps Q k \<Longrightarrow> steps Q (if b then m else k)"
  by simp

lemma steps_run_stmt: "steps Q (run_stmt E q)"
  by (rule steps_stmt) (auto intro: free simp: same_gates_def)

lemma steps_txn_stmt: "steps Q (txn_stmt E q)"
  unfolding txn_stmt_def by (rule steps_run_stmt)

lemma steps_txn: "steps Q m \<Longrightarrow> steps Q (transaction E m)"
proof (rule steps_transaction)
  fix s s' :: "'net app"
  assume "Q s s'"
  moreover have "Q s' (s'\<lparr>app_db := app_db s\<rparr>)" by (rule free) (simp add: same_gates_def)
  ultimately show "Q s (s'\<lparr>app_db := app_db s\<rparr>)" by (rule trans)
qed (auto intro: free simp: same_gates_def)

lemma steps_vault_groups: "steps Q (vault_groups_or_error L E)"
  by (rule steps_free) (auto simp: same_gates_def vault_groups_or_error_def call_list_groups_def
      split: option.splits sum.splits prod.splits)

lemma steps_evict: "steps Q (evict_endpoint i)"
  by (rule steps_free) (simp add: evict_endpoint_def same_gates_def)

lemma steps_client_address: "steps Q (client_address L E rq)"
  by (rule steps_free) (simp add: client_address_def same_gates_def split: prod.split)

lemma steps_check_bound_ips: "steps Q (check_bound_ips L E b ip)"
  by (rule steps_free) (simp add: check_bound_ips_def same_gates_def split: prod.split sum.split)

lemma steps_feed_admits: "steps Q (feed_admits L E b ip)"
  by (rule steps_free) (auto simp: feed_admits_def same_gates_def and_then_def action_defs
      split: option.split sum.split prod.split)

lemma steps_master_authenticate: "steps Q (master_authenticate E row)"
proof (rule steps_free)
  fix s :: "'net app"
  obtain p t where r: "resolve_pin E s = (p, t)" by fastforce
  have "same_gates s t" by (subst resolve_pin_frame(5) [OF r]) (simp add: same_gates_def)
  then show "same_gates s (snd (master_authenticate E row s))"
    using authenticate_snd [of E row s]
    by (cases "authenticate E row s") (auto simp: master_authenticate_def r same_gates_def split: if_splits)
qed

lemmas frame_steps = steps_and_then steps_gets steps_some_or steps_lift steps_ensure steps_ret steps_fail
  steps_run_stmt steps_txn_stmt steps_txn steps_option steps_if steps_vault_groups steps_evict
  steps_client_address steps_check_bound_ips steps_feed_admits steps_master_authenticate

subsection \<open>The routes\<close>

lemma steps_dispatch: "steps Q (dispatch L E caller ip call)"
proof (cases call)
  case (RevokeKeyGroup p)
  then show ?thesis
    unfolding RevokeKeyGroup dispatch.simps group_handler_defs support_defs existing_key_def case_prod_beta
    by (intro frame_steps)
qed (hypsubst, unfold dispatch.simps key_handler_defs endpoint_handler_defs group_handler_defs support_defs,
    intro frame_steps)+

lemma steps_auth: "(\<And>k digest. steps Q (use_signature E k digest)) \<Longrightarrow> steps Q (auth_middleware L E rq)"
  unfolding auth_middleware_def by (intro frame_steps)

lemma steps_serve_api: "(\<And>k digest. steps Q (use_signature E k digest)) \<Longrightarrow> steps Q (serve_api L E route rq)"
  unfolding serve_api_def case_prod_beta by (intro steps_and_then steps_auth steps_dispatch)

lemma steps_serve_feed:
  "(\<And>ip feed. steps Q (answer_feed L E rq ip feed)) \<Longrightarrow> steps Q (serve_feed L E token rq)"
  unfolding serve_feed_def by (intro frame_steps)

subsection \<open>The workers\<close>

lemma exec_free: "exec E q s = (r, s') \<Longrightarrow> Q s s'"
  using exec_same_gates [of s E q] by (simp add: free)

lemma sync_endpoint_free: "Q s (sync_endpoint L E ep s)"
proof (rule free, cases "app_vault_client s")
  case (Some v)
  obtain applied t where x: "sync_fetch_apply L E v ep s = (applied, t)" by fastforce
  have "same_gates s (snd (sync_fetch_apply L E v ep s))"
    by (auto simp: same_gates_def sync_fetch_apply_def fetch_since_def split: sync_plan.split sum.split prod.split)
  moreover have "same_gates t (mark_synced E ep t)" unfolding mark_synced_def by (rule exec_same_gates)
  ultimately show "same_gates s (sync_endpoint L E ep s)"
    by (auto simp: sync_endpoint_def Some x split: bool.split intro: same_gates_trans)
qed (simp add: sync_endpoint_def same_gates_def)

lemma sync_rows_free: "Q s (sync_rows L Es n eps s)"
proof (induction eps arbitrary: n s)
  case (Cons ep eps)
  show ?case using trans [OF sync_endpoint_free Cons.IH] by simp
qed (simp add: refl)

lemma sync_all_free: "Q s (sync_all_endpoints L Es s)"
proof -
  obtain r t where x: "exec (Es 0) (query endpoints) s = (r, t)" by fastforce
  then show ?thesis
    using refl trans [OF exec_free [OF x] sync_rows_free] exec_free [OF x]
    by (auto simp: sync_all_endpoints_def listed_endpoints_def split: sum.split)
qed

lemma cleanup_free: "Q s (cleanup_stale_group_permissions L E s)"
proof (rule free)
  obtain g s1 where c: "call_list_groups L E s = (g, s1)" by fastforce
  have 1: "same_gates s s1" using c by (auto simp: call_list_groups_def same_gates_def split: option.splits prod.splits)
  obtain r s2 where x: "exec E (query permissions) s1 = (r, s2)" by fastforce
  have 2: "same_gates s s2" using same_gates_trans [OF 1] exec_same_gates [of s1 E "query permissions"] x by simp
  show "same_gates s (cleanup_stale_group_permissions L E s)"
    using 1 2 same_gates_trans [OF 2 exec_same_gates]
    by (auto simp: cleanup_stale_group_permissions_def c x Let_def split: option.split sum.split)
qed

lemma readiness_free: "Q s (snd (readiness_check E s))"
proof -
  obtain r t where x: "exec E (query (\<lambda>d. length (api_keys d))) s = (r, t)" by fastforce
  from exec_free [OF x] show ?thesis by (simp add: readiness_check_def x Let_def)
qed

end

subsection \<open>Relations that ignore the rest of the state\<close>

interpretation guard_frame: gate_relation "guard_steps now" for now
  by unfold_locales (auto intro: guard_steps_same simp: same_gates_def)

interpretation guard_kept: gate_relation "\<lambda>s s'. app_replay_guard s' = app_replay_guard s"
  by unfold_locales (simp_all add: same_gates_def)

interpretation limiter_kept: gate_relation "\<lambda>s s'. app_rate_limiter s' = app_rate_limiter s"
  by unfold_locales (simp_all add: same_gates_def)

end
