(* ===== verification/Service_Gates.thy ===== *)
theory Service_Gates
  imports Service_Frame
begin

text \<open>
  The two gates of the running service. A signature is accepted once and a client is served a feed
  once per window, whatever requests, feed fetches, sync passes and cleanups happen in between.
\<close>

subsection \<open>The replay guard\<close>

text \<open>The instant at which an event may touch the guard: only requests to the API do.\<close>

fun event_at :: "event \<Rightarrow> instant \<Rightarrow> bool" where
  "event_at (ApiRequest E rq) now \<longleftrightarrow> now = clock E"
| "event_at _ now \<longleftrightarrow> False"

lemma service_step_guard:
  "\<exists>secs. app_replay_guard (service_step L route ev s) = fold run_section secs (app_replay_guard s)
     \<and> (\<forall>sec \<in> set secs. event_at ev (section_now sec))"
proof (cases ev)
  case (ApiRequest E rq)
  then show ?thesis
    using guard_frame.steps_serve_api [OF guard_use_signature, of E L route rq]
    unfolding steps_def guard_steps_def by auto
next
  case (FeedRequest E token rq)
  have "steps (\<lambda>s s'. app_replay_guard s' = app_replay_guard s) (serve_feed L E token rq)"
    by (rule guard_kept.steps_serve_feed)
      (auto simp: steps_def answer_feed_def Let_def split: prod.split sum.split)
  then show ?thesis by (intro exI [of _ "[]"]) (simp add: FeedRequest steps_def)
qed (auto intro!: exI [of _ "[]"]
    simp: guard_kept.sync_all_free guard_kept.cleanup_free guard_kept.readiness_free)

lemma service_run_guard:
  "\<exists>secs. app_replay_guard (fold (service_step L route) evs s) = fold run_section secs (app_replay_guard s)
     \<and> (\<forall>sec \<in> set secs. \<exists>ev \<in> set evs. event_at ev (section_now sec))"
proof (induction evs arbitrary: s)
  case (Cons ev evs)
  obtain a where a: "app_replay_guard (service_step L route ev s) = fold run_section a (app_replay_guard s)"
    "\<forall>sec \<in> set a. event_at ev (section_now sec)"
    using service_step_guard by blast
  obtain b where b: "app_replay_guard (fold (service_step L route) evs (service_step L route ev s))
      = fold run_section b (app_replay_guard (service_step L route ev s))"
    "\<forall>sec \<in> set b. \<exists>ev \<in> set evs. event_at ev (section_now sec)"
    using Cons.IH by blast
  show ?case using a b by (intro exI [of _ "a @ b"]) auto
qed (auto intro: exI [of _ "[]"])

lemma handled_guard:
  assumes "auth_middleware L E rq s = (Ok (ip, key), s1)"
  shows "\<exists>secs. app_replay_guard (service_step L route (ApiRequest E rq) s) = fold run_section secs (app_replay_guard s1)
    \<and> (\<forall>sec \<in> set secs. section_now sec = clock E)"
  using guard_frame.steps_dispatch [of "clock E" L E key ip "route rq"] assms
  unfolding steps_def guard_steps_def by (auto simp: serve_api_def and_then_def)

text \<open>
  C3: An accepted signature is not accepted again. A request authenticates as \<open>key\<close>; then anything
  happens, in any order; a request that carries the same signature header and arrives before the
  guard's window has passed does not authenticate as that key, whatever else it contains.
\<close>

theorem signature_accepted_once:
  assumes inv: "guard_inv (app_replay_guard s)"
    and first: "auth_middleware L E rq s = (Ok (ip, key), s1)"
    and run: "t = fold (service_step L route) (ApiRequest E rq # evs) s"
      "\<forall>ev \<in> set evs. \<forall>now. event_at ev now \<longrightarrow> now < clock E + guard_window (app_replay_guard s)"
    and second: "clock E \<le> clock E'" "clock E' < clock E + guard_window (app_replay_guard s)"
      "rq_headers rq' SIGNATURE_HEADER = rq_headers rq SIGNATURE_HEADER"
  shows "\<not> (\<exists>ip' key'. fst (auth_middleware L E' rq' t) = Ok (ip', key') \<and> key_id key' = key_id key)"
proof
  assume "\<exists>ip' key'. fst (auth_middleware L E' rq' t) = Ok (ip', key') \<and> key_id key' = key_id key"
  then obtain ip' key' t' where again: "auth_middleware L E' rq' t = (Ok (ip', key'), t')"
    and same: "key_id key' = key_id key"
    by (metis prod.collapse)
  let ?D = "clock E + guard_window (app_replay_guard s)"
  obtain a where a: "app_replay_guard (service_step L route (ApiRequest E rq) s) = fold run_section a (app_replay_guard s1)"
    "\<forall>sec \<in> set a. section_now sec = clock E"
    using handled_guard [OF first] by blast
  obtain b where b: "app_replay_guard t = fold run_section (a @ b) (app_replay_guard s1)"
    "\<forall>sec \<in> set b. \<exists>ev \<in> set evs. event_at ev (section_now sec)"
    using service_run_guard [of L route evs "service_step L route (ApiRequest E rq) s"] a(1) run(1) by auto
  have "clock E < ?D" using second(1,2) by simp
  then have "\<forall>sec \<in> set (a @ b). section_now sec < ?D" using a(2) b(2) run(2) by auto
  from auth_single_use [OF first inv b(1) this second(2) again second(3) same] show False .
qed

theorem signature_accepted_once_witness:
  "\<not> (\<exists>ip' key'. fst (auth_middleware demo_crates (calm_env\<lparr>clock := nanos\<rparr>) demo_request
          (fold (service_step demo_crates (\<lambda>_. GetMe)) [ApiRequest calm_env demo_request, CleanupPass calm_env]
             (demo_app demo_db))) = Ok (ip', key') \<and> key_id key' = 2)"
proof -
  obtain s1 where first: "auth_middleware demo_crates calm_env demo_request (demo_app demo_db)
     = (Ok (V4 7, demo_key 2 ''daughter'' False), s1)" using demo_request_accepted by blast
  have "clock calm_env = 0" "key_id (demo_key 2 ''daughter'' False) = 2"
    by (simp_all add: calm_env_def demo_key_def)
  moreover have "guard_window (app_replay_guard (demo_app demo_db)) = 300 * nanos"
    by (simp add: demo_app_def app_state_new_def replay_guard_new_def runtime_config_default_def Let_def
        DEFAULT_SIGNATURE_MAX_AGE_SECONDS_def)
  moreover have "0 < nanos" by (simp add: nanos_def)
  ultimately show ?thesis
    using signature_accepted_once [OF demo_app_inv(2) first, where route = "\<lambda>_. GetMe"
        and evs = "[CleanupPass calm_env]" and E' = "calm_env\<lparr>clock := nanos\<rparr>" and rq' = demo_request]
    by simp
qed

subsection \<open>The rate limiter\<close>

text \<open>The feed is the only part that asks the limiter, once per request at most.\<close>

abbreviation limiter_calls :: "(instant \<times> ipaddr) list \<Rightarrow> rate_limiter \<Rightarrow> rate_limiter" where
  "limiter_calls calls \<equiv> fold (\<lambda>(now, ip) s. snd (rate_check_and_record now ip s)) calls"

definition one_call :: "instant \<Rightarrow> 'net app \<Rightarrow> 'net app \<Rightarrow> bool" where
  "one_call now s s' \<longleftrightarrow>
     (\<exists>calls. app_rate_limiter s' = limiter_calls calls (app_rate_limiter s)
        \<and> length calls \<le> 1 \<and> (\<forall>call \<in> set calls. fst call = now))"

lemma one_call_kept: "app_rate_limiter s' = app_rate_limiter s \<Longrightarrow> one_call now s s'"
  unfolding one_call_def by (intro exI [of _ "[]"]) simp

lemma one_call_answer: "steps (one_call (clock E)) (answer_feed L E rq ip feed)"
proof -
  have "one_call (clock E) s (s\<lparr>app_rate_limiter := snd (rate_check_and_record (clock E) ip (app_rate_limiter s))\<rparr>)"
    for s :: "'a app"
    unfolding one_call_def by (intro exI [of _ "[(clock E, ip)]"]) simp
  then show ?thesis
    by (auto simp: steps_def answer_feed_def Let_def one_call_kept split: prod.split sum.split) (metis snd_conv)+
qed

lemma one_call_after:
  assumes "steps (\<lambda>s s'. app_rate_limiter s' = app_rate_limiter s) m" and "\<And>a. steps (one_call now) (k a)"
  shows "steps (one_call now) (and_then m k)"
  unfolding steps_def
proof
  fix s
  obtain r t where m: "m s = (r, t)" by fastforce
  have t: "app_rate_limiter t = app_rate_limiter s" by (rule stepsD [OF assms(1) m])
  show "one_call now s (snd (and_then m k s))"
  proof (cases r)
    case (Inr a)
    have "one_call now t (snd (k a t))" using assms(2) by (simp add: steps_def)
    then show ?thesis by (simp add: and_then_def m Inr one_call_def t)
  qed (simp add: and_then_def m t one_call_kept)
qed

lemma one_call_feed: "steps (one_call (clock E)) (serve_feed L E token rq)"
proof -
  have panic: "steps (one_call (clock E)) (ret FeedPanic)" by (simp add: steps_def ret_def one_call_kept)
  show ?thesis
    unfolding serve_feed_def
    by (intro one_call_after limiter_kept.frame_steps) (simp add: panic one_call_answer split: option.split)
qed

text \<open>When an event asks the limiter.\<close>

fun feed_at :: "event \<Rightarrow> instant list" where
  "feed_at (FeedRequest E token rq) = [clock E]"
| "feed_at _ = []"

lemma service_step_limiter:
  "\<exists>calls. app_rate_limiter (service_step L route ev s) = limiter_calls calls (app_rate_limiter s)
     \<and> length calls \<le> length (feed_at ev) \<and> fst ` set calls \<subseteq> set (feed_at ev)"
proof (cases ev)
  case (FeedRequest E token rq)
  then show ?thesis using one_call_feed [of E L token rq] unfolding steps_def one_call_def by fastforce
next
  case (ApiRequest E rq)
  have "steps (\<lambda>s s'. app_rate_limiter s' = app_rate_limiter s) (serve_api L E route rq)"
    by (rule limiter_kept.steps_serve_api) (auto simp: steps_def use_signature_def split: prod.split)
  then show ?thesis by (intro exI [of _ "[]"]) (simp add: ApiRequest steps_def)
qed (auto intro!: exI [of _ "[]"]
    simp: limiter_kept.sync_all_free limiter_kept.cleanup_free limiter_kept.readiness_free)

lemma service_run_limiter:
  "\<exists>calls. app_rate_limiter (fold (service_step L route) evs s) = limiter_calls calls (app_rate_limiter s)
     \<and> length calls \<le> length (concat (map feed_at evs)) \<and> fst ` set calls \<subseteq> set (concat (map feed_at evs))"
proof (induction evs arbitrary: s)
  case (Cons ev evs)
  obtain a where a: "app_rate_limiter (service_step L route ev s) = limiter_calls a (app_rate_limiter s)"
    "length a \<le> length (feed_at ev)" "fst ` set a \<subseteq> set (feed_at ev)"
    using service_step_limiter by blast
  obtain b where b: "app_rate_limiter (fold (service_step L route) evs (service_step L route ev s))
      = limiter_calls b (app_rate_limiter (service_step L route ev s))"
    "length b \<le> length (concat (map feed_at evs))" "fst ` set b \<subseteq> set (concat (map feed_at evs))"
    using Cons.IH by blast
  show ?case using a b by (intro exI [of _ "a @ b"]) (auto simp: image_Un)
qed (auto intro: exI [of _ "[]"])

text \<open>An answer with a body asked the limiter for the client's address, and was admitted.\<close>

lemma feed_body_admitted:
  assumes "serve_feed L E token rq s = (Ok (FeedBody etag feed), s')" and "fst (client_address L E rq s) = Ok ip"
  shows "rate_check_and_record (clock E) ip (app_rate_limiter s) = (Ok (), app_rate_limiter s')"
proof -
  obtain s1 ep s2 s3 body where 1: "client_address L E rq s = (Ok ip, s1)"
    "run_stmt E (query (find_endpoint_by_token token)) s1 = (Ok (Some ep), s2)"
    "feed_admits L E (ep_bound_ips ep) ip s2 = (Ok (), s3)"
    "answer_feed L E rq ip body s3 = (Ok (FeedBody etag feed), s')"
    using assms by (auto simp: serve_feed_def ok_simps split: option.splits)
  have "app_rate_limiter s3 = app_rate_limiter s"
    using stepsD [OF limiter_kept.steps_client_address 1(1)] stepsD [OF limiter_kept.steps_run_stmt 1(2)]
      stepsD [OF limiter_kept.steps_feed_admits 1(3)] by simp
  with 1(4) show ?thesis by (auto simp: answer_feed_def Let_def split: prod.splits sum.splits if_splits)
qed



end
