(* ===== verification/Boot.thy ===== *)
theory Boot
  imports Master Sync Api_Support
begin

text \<open>
  Starting the service, \<open>src/main.rs\<close>: the configuration, the bootstrap of the Master key, the check
  of the encryption key, the pinned identity and the first sync. The migrated database, or the error
  of opening it, is an argument here; theory \<open>Startup\<close> opens it, and serves until the shutdown.
\<close>

datatype boot_error =
    BadProxies "invalid_proxy_entry list"
  | BadInitialMasterKey initial_master_key_error
  | BootDb db_err
  | BootCrypto crypto_error
  | EncryptionKeyMismatch crypto_error
  | PinFailed master_pin_error

type_synonym conn = "database \<times> nat"

definition find_master :: "database \<Rightarrow> api_key option" where
  "find_master d = find is_master (api_keys d)"

definition DEFAULT_BOOTSTRAP_SUBNET :: string where "DEFAULT_BOOTSTRAP_SUBNET = ''0.0.0.0/0,::/0''"

definition bootstrap_key_text :: "'net crates \<Rightarrow> request_env \<Rightarrow> string option \<Rightarrow> string" where
  "bootstrap_key_text L E initial_master_key =
     (case initial_master_key of
        Some fixed \<Rightarrow> fixed
      | None \<Rightarrow> generate_random_key (crypto_crate L) (key_bytes E))"

definition bootstrap_secret :: "'net crates \<Rightarrow> request_env \<Rightarrow> environment \<Rightarrow> string" where
  "bootstrap_secret L E env =
     (case env ''INITIAL_MASTER_SIGNING_SECRET'' of
        Some fixed \<Rightarrow> if fixed \<noteq> [] then fixed else generate_signing_secret (crypto_crate L) (secret_bytes E)
      | None \<Rightarrow> generate_signing_secret (crypto_crate L) (secret_bytes E))"

definition bootstrap_row ::
    "'net crates \<Rightarrow> request_env \<Rightarrow> environment \<Rightarrow> string \<Rightarrow> string \<Rightarrow> api_key" where
  "bootstrap_row L E env plaintext_key sealed =
     \<lparr>key_id = fresh_id E, key_name = ''System Master'', key_prefix = take 8 plaintext_key,
      key_hash = hash_key (crypto_crate L) plaintext_key, signing_secret = Some sealed,
      key_bound_ips = Some (case env ''BOOTSTRAP_SUBNET'' of Some b \<Rightarrow> b | None \<Rightarrow> DEFAULT_BOOTSTRAP_SUBNET),
      is_master = True, can_manage_keys = True, parent_key_id = None, key_owner_key_id = None,
      key_created_at = wall_clock E, key_updated_at = wall_clock E\<rparr>"

definition bootstrap_master_key ::
    "'net crates \<Rightarrow> request_env \<Rightarrow> environment \<Rightarrow> secret_cipher \<Rightarrow> string option \<Rightarrow> conn
       \<Rightarrow> (unit, boot_error) result \<times> conn" where
  "bootstrap_master_key L E env cipher initial_master_key conn =
     (case exec_conn E (query find_master) conn of
        (Err e, conn') \<Rightarrow> (Err (BootDb e), conn')
      | (Ok (Some _), conn') \<Rightarrow> (Ok (), conn')
      | (Ok None, conn') \<Rightarrow>
          let plaintext_key = bootstrap_key_text L E initial_master_key;
              secret = bootstrap_secret L E env
          in case seal (crypto_crate L) (nonce_bytes E) cipher secret of
               Err e \<Rightarrow> (Err (BootCrypto e), conn')
             | Ok sealed \<Rightarrow>
                 (case exec_conn E (insert_key (bootstrap_row L E env plaintext_key sealed)) conn' of
                    (Err e, conn'') \<Rightarrow> (Err (BootDb e), conn'')
                  | (Ok _, conn'') \<Rightarrow> (Ok (), conn'')))"

definition verify_encryption_key ::
    "'net crates \<Rightarrow> request_env \<Rightarrow> secret_cipher \<Rightarrow> conn \<Rightarrow> (unit, boot_error) result \<times> conn" where
  "verify_encryption_key L E cipher conn =
     (case exec_conn E (query find_master) conn of
        (Err e, conn') \<Rightarrow> (Err (BootDb e), conn')
      | (Ok found, conn') \<Rightarrow>
          (case Option.bind found signing_secret of
             None \<Rightarrow> (Ok (), conn')
           | Some stored \<Rightarrow>
               (case open_secret (crypto_crate L) cipher stored of
                  Err e \<Rightarrow> (Err (EncryptionKeyMismatch e), conn')
                | Ok _ \<Rightarrow> (Ok (), conn'))))"

text \<open>Everything \<open>main\<close> does before the boot sync, in its order; any error ends the process.\<close>

definition boot ::
    "'net crates \<Rightarrow> request_env \<Rightarrow> environment \<Rightarrow> bool \<Rightarrow> (database, db_err) result
       \<Rightarrow> ('net app, boot_error) result" where
  "boot L E env http_builds opened =
     (case runtime_config_from_env (ipnet_crate L) env of
        Err invalid \<Rightarrow> Err (BadProxies invalid)
      | Ok config \<Rightarrow>
     (case validate_initial_master_key (env ''INITIAL_MASTER_KEY'') of
        Err e \<Rightarrow> Err (BadInitialMasterKey e)
      | Ok initial \<Rightarrow>
     (case opened of
        Err e \<Rightarrow> Err (BootDb e)
      | Ok d \<Rightarrow>
     (case cipher_from_env (crypto_crate L) env of
        Err e \<Rightarrow> Err (BootCrypto e)
      | Ok cipher \<Rightarrow>
     (case bootstrap_master_key L E env cipher initial (d, 0) of
        (Err e, _) \<Rightarrow> Err e
      | (Ok _, conn) \<Rightarrow>
     (case verify_encryption_key L E cipher conn of
        (Err e, _) \<Rightarrow> Err e
      | (Ok _, (d', n)) \<Rightarrow>
     (case pin_at_boot E ((app_state_new (clock E) http_builds d' config dns_resolver_new cipher)\<lparr>statements := n\<rparr>) of
        (Err e, _) \<Rightarrow> Err (PinFailed e)
      | (Ok _, s) \<Rightarrow> Ok s)))))))"

text \<open>The whole start, up to the listener: the first sync follows. Resolving the names of trusted
  proxies is a detached task, an event of the running service.\<close>

definition start ::
    "'net crates \<Rightarrow> request_env \<Rightarrow> environment \<Rightarrow> bool \<Rightarrow> (database, db_err) result
       \<Rightarrow> (nat \<Rightarrow> request_env) \<Rightarrow> budget \<Rightarrow> ('net app, boot_error) result" where
  "start L E env http_builds opened Es b =
     (case boot L E env http_builds opened of
        Err e \<Rightarrow> Err e
      | Ok s \<Rightarrow> Ok (run_boot_sync L Es b s))"

subsection \<open>What a start leaves behind\<close>

lemma exec_conn_alone:
  assumes "db_others E = (\<lambda>_ d. d)" and "exec_conn E q (d, n) = (Ok a, (d', n'))"
  shows "q d = Ok (a, d')"
  using assms by (auto simp: exec_conn_def Let_def split: if_splits sum.splits)

lemma find_master_masters: "find_master d = (case masters d of [] \<Rightarrow> None | m # _ \<Rightarrow> Some m)"
proof -
  have "find is_master ks = (case filter is_master ks of [] \<Rightarrow> None | m # _ \<Rightarrow> Some m)" for ks
    by (induction ks) auto
  then show ?thesis by (simp add: find_master_def masters_def)
qed

lemma bootstrap_alone:
  assumes alone: "db_others E = (\<lambda>_ d. d)"
    and ok: "bootstrap_master_key L E env cipher initial (d, n) = (Ok (), (d', n'))"
  shows "masters d \<noteq> [] \<and> d' = d
    \<or> masters d = [] \<and> db_valid d' \<and> (\<exists>key sealed. d' = d\<lparr>api_keys := api_keys d @ [bootstrap_row L E env key sealed]\<rparr>)"
proof -
  obtain found d1 n1 where x: "exec_conn E (query find_master) (d, n) = (Ok found, (d1, n1))"
    using ok by (auto simp: bootstrap_master_key_def split: prod.splits sum.splits)
  have found: "d1 = d" "found = find_master d" using exec_conn_alone [OF alone x] by (auto simp: query_def)
  show ?thesis
  proof (cases "masters d")
    case Nil
    then obtain key sealed a where
      "exec_conn E (insert_key (bootstrap_row L E env key sealed)) (d, n1) = (Ok a, (d', n'))"
      using ok by (auto simp: bootstrap_master_key_def x found find_master_masters Let_def split: prod.splits sum.splits)
    then have "d' = d\<lparr>api_keys := api_keys d @ [bootstrap_row L E env key sealed]\<rparr> \<and> db_valid d'"
      by (auto simp: insert_key_def enforce_Ok dest!: exec_conn_alone [OF alone])
    with Nil show ?thesis by blast
  next
    case (Cons m ms)
    then show ?thesis using ok by (simp add: bootstrap_master_key_def x found find_master_masters)
  qed
qed

lemma verify_alone:
  assumes alone: "db_others E = (\<lambda>_ d. d)"
    and "verify_encryption_key L E cipher (d, n) = (Ok (), (d', n'))"
  shows "d' = d \<and> (case Option.bind (find_master d) signing_secret of
      None \<Rightarrow> True | Some stored \<Rightarrow> is_ok (open_secret (crypto_crate L) cipher stored))"
  using assms(2)
  by (auto simp: verify_encryption_key_def query_def is_ok_def
      split: prod.splits sum.splits option.splits dest!: exec_conn_alone [OF alone])

lemma pin_at_boot_alone:
  assumes alone: "db_others E = (\<lambda>_ d. d)" and "app_master_pin s = None" and "pin_at_boot E s = (Ok i, s')"
  shows "(''api_keys'', MARKER_INDEX) \<in> set (indexes (app_db s)) \<and> app_db s' = app_db s
    \<and> (\<exists>m. masters (app_db s) = [m] \<and> key_id m = i) \<and> app_master_pin s' = Some i \<and> app_cipher s' = app_cipher s"
  using assms(2,3)
  by (auto simp: pin_at_boot_def resolve_inner_def exec_unfold query_def alone Let_def set_pin_def
      split: if_splits sum.splits list.splits dest!: has_index_Ok)

text \<open>
  A start that succeeds leaves exactly one Master, pinned and usable. On whatever migrated database it
  was given, the uniqueness index is there, one row is the Master and is the pinned identity, its
  signing secret opens under the configured key, and either nothing was written or the database had
  no Master and that row is the one addition.
\<close>

lemma boot_sound:
  assumes alone: "db_others E = (\<lambda>_ d. d)" and boot: "boot L E env http_builds (Ok d) = Ok s"
  shows "\<exists>m. masters (app_db s) = [m] \<and> app_master_pin s = Some (key_id m)
    \<and> (''api_keys'', MARKER_INDEX) \<in> set (indexes (app_db s))
    \<and> (case signing_secret m of None \<Rightarrow> True | Some stored \<Rightarrow> is_ok (open_secret (crypto_crate L) (app_cipher s) stored))
    \<and> (app_db s = d \<or> masters d = [] \<and> db_valid (app_db s) \<and> app_db s = d\<lparr>api_keys := api_keys d @ [m]\<rparr>)"
proof -
  obtain config initial cipher d1 n1 d2 n2 i where
      1: "bootstrap_master_key L E env cipher initial (d, 0) = (Ok (), (d1, n1))"
    and 2: "verify_encryption_key L E cipher (d1, n1) = (Ok (), (d2, n2))"
    and 3: "pin_at_boot E ((app_state_new (clock E) http_builds d2 config dns_resolver_new cipher)\<lparr>statements := n2\<rparr>)
        = (Ok i, s)"
    using boot by (auto simp: boot_def split: sum.splits prod.splits)
  note v = verify_alone [OF alone 2]
  have p: "(''api_keys'', MARKER_INDEX) \<in> set (indexes d2)" "app_db s = d2" "\<exists>m. masters d2 = [m] \<and> key_id m = i"
    "app_master_pin s = Some i" "app_cipher s = cipher"
    using pin_at_boot_alone [OF alone _ 3] by (simp_all add: app_state_new_def)
  obtain m where m: "masters d2 = [m]" "key_id m = i" using p(3) by blast
  have opens: "case signing_secret m of None \<Rightarrow> True | Some stored \<Rightarrow> is_ok (open_secret (crypto_crate L) cipher stored)"
    using v m(1) by (simp add: find_master_masters)
  have "d1 = d \<or> masters d = [] \<and> db_valid d1 \<and> d1 = d\<lparr>api_keys := api_keys d @ [m]\<rparr>"
    using bootstrap_alone [OF alone 1] v m(1) by (auto simp: masters_def bootstrap_row_def)
  then show ?thesis using p m opens v by auto
qed

theorem boot_sound_witness:
  "\<exists>s m. boot demo_crates calm_env (\<lambda>_. None) True (Ok demo_db) = Ok s
     \<and> masters (app_db s) = [m] \<and> app_master_pin s = Some (key_id m)"
proof -
  have "is_ok (boot demo_crates calm_env (\<lambda>_. None) True (Ok demo_db))" by code_simp
  then obtain s where s: "boot demo_crates calm_env (\<lambda>_. None) True (Ok demo_db) = Ok s" by (auto simp: is_ok_iff)
  have "db_others calm_env = (\<lambda>_ d. d)" by (simp add: calm_env_def)
  from boot_sound [OF this s] s show ?thesis by blast
qed

lemma bootstrap_row_valid: "db_valid (migrated\<lparr>api_keys := [bootstrap_row L E env key sealed]\<rparr>)"
  by (simp add: migrated_def bootstrap_row_def db_valid_def api_keys_valid_def endpoints_valid_def
      permissions_valid_def audit_logs_valid_def masters_def)

text \<open>
  A first start succeeds. On a freshly migrated database, with a configuration, an initial key and
  an encryption key the checks accept, and a database that answers, the process comes up with one
  key, the Master, made of the configured or generated key text, whose signing secret opens to the
  configured or generated one.
\<close>

lemma boot_fresh:
  assumes alone: "db_others E = (\<lambda>_ d. d)" and up: "db_fails E = (\<lambda>_. False)"
    and crypto: "hex_laws (crypto_crate L)" "aead_correct (crypto_crate L)" "length (nonce_bytes E) = NONCE_LEN"
    and config: "runtime_config_from_env (ipnet_crate L) env = Ok config"
      "validate_initial_master_key (env ''INITIAL_MASTER_KEY'') = Ok initial"
      "cipher_from_env (crypto_crate L) env = Ok cipher"
    and secret: "is_utf8 (bootstrap_secret L E env)"
      "seal (crypto_crate L) (nonce_bytes E) cipher (bootstrap_secret L E env) = Ok sealed"
  shows "\<exists>s. boot L E env http_builds (Ok migrated) = Ok s
    \<and> api_keys (app_db s) = [bootstrap_row L E env (bootstrap_key_text L E initial) sealed]
    \<and> app_master_pin s = Some (fresh_id E)
    \<and> open_secret (crypto_crate L) cipher sealed = Ok (bootstrap_secret L E env)"
proof -
  let ?row = "bootstrap_row L E env (bootstrap_key_text L E initial) sealed"
  let ?d = "migrated\<lparr>api_keys := [?row]\<rparr>"
  have opens: "open_secret (crypto_crate L) cipher sealed = Ok (bootstrap_secret L E env)"
    using seal_opens [OF crypto(1,2) secret(1) crypto(3) secret(2)] by blast
  have row: "is_master ?row" "signing_secret ?row = Some sealed" "key_id ?row = fresh_id E"
    by (simp_all add: bootstrap_row_def)
  have empty: "api_keys migrated = []" "find_master migrated = None" "find_master ?d = Some ?row" "masters ?d = [?row]"
    using row by (simp_all add: migrated_def find_master_def masters_def)
  have 1: "bootstrap_master_key L E env cipher initial (migrated, 0) = (Ok (), (?d, 2))"
    using bootstrap_row_valid [of L E env "bootstrap_key_text L E initial" sealed]
    by (simp add: bootstrap_master_key_def exec_conn_def alone up query_def empty Let_def secret(2) insert_key_def
        enforce_def numeral_2_eq_2)
  have 2: "verify_encryption_key L E cipher (?d, 2) = (Ok (), (?d, 3))"
    by (simp add: verify_encryption_key_def exec_conn_def alone up query_def empty row opens)
  have idx: "has_index ''api_keys'' MARKER_INDEX ?d = Ok (True, ?d)"
    by (simp add: has_index_def index_catalog_query_def migrated_def)
  define s0 where "s0 = (app_state_new (clock E) http_builds ?d config dns_resolver_new cipher)\<lparr>statements := 3\<rparr>"
  have s0: "app_db s0 = ?d" "app_master_pin s0 = None" by (simp_all add: s0_def app_state_new_def)
  have 3: "pin_at_boot E s0 = (Ok (fresh_id E), s0\<lparr>statements := Suc (Suc (statements s0)), app_master_pin := Some (fresh_id E)\<rparr>)"
    using s0 by (simp add: pin_at_boot_def resolve_inner_def exec_unfold query_def alone up Let_def set_pin_def idx empty row)
  have "boot L E env http_builds (Ok migrated)
      = Ok (s0\<lparr>statements := Suc (Suc (statements s0)), app_master_pin := Some (fresh_id E)\<rparr>)"
    by (simp add: boot_def config 1 2 3 s0_def [symmetric])
  then show ?thesis using s0 opens by simp
qed

text \<open>A first start with nothing configured and the demonstration crates.\<close>

definition demo_boot_env :: request_env where
  "demo_boot_env = calm_env\<lparr>nonce_bytes := replicate 24 CHR ''n''\<rparr>"

lemma demo_boot_accepted:
  "db_others demo_boot_env = (\<lambda>_ d. d)" "db_fails demo_boot_env = (\<lambda>_. False)"
  "hex_laws (crypto_crate demo_crates)" "aead_correct (crypto_crate demo_crates)"
  "length (nonce_bytes demo_boot_env) = NONCE_LEN" "fresh_id demo_boot_env = 100"
  "\<exists>config. runtime_config_from_env (ipnet_crate demo_crates) (\<lambda>_. None) = Ok config"
  "validate_initial_master_key None = Ok None" "cipher_from_env (crypto_crate demo_crates) (\<lambda>_. None) = Ok Plaintext"
  "is_utf8 (bootstrap_secret demo_crates demo_boot_env (\<lambda>_. None))"
  "\<exists>sealed. seal (crypto_crate demo_crates) (nonce_bytes demo_boot_env) Plaintext
     (bootstrap_secret demo_crates demo_boot_env (\<lambda>_. None)) = Ok sealed"
proof -
  have C: "crypto_crate demo_crates = demo_crypto" by (simp add: demo_crates_def)
  show "hex_laws (crypto_crate demo_crates)" "aead_correct (crypto_crate demo_crates)"
    unfolding C by (rule demo_hex.hex_laws_axioms, rule demo_aead)
  have "is_ok (runtime_config_from_env (ipnet_crate demo_crates) (\<lambda>_. None))" by code_simp
  then show "\<exists>config. runtime_config_from_env (ipnet_crate demo_crates) (\<lambda>_. None) = Ok config"
    by (simp add: is_ok_iff)
  show "is_utf8 (bootstrap_secret demo_crates demo_boot_env (\<lambda>_. None))" by (rule is_utf8_ascii) code_simp
  show "validate_initial_master_key None = Ok None" by code_simp
qed (simp_all add: demo_boot_env_def calm_env_def NONCE_LEN_def cipher_from_env_def seal_def)

end
