(* ===== verification/Schema.thy ===== *)
theory Schema
  imports Database "HOL-Library.Monad_Syntax"
begin

text \<open>
  The migrations of \<open>src/migration\<close> as the DDL statements they issue, and a catalogue of tables,
  indexes and rows the statements act on. The engine's constraints (new_column types, NOT NULL, primary
  keys, unique columns and indexes with NULLs distinct, foreign keys and their actions, the generated
  marker column) are checked on the catalogue generically, whatever the schema is. The entities of
  \<open>src/entities\<close> are written to rows and read back. The lemmas show that the migrations build the
  schema the rest of the development assumes: the catalogue's constraints are \<open>db_valid\<close>, and its
  referential actions are those of \<open>delete_key_by_id\<close>.

  The migration runner is SeaORM's, a parameter \<open>up\<close> with its documented behaviour as the locale
  \<open>migrator\<close>: the migrations not yet recorded run in order, each is recorded when all its statements
  succeeded, and the first failure ends the run.
\<close>

subsection \<open>Columns, tables and indexes\<close>

datatype sql_type = SqlUuid | SqlString | SqlText | SqlBoolean | SqlInteger | SqlBigInteger | SqlDateTime

datatype sql_value = VUuid uuid | VText string | VBool bool | VInt int | VTime datetime

text \<open>A cell is NULL or a value; a row is its cells by column name.\<close>

type_synonym sql_cell = "sql_value option"
type_synonym sql_row = "(string \<times> sql_cell) list"

fun has_type :: "sql_type \<Rightarrow> sql_value \<Rightarrow> bool" where
  "has_type SqlUuid (VUuid _) = True"
| "has_type SqlString (VText _) = True"
| "has_type SqlText (VText _) = True"
| "has_type SqlBoolean (VBool _) = True"
| "has_type SqlInteger (VInt i) = (- (2 ^ 31) \<le> i \<and> i < 2 ^ 31)"
| "has_type SqlBigInteger (VInt i) = (- (2 ^ 63) \<le> i \<and> i < 2 ^ 63)"
| "has_type SqlDateTime (VTime _) = True"
| "has_type _ _ = False"

text \<open>\<open>col_generated\<close> names the boolean column a generated column is computed from.\<close>

record column_def =
  col_name :: string
  col_type :: sql_type
  col_not_null :: bool
  col_primary :: bool
  col_unique :: bool
  col_default :: "sql_value option"
  col_generated :: "string option"

definition new_column :: "string \<Rightarrow> sql_type \<Rightarrow> column_def" where
  "new_column n ty = \<lparr>col_name = n, col_type = ty, col_not_null = False, col_primary = False,
     col_unique = False, col_default = None, col_generated = None\<rparr>"

definition not_null :: "column_def \<Rightarrow> column_def" where
  "not_null c = c\<lparr>col_not_null := True\<rparr>"

definition primary_key :: "column_def \<Rightarrow> column_def" where
  "primary_key c = c\<lparr>col_primary := True\<rparr>"

definition unique_key :: "column_def \<Rightarrow> column_def" where
  "unique_key c = c\<lparr>col_unique := True\<rparr>"

definition with_default :: "sql_value \<Rightarrow> column_def \<Rightarrow> column_def" where
  "with_default v c = c\<lparr>col_default := Some v\<rparr>"

datatype fk_action = NoAction | SetNull | Cascade

record foreign_key =
  fk_name :: string
  fk_column :: string
  fk_table :: string
  fk_target :: string
  fk_on_delete :: fk_action
  fk_on_update :: fk_action

record table_def =
  tbl_name :: string
  tbl_columns :: "column_def list"
  tbl_foreign_keys :: "foreign_key list"

record index_def =
  idx_name :: string
  idx_table :: string
  idx_columns :: "string list"
  idx_unique :: bool

definition index_on :: "string \<Rightarrow> string \<Rightarrow> string list \<Rightarrow> index_def" where
  "index_on n t cols = \<lparr>idx_name = n, idx_table = t, idx_columns = cols, idx_unique = False\<rparr>"

definition unique_index_on :: "string \<Rightarrow> string \<Rightarrow> string list \<Rightarrow> index_def" where
  "unique_index_on n t cols = \<lparr>idx_name = n, idx_table = t, idx_columns = cols, idx_unique = True\<rparr>"

text \<open>The statements of \<open>SchemaManager\<close> the migrations use; \<open>CreateTable True\<close> is \<open>IF NOT EXISTS\<close>.\<close>

datatype ddl =
    CreateTable bool table_def
  | CreateIndex index_def
  | ExecuteRaw string
  | AddColumn string column_def
  | DropColumn string string
  | DropTable string

record catalog =
  cat_backend :: backend
  cat_tables :: "table_def list"
  cat_indexes :: "index_def list"
  cat_rows :: "(string \<times> sql_row list) list"
  cat_applied :: "string list"

definition empty_catalog :: "backend \<Rightarrow> catalog" where
  "empty_catalog b = \<lparr>cat_backend = b, cat_tables = [], cat_indexes = [], cat_rows = [], cat_applied = []\<rparr>"

subsection \<open>The migrations\<close>

text \<open>The identifiers of \<open>DeriveIden\<close>: the table's name and each variant's in snake case.\<close>

datatype ApiKeys =
    ApiKeys_Table | ApiKeys_Id | ApiKeys_Name | ApiKeys_Prefix | ApiKeys_KeyHash | ApiKeys_SigningSecret
  | ApiKeys_BoundIps | ApiKeys_IsMaster | ApiKeys_CanManageKeys | ApiKeys_ParentKeyId | ApiKeys_OwnerKeyId
  | ApiKeys_CreatedAt | ApiKeys_UpdatedAt

primrec ApiKeys_iden :: "ApiKeys \<Rightarrow> string" where
  "ApiKeys_iden ApiKeys_Table = ''api_keys''"
| "ApiKeys_iden ApiKeys_Id = ''id''"
| "ApiKeys_iden ApiKeys_Name = ''name''"
| "ApiKeys_iden ApiKeys_Prefix = ''prefix''"
| "ApiKeys_iden ApiKeys_KeyHash = ''key_hash''"
| "ApiKeys_iden ApiKeys_SigningSecret = ''signing_secret''"
| "ApiKeys_iden ApiKeys_BoundIps = ''bound_ips''"
| "ApiKeys_iden ApiKeys_IsMaster = ''is_master''"
| "ApiKeys_iden ApiKeys_CanManageKeys = ''can_manage_keys''"
| "ApiKeys_iden ApiKeys_ParentKeyId = ''parent_key_id''"
| "ApiKeys_iden ApiKeys_OwnerKeyId = ''owner_key_id''"
| "ApiKeys_iden ApiKeys_CreatedAt = ''created_at''"
| "ApiKeys_iden ApiKeys_UpdatedAt = ''updated_at''"

datatype Endpoints =
    Endpoints_Table | Endpoints_Id | Endpoints_OwnerKeyId | Endpoints_Name | Endpoints_Description
  | Endpoints_TokenSecret | Endpoints_VaultGroups | Endpoints_TtlSeconds | Endpoints_BoundIps
  | Endpoints_FilterRfc1918 | Endpoints_FilterBogons | Endpoints_FilterLoopback | Endpoints_LastSyncedAt
  | Endpoints_CreatedAt | Endpoints_UpdatedAt | Endpoints_MaxAgeSeconds

primrec Endpoints_iden :: "Endpoints \<Rightarrow> string" where
  "Endpoints_iden Endpoints_Table = ''endpoints''"
| "Endpoints_iden Endpoints_Id = ''id''"
| "Endpoints_iden Endpoints_OwnerKeyId = ''owner_key_id''"
| "Endpoints_iden Endpoints_Name = ''name''"
| "Endpoints_iden Endpoints_Description = ''description''"
| "Endpoints_iden Endpoints_TokenSecret = ''token_secret''"
| "Endpoints_iden Endpoints_VaultGroups = ''vault_groups''"
| "Endpoints_iden Endpoints_TtlSeconds = ''ttl_seconds''"
| "Endpoints_iden Endpoints_BoundIps = ''bound_ips''"
| "Endpoints_iden Endpoints_FilterRfc1918 = ''filter_rfc1918''"
| "Endpoints_iden Endpoints_FilterBogons = ''filter_bogons''"
| "Endpoints_iden Endpoints_FilterLoopback = ''filter_loopback''"
| "Endpoints_iden Endpoints_LastSyncedAt = ''last_synced_at''"
| "Endpoints_iden Endpoints_CreatedAt = ''created_at''"
| "Endpoints_iden Endpoints_UpdatedAt = ''updated_at''"
| "Endpoints_iden Endpoints_MaxAgeSeconds = ''max_age_seconds''"

datatype AuditLogs =
    AuditLogs_Table | AuditLogs_Id | AuditLogs_ApiKeyId | AuditLogs_ApiKeyName | AuditLogs_ApiKeyPrefix
  | AuditLogs_ClientIp | AuditLogs_Action | AuditLogs_TargetResource | AuditLogs_Details | AuditLogs_Timestamp

primrec AuditLogs_iden :: "AuditLogs \<Rightarrow> string" where
  "AuditLogs_iden AuditLogs_Table = ''audit_logs''"
| "AuditLogs_iden AuditLogs_Id = ''id''"
| "AuditLogs_iden AuditLogs_ApiKeyId = ''api_key_id''"
| "AuditLogs_iden AuditLogs_ApiKeyName = ''api_key_name''"
| "AuditLogs_iden AuditLogs_ApiKeyPrefix = ''api_key_prefix''"
| "AuditLogs_iden AuditLogs_ClientIp = ''client_ip''"
| "AuditLogs_iden AuditLogs_Action = ''action''"
| "AuditLogs_iden AuditLogs_TargetResource = ''target_resource''"
| "AuditLogs_iden AuditLogs_Details = ''details''"
| "AuditLogs_iden AuditLogs_Timestamp = ''timestamp''"

datatype VaultGroupPermissions =
    VaultGroupPermissions_Table | VaultGroupPermissions_Id | VaultGroupPermissions_ApiKeyId
  | VaultGroupPermissions_VaultGroupId | VaultGroupPermissions_VaultGroupName | VaultGroupPermissions_CreatedAt

primrec VaultGroupPermissions_iden :: "VaultGroupPermissions \<Rightarrow> string" where
  "VaultGroupPermissions_iden VaultGroupPermissions_Table = ''vault_group_permissions''"
| "VaultGroupPermissions_iden VaultGroupPermissions_Id = ''id''"
| "VaultGroupPermissions_iden VaultGroupPermissions_ApiKeyId = ''api_key_id''"
| "VaultGroupPermissions_iden VaultGroupPermissions_VaultGroupId = ''vault_group_id''"
| "VaultGroupPermissions_iden VaultGroupPermissions_VaultGroupName = ''vault_group_name''"
| "VaultGroupPermissions_iden VaultGroupPermissions_CreatedAt = ''created_at''"

lemmas iden_simps =
  ApiKeys_iden.simps Endpoints_iden.simps AuditLogs_iden.simps VaultGroupPermissions_iden.simps

definition MARKER_COLUMN :: string where "MARKER_COLUMN = ''master_marker''"

definition add_marker_column :: "backend \<Rightarrow> string" where
  "add_marker_column b =
     (let expression = ''CASE WHEN is_master THEN 1 ELSE NULL END'';
          storage = (if b = Postgres then ''STORED'' else ''VIRTUAL'')
      in ''ALTER TABLE api_keys ADD COLUMN '' @ MARKER_COLUMN @ '' INTEGER GENERATED ALWAYS AS (''
         @ expression @ '') '' @ storage)"

definition api_keys_create :: table_def where
  "api_keys_create =
     \<lparr>tbl_name = ApiKeys_iden ApiKeys_Table,
      tbl_columns =
        [primary_key (not_null (new_column (ApiKeys_iden ApiKeys_Id) SqlUuid)),
         not_null (new_column (ApiKeys_iden ApiKeys_Name) SqlString),
         not_null (new_column (ApiKeys_iden ApiKeys_Prefix) SqlString),
         unique_key (not_null (new_column (ApiKeys_iden ApiKeys_KeyHash) SqlString)),
         new_column (ApiKeys_iden ApiKeys_SigningSecret) SqlText,
         new_column (ApiKeys_iden ApiKeys_BoundIps) SqlText,
         with_default (VBool False) (not_null (new_column (ApiKeys_iden ApiKeys_IsMaster) SqlBoolean)),
         with_default (VBool False) (not_null (new_column (ApiKeys_iden ApiKeys_CanManageKeys) SqlBoolean)),
         new_column (ApiKeys_iden ApiKeys_ParentKeyId) SqlUuid,
         new_column (ApiKeys_iden ApiKeys_OwnerKeyId) SqlUuid,
         not_null (new_column (ApiKeys_iden ApiKeys_CreatedAt) SqlDateTime),
         not_null (new_column (ApiKeys_iden ApiKeys_UpdatedAt) SqlDateTime)],
      tbl_foreign_keys = []\<rparr>"

definition endpoints_create :: table_def where
  "endpoints_create =
     \<lparr>tbl_name = Endpoints_iden Endpoints_Table,
      tbl_columns =
        [primary_key (not_null (new_column (Endpoints_iden Endpoints_Id) SqlUuid)),
         new_column (Endpoints_iden Endpoints_OwnerKeyId) SqlUuid,
         not_null (new_column (Endpoints_iden Endpoints_Name) SqlString),
         new_column (Endpoints_iden Endpoints_Description) SqlText,
         unique_key (not_null (new_column (Endpoints_iden Endpoints_TokenSecret) SqlString)),
         not_null (new_column (Endpoints_iden Endpoints_VaultGroups) SqlText),
         with_default (VInt 3600) (not_null (new_column (Endpoints_iden Endpoints_TtlSeconds) SqlInteger)),
         new_column (Endpoints_iden Endpoints_BoundIps) SqlText,
         with_default (VBool False) (not_null (new_column (Endpoints_iden Endpoints_FilterRfc1918) SqlBoolean)),
         with_default (VBool False) (not_null (new_column (Endpoints_iden Endpoints_FilterBogons) SqlBoolean)),
         with_default (VBool False) (not_null (new_column (Endpoints_iden Endpoints_FilterLoopback) SqlBoolean)),
         new_column (Endpoints_iden Endpoints_LastSyncedAt) SqlDateTime,
         not_null (new_column (Endpoints_iden Endpoints_CreatedAt) SqlDateTime),
         not_null (new_column (Endpoints_iden Endpoints_UpdatedAt) SqlDateTime)],
      tbl_foreign_keys =
        [\<lparr>fk_name = ''fk_endpoints_owner_key_id'', fk_column = Endpoints_iden Endpoints_OwnerKeyId,
          fk_table = ApiKeys_iden ApiKeys_Table, fk_target = ApiKeys_iden ApiKeys_Id,
          fk_on_delete = SetNull, fk_on_update = NoAction\<rparr>]\<rparr>"

definition initial_schema_up :: "backend \<Rightarrow> ddl list" where
  "initial_schema_up b =
     [CreateTable True api_keys_create,
      CreateIndex (index_on ''idx_api_keys_prefix'' (ApiKeys_iden ApiKeys_Table) [ApiKeys_iden ApiKeys_Prefix]),
      CreateIndex (index_on ''idx_api_keys_parent_key_id'' (ApiKeys_iden ApiKeys_Table) [ApiKeys_iden ApiKeys_ParentKeyId]),
      CreateIndex (index_on ''idx_api_keys_owner_key_id'' (ApiKeys_iden ApiKeys_Table) [ApiKeys_iden ApiKeys_OwnerKeyId]),
      ExecuteRaw (add_marker_column b),
      CreateIndex (unique_index_on MARKER_INDEX (ApiKeys_iden ApiKeys_Table) [MARKER_COLUMN]),
      CreateTable True endpoints_create,
      CreateIndex (index_on ''idx_endpoints_owner_key_id'' (Endpoints_iden Endpoints_Table) [Endpoints_iden Endpoints_OwnerKeyId]),
      CreateIndex (unique_index_on ''idx_endpoints_token_secret'' (Endpoints_iden Endpoints_Table) [Endpoints_iden Endpoints_TokenSecret])]"

definition initial_schema_down :: "ddl list" where
  "initial_schema_down = [DropTable (Endpoints_iden Endpoints_Table), DropTable (ApiKeys_iden ApiKeys_Table)]"

definition audit_logs_create :: table_def where
  "audit_logs_create =
     \<lparr>tbl_name = AuditLogs_iden AuditLogs_Table,
      tbl_columns =
        [primary_key (not_null (new_column (AuditLogs_iden AuditLogs_Id) SqlUuid)),
         new_column (AuditLogs_iden AuditLogs_ApiKeyId) SqlUuid,
         not_null (new_column (AuditLogs_iden AuditLogs_ApiKeyName) SqlString),
         not_null (new_column (AuditLogs_iden AuditLogs_ApiKeyPrefix) SqlString),
         not_null (new_column (AuditLogs_iden AuditLogs_ClientIp) SqlString),
         not_null (new_column (AuditLogs_iden AuditLogs_Action) SqlString),
         new_column (AuditLogs_iden AuditLogs_TargetResource) SqlString,
         new_column (AuditLogs_iden AuditLogs_Details) SqlText,
         not_null (new_column (AuditLogs_iden AuditLogs_Timestamp) SqlDateTime)],
      tbl_foreign_keys =
        [\<lparr>fk_name = ''fk_audit_logs_api_key_id'', fk_column = AuditLogs_iden AuditLogs_ApiKeyId,
          fk_table = ApiKeys_iden ApiKeys_Table, fk_target = ApiKeys_iden ApiKeys_Id,
          fk_on_delete = SetNull, fk_on_update = NoAction\<rparr>]\<rparr>"

definition add_audit_logs_up :: "ddl list" where
  "add_audit_logs_up =
     [CreateTable True audit_logs_create,
      CreateIndex (index_on ''idx_audit_logs_action'' (AuditLogs_iden AuditLogs_Table) [AuditLogs_iden AuditLogs_Action]),
      CreateIndex (index_on ''idx_audit_logs_timestamp'' (AuditLogs_iden AuditLogs_Table) [AuditLogs_iden AuditLogs_Timestamp]),
      CreateIndex (index_on ''idx_audit_logs_api_key_id'' (AuditLogs_iden AuditLogs_Table) [AuditLogs_iden AuditLogs_ApiKeyId])]"

definition add_audit_logs_down :: "ddl list" where
  "add_audit_logs_down = [DropTable (AuditLogs_iden AuditLogs_Table)]"

definition vault_group_permissions_create :: table_def where
  "vault_group_permissions_create =
     \<lparr>tbl_name = VaultGroupPermissions_iden VaultGroupPermissions_Table,
      tbl_columns =
        [primary_key (not_null (new_column (VaultGroupPermissions_iden VaultGroupPermissions_Id) SqlUuid)),
         not_null (new_column (VaultGroupPermissions_iden VaultGroupPermissions_ApiKeyId) SqlUuid),
         not_null (new_column (VaultGroupPermissions_iden VaultGroupPermissions_VaultGroupId) SqlUuid),
         not_null (new_column (VaultGroupPermissions_iden VaultGroupPermissions_VaultGroupName) SqlString),
         not_null (new_column (VaultGroupPermissions_iden VaultGroupPermissions_CreatedAt) SqlDateTime)],
      tbl_foreign_keys =
        [\<lparr>fk_name = ''fk_vault_group_permissions_api_key_id'',
          fk_column = VaultGroupPermissions_iden VaultGroupPermissions_ApiKeyId,
          fk_table = ApiKeys_iden ApiKeys_Table, fk_target = ApiKeys_iden ApiKeys_Id,
          fk_on_delete = Cascade, fk_on_update = Cascade\<rparr>]\<rparr>"

definition add_vault_group_permissions_up :: "ddl list" where
  "add_vault_group_permissions_up =
     [CreateTable True vault_group_permissions_create,
      CreateIndex (unique_index_on ''idx_vault_group_permissions_key_group''
        (VaultGroupPermissions_iden VaultGroupPermissions_Table)
        [VaultGroupPermissions_iden VaultGroupPermissions_ApiKeyId,
         VaultGroupPermissions_iden VaultGroupPermissions_VaultGroupId])]"

definition add_vault_group_permissions_down :: "ddl list" where
  "add_vault_group_permissions_down = [DropTable (VaultGroupPermissions_iden VaultGroupPermissions_Table)]"

definition max_age_column :: column_def where
  "max_age_column =
     with_default (VInt 0) (not_null (new_column (Endpoints_iden Endpoints_MaxAgeSeconds) SqlBigInteger))"

definition add_endpoint_max_age_seconds_up :: "ddl list" where
  "add_endpoint_max_age_seconds_up = [AddColumn (Endpoints_iden Endpoints_Table) max_age_column]"

definition add_endpoint_max_age_seconds_down :: "ddl list" where
  "add_endpoint_max_age_seconds_down =
     [DropColumn (Endpoints_iden Endpoints_Table) (Endpoints_iden Endpoints_MaxAgeSeconds)]"

text \<open>\<open>Migrator::migrations\<close>: a migration is known by the name of its file.\<close>

record migration =
  mig_name :: string
  mig_up :: "ddl list"
  mig_down :: "ddl list"

definition migrations :: "backend \<Rightarrow> migration list" where
  "migrations b =
     [\<lparr>mig_name = ''m20260811_115204_initial_schema'', mig_up = initial_schema_up b, mig_down = initial_schema_down\<rparr>,
      \<lparr>mig_name = ''m20260811_152352_add_audit_logs'', mig_up = add_audit_logs_up, mig_down = add_audit_logs_down\<rparr>,
      \<lparr>mig_name = ''m20260825_075608_add_vault_group_permissions'', mig_up = add_vault_group_permissions_up,
       mig_down = add_vault_group_permissions_down\<rparr>,
      \<lparr>mig_name = ''m20260826_231500_add_endpoint_max_age_seconds'', mig_up = add_endpoint_max_age_seconds_up,
       mig_down = add_endpoint_max_age_seconds_down\<rparr>]"

subsection \<open>What the engine does\<close>

definition cell :: "sql_row \<Rightarrow> string \<Rightarrow> sql_cell" where
  "cell r c = (case map_of r c of Some v \<Rightarrow> v | None \<Rightarrow> None)"

definition column_value :: "column_def \<Rightarrow> sql_row \<Rightarrow> sql_cell" where
  "column_value c r =
     (case col_generated c of
        None \<Rightarrow> cell r (col_name c)
      | Some source \<Rightarrow> if cell r source = Some (VBool True) then Some (VInt 1) else None)"

definition find_column :: "table_def \<Rightarrow> string \<Rightarrow> column_def option" where
  "find_column t n = find (\<lambda>c. col_name c = n) (tbl_columns t)"

definition table_cell :: "table_def \<Rightarrow> sql_row \<Rightarrow> string \<Rightarrow> sql_cell" where
  "table_cell t r n = (case find_column t n of None \<Rightarrow> None | Some c \<Rightarrow> column_value c r)"

text \<open>A unique constraint compares the keys without a NULL.\<close>

definition key_values :: "table_def \<Rightarrow> string list \<Rightarrow> sql_row list \<Rightarrow> sql_cell list list" where
  "key_values t cols rows = filter (\<lambda>vs. None \<notin> set vs) (map (\<lambda>r. map (table_cell t r) cols) rows)"

definition unique_over :: "table_def \<Rightarrow> string list \<Rightarrow> sql_row list \<Rightarrow> bool" where
  "unique_over t cols rows \<longleftrightarrow> distinct (key_values t cols rows)"

definition row_conforms :: "table_def \<Rightarrow> sql_row \<Rightarrow> bool" where
  "row_conforms t r \<longleftrightarrow>
     map fst r = map col_name (filter (\<lambda>c. col_generated c = None) (tbl_columns t))
     \<and> list_all (\<lambda>c. case column_value c r of None \<Rightarrow> \<not> col_not_null c | Some v \<Rightarrow> has_type (col_type c) v)
         (tbl_columns t)"

definition find_table :: "string \<Rightarrow> catalog \<Rightarrow> table_def option" where
  "find_table n cat = find (\<lambda>t. tbl_name t = n) (cat_tables cat)"

definition rows_of :: "catalog \<Rightarrow> string \<Rightarrow> sql_row list" where
  "rows_of cat n = (case map_of (cat_rows cat) n of Some rows \<Rightarrow> rows | None \<Rightarrow> [])"

definition fk_holds :: "catalog \<Rightarrow> table_def \<Rightarrow> foreign_key \<Rightarrow> bool" where
  "fk_holds cat t fk \<longleftrightarrow>
     list_all (\<lambda>r. table_cell t r (fk_column fk) = None
         \<or> table_cell t r (fk_column fk) \<in> set (map (\<lambda>q. cell q (fk_target fk)) (rows_of cat (fk_table fk))))
       (rows_of cat (tbl_name t))"

definition table_holds :: "catalog \<Rightarrow> table_def \<Rightarrow> bool" where
  "table_holds cat t \<longleftrightarrow>
     list_all (row_conforms t) (rows_of cat (tbl_name t))
     \<and> list_all (\<lambda>c. unique_over t [col_name c] (rows_of cat (tbl_name t)))
         (filter (\<lambda>c. col_primary c \<or> col_unique c) (tbl_columns t))
     \<and> list_all (\<lambda>i. unique_over t (idx_columns i) (rows_of cat (tbl_name t)))
         (filter (\<lambda>i. idx_table i = tbl_name t \<and> idx_unique i) (cat_indexes cat))
     \<and> list_all (fk_holds cat t) (tbl_foreign_keys t)"

definition constraints_hold :: "catalog \<Rightarrow> bool" where
  "constraints_hold cat \<longleftrightarrow> list_all (table_holds cat) (cat_tables cat)"

text \<open>
  A statement, or the engine's refusal. The one raw statement of the migrations adds the generated
  column; a table that others reference is not dropped, and no column that a key or an index is on.
\<close>

definition marker_column_def :: column_def where
  "marker_column_def = (new_column MARKER_COLUMN SqlInteger)\<lparr>col_generated := Some (ApiKeys_iden ApiKeys_IsMaster)\<rparr>"

definition alter_columns :: "string \<Rightarrow> (column_def list \<Rightarrow> column_def list) \<Rightarrow> catalog \<Rightarrow> catalog" where
  "alter_columns n f cat =
     cat\<lparr>cat_tables := map (\<lambda>t. if tbl_name t = n then t\<lparr>tbl_columns := f (tbl_columns t)\<rparr> else t) (cat_tables cat)\<rparr>"

definition alter_rows :: "string \<Rightarrow> (sql_row \<Rightarrow> sql_row) \<Rightarrow> catalog \<Rightarrow> catalog" where
  "alter_rows n f cat = cat\<lparr>cat_rows := map (\<lambda>(m, rows). (m, if m = n then map f rows else rows)) (cat_rows cat)\<rparr>"

definition add_column :: "string \<Rightarrow> column_def \<Rightarrow> catalog \<Rightarrow> (catalog, db_err) result" where
  "add_column n c cat =
     (case find_table n cat of
        None \<Rightarrow> Err (DbCustom ''no such table'')
      | Some t \<Rightarrow>
          if find_column t (col_name c) \<noteq> None then Err (DbCustom ''duplicate column name'')
          else if col_not_null c \<and> col_default c = None \<and> rows_of cat n \<noteq> []
          then Err (DbCustom ''cannot add a NOT NULL column with default value NULL'')
          else let cat' = alter_columns n (\<lambda>cs. cs @ [c]) cat
               in Ok (if col_generated c = None then alter_rows n (\<lambda>r. r @ [(col_name c, col_default c)]) cat' else cat'))"

definition drop_column :: "string \<Rightarrow> string \<Rightarrow> catalog \<Rightarrow> (catalog, db_err) result" where
  "drop_column n c cat =
     (case find_table n cat of
        None \<Rightarrow> Err (DbCustom ''no such table'')
      | Some t \<Rightarrow>
         (case find_column t c of
            None \<Rightarrow> Err (DbCustom ''no such column'')
          | Some cd \<Rightarrow>
              if col_primary cd \<or> col_unique cd
                \<or> list_ex (\<lambda>i. idx_table i = n \<and> c \<in> set (idx_columns i)) (cat_indexes cat)
                \<or> list_ex (\<lambda>fk. fk_column fk = c) (tbl_foreign_keys t)
              then Err (DbCustom ''error in table after drop column'')
              else Ok (alter_rows n (filter (\<lambda>(m, _). m \<noteq> c))
                     (alter_columns n (filter (\<lambda>cd. col_name cd \<noteq> c)) cat))))"

definition create_table :: "bool \<Rightarrow> table_def \<Rightarrow> catalog \<Rightarrow> (catalog, db_err) result" where
  "create_table if_not_exists t cat =
     (if find_table (tbl_name t) cat \<noteq> None
      then if if_not_exists then Ok cat else Err (DbCustom ''table already exists'')
      else Ok (cat\<lparr>cat_tables := cat_tables cat @ [t], cat_rows := cat_rows cat @ [(tbl_name t, [])]\<rparr>))"

definition create_index :: "index_def \<Rightarrow> catalog \<Rightarrow> (catalog, db_err) result" where
  "create_index i cat =
     (case find_table (idx_table i) cat of
        None \<Rightarrow> Err (DbCustom ''no such table'')
      | Some t \<Rightarrow>
          if list_ex (\<lambda>j. idx_name j = idx_name i) (cat_indexes cat) then Err (DbCustom ''index already exists'')
          else if list_ex (\<lambda>c. find_column t c = None) (idx_columns i) then Err (DbCustom ''no such column'')
          else if idx_unique i \<and> \<not> unique_over t (idx_columns i) (rows_of cat (idx_table i))
          then Err (DbUnique (idx_name i))
          else Ok (cat\<lparr>cat_indexes := cat_indexes cat @ [i]\<rparr>))"

definition drop_table :: "string \<Rightarrow> catalog \<Rightarrow> (catalog, db_err) result" where
  "drop_table n cat =
     (if find_table n cat = None then Err (DbCustom ''no such table'')
      else if list_ex (\<lambda>t. tbl_name t \<noteq> n \<and> list_ex (\<lambda>fk. fk_table fk = n) (tbl_foreign_keys t)) (cat_tables cat)
      then Err (DbForeignKey n)
      else Ok (cat\<lparr>cat_tables := filter (\<lambda>t. tbl_name t \<noteq> n) (cat_tables cat),
                   cat_indexes := filter (\<lambda>i. idx_table i \<noteq> n) (cat_indexes cat),
                   cat_rows := filter (\<lambda>(m, _). m \<noteq> n) (cat_rows cat)\<rparr>))"

primrec exec_ddl :: "ddl \<Rightarrow> catalog \<Rightarrow> (catalog, db_err) result" where
  "exec_ddl (CreateTable if_not_exists t) cat = create_table if_not_exists t cat"
| "exec_ddl (CreateIndex i) cat = create_index i cat"
| "exec_ddl (ExecuteRaw sql) cat =
     (if sql = add_marker_column (cat_backend cat) then add_column (ApiKeys_iden ApiKeys_Table) marker_column_def cat
      else Err (DbCustom ''syntax error''))"
| "exec_ddl (AddColumn n c) cat = add_column n c cat"
| "exec_ddl (DropColumn n c) cat = drop_column n c cat"
| "exec_ddl (DropTable n) cat = drop_table n cat"

text \<open>The body of a migration: its statements one after the other, each followed by \<open>?\<close>.\<close>

fun exec_ddls :: "ddl list \<Rightarrow> catalog \<Rightarrow> (unit, db_err) result \<times> catalog" where
  "exec_ddls [] cat = (Ok (), cat)"
| "exec_ddls (x # xs) cat =
     (case exec_ddl x cat of Err e \<Rightarrow> (Err e, cat) | Ok cat' \<Rightarrow> exec_ddls xs cat')"

definition record_applied :: "string \<Rightarrow> catalog \<Rightarrow> catalog" where
  "record_applied n cat = cat\<lparr>cat_applied := cat_applied cat @ [n]\<rparr>"

text \<open>
  \<open>MigratorTrait::up\<close> as documented. What a migration that fails leaves of its earlier statements
  is the engine's affair and not assumed.
\<close>

locale migrator =
  fixes up :: "migration list \<Rightarrow> catalog \<Rightarrow> (unit, db_err) result \<times> catalog"
  assumes up_done: "up [] cat = (Ok (), cat)"
    and up_skips: "mig_name m \<in> set (cat_applied cat) \<Longrightarrow> up (m # ms) cat = up ms cat"
    and up_applies: "mig_name m \<notin> set (cat_applied cat) \<Longrightarrow> exec_ddls (mig_up m) cat = (Ok (), cat')
      \<Longrightarrow> up (m # ms) cat = up ms (record_applied (mig_name m) cat')"
    and up_fails: "mig_name m \<notin> set (cat_applied cat) \<Longrightarrow> exec_ddls (mig_up m) cat = (Err e, cat')
      \<Longrightarrow> fst (up (m # ms) cat) = Err e"

fun apply_pending :: "migration list \<Rightarrow> catalog \<Rightarrow> (unit, db_err) result \<times> catalog" where
  "apply_pending [] cat = (Ok (), cat)"
| "apply_pending (m # ms) cat =
     (if mig_name m \<in> set (cat_applied cat) then apply_pending ms cat
      else case exec_ddls (mig_up m) cat of
             (Err e, cat') \<Rightarrow> (Err e, cat')
           | (Ok _, cat') \<Rightarrow> apply_pending ms (record_applied (mig_name m) cat'))"

interpretation pending: migrator apply_pending
  by unfold_locales auto

definition run_migrations ::
    "(migration list \<Rightarrow> catalog \<Rightarrow> (unit, db_err) result \<times> catalog) \<Rightarrow> catalog
       \<Rightarrow> (unit, db_err) result \<times> catalog" where
  "run_migrations up cat = up (migrations (cat_backend cat)) cat"

context migrator
begin

lemma up_fst: "fst (up ms cat) = fst (apply_pending ms cat)"
proof (induction ms arbitrary: cat)
  case Nil
  then show ?case by (simp add: up_done)
next
  case (Cons m ms)
  obtain r cat' where x: "exec_ddls (mig_up m) cat = (r, cat')" by fastforce
  then show ?case using Cons up_skips up_applies up_fails by (cases r) auto
qed

lemma up_Ok: "fst (apply_pending ms cat) = Ok () \<Longrightarrow> up ms cat = apply_pending ms cat"
proof (induction ms arbitrary: cat)
  case Nil
  then show ?case by (simp add: up_done)
next
  case (Cons m ms)
  obtain r cat' where x: "exec_ddls (mig_up m) cat = (r, cat')" by fastforce
  then show ?case using Cons up_skips up_applies by (cases r) (auto split: if_splits)
qed

lemma run_Ok: "run_migrations apply_pending cat = (Ok (), cat') \<Longrightarrow> run_migrations up cat = (Ok (), cat')"
  by (simp add: run_migrations_def up_Ok)

lemma run_fst: "fst (run_migrations up cat) = fst (run_migrations apply_pending cat)"
  by (simp add: run_migrations_def up_fst)

end

subsection \<open>The entities as rows\<close>

definition null_or :: "('a \<Rightarrow> sql_value) \<Rightarrow> 'a option \<Rightarrow> sql_cell" where
  "null_or f x = map_option f x"

definition key_row :: "api_key \<Rightarrow> sql_row" where
  "key_row k =
     [(''id'', Some (VUuid (key_id k))), (''name'', Some (VText (key_name k))), (''prefix'', Some (VText (key_prefix k))),
      (''key_hash'', Some (VText (key_hash k))), (''signing_secret'', null_or VText (signing_secret k)),
      (''bound_ips'', null_or VText (key_bound_ips k)), (''is_master'', Some (VBool (is_master k))),
      (''can_manage_keys'', Some (VBool (can_manage_keys k))), (''parent_key_id'', null_or VUuid (parent_key_id k)),
      (''owner_key_id'', null_or VUuid (key_owner_key_id k)), (''created_at'', Some (VTime (key_created_at k))),
      (''updated_at'', Some (VTime (key_updated_at k)))]"

text \<open>An endpoint's row before the last migration, and with its column.\<close>

definition endpoint_row_v3 :: "endpoint \<Rightarrow> sql_row" where
  "endpoint_row_v3 e =
     [(''id'', Some (VUuid (ep_id e))), (''owner_key_id'', null_or VUuid (owner_key_id e)), (''name'', Some (VText (ep_name e))),
      (''description'', null_or VText (description e)), (''token_secret'', Some (VText (token_secret e))),
      (''vault_groups'', Some (VText (vault_groups e))), (''ttl_seconds'', Some (VInt (ttl_seconds e))),
      (''bound_ips'', null_or VText (ep_bound_ips e)), (''filter_rfc1918'', Some (VBool (filter_rfc1918 e))),
      (''filter_bogons'', Some (VBool (filter_bogons e))), (''filter_loopback'', Some (VBool (filter_loopback e))),
      (''last_synced_at'', null_or VTime (ep_last_synced_at e)), (''created_at'', Some (VTime (ep_created_at e))),
      (''updated_at'', Some (VTime (ep_updated_at e)))]"

definition endpoint_row :: "endpoint \<Rightarrow> sql_row" where
  "endpoint_row e = endpoint_row_v3 e @ [(''max_age_seconds'', Some (VInt (max_age_seconds e)))]"

definition audit_row :: "audit_log \<Rightarrow> sql_row" where
  "audit_row l =
     [(''id'', Some (VUuid (log_id l))), (''api_key_id'', null_or VUuid (log_api_key_id l)),
      (''api_key_name'', Some (VText (log_api_key_name l))), (''api_key_prefix'', Some (VText (log_api_key_prefix l))),
      (''client_ip'', Some (VText (log_client_ip l))), (''action'', Some (VText (log_action l))),
      (''target_resource'', null_or VText (target_resource l)), (''details'', null_or VText (log_details l)),
      (''timestamp'', Some (VTime (log_timestamp l)))]"

definition permission_row :: "vault_group_permission \<Rightarrow> sql_row" where
  "permission_row p =
     [(''id'', Some (VUuid (perm_id p))), (''api_key_id'', Some (VUuid (perm_api_key_id p))),
      (''vault_group_id'', Some (VUuid (vault_group_id p))), (''vault_group_name'', Some (VText (vault_group_name p))),
      (''created_at'', Some (VTime (perm_created_at p)))]"

definition table_rows :: "database \<Rightarrow> (string \<times> sql_row list) list" where
  "table_rows d =
     [(''api_keys'', map key_row (api_keys d)), (''endpoints'', map endpoint_row (endpoints d)),
      (''audit_logs'', map audit_row (audit_logs d)),
      (''vault_group_permissions'', map permission_row (permissions d))]"

text \<open>Reading a row back, \<open>FromQueryResult\<close>: a column of another type or a NULL where the field is not
  an \<open>Option\<close> is an error.\<close>

definition get_uuid :: "sql_cell \<Rightarrow> uuid option" where
  "get_uuid x = (case x of Some (VUuid u) \<Rightarrow> Some u | _ \<Rightarrow> None)"

definition get_text :: "sql_cell \<Rightarrow> string option" where
  "get_text x = (case x of Some (VText s) \<Rightarrow> Some s | _ \<Rightarrow> None)"

definition get_bool :: "sql_cell \<Rightarrow> bool option" where
  "get_bool x = (case x of Some (VBool b) \<Rightarrow> Some b | _ \<Rightarrow> None)"

definition get_int :: "sql_cell \<Rightarrow> int option" where
  "get_int x = (case x of Some (VInt i) \<Rightarrow> Some i | _ \<Rightarrow> None)"

definition get_time :: "sql_cell \<Rightarrow> datetime option" where
  "get_time x = (case x of Some (VTime t) \<Rightarrow> Some t | _ \<Rightarrow> None)"

definition get_null :: "(sql_cell \<Rightarrow> 'a option) \<Rightarrow> sql_cell \<Rightarrow> 'a option option" where
  "get_null f x = (if x = None then Some None else map_option Some (f x))"

definition read_key :: "sql_row \<Rightarrow> api_key option" where
  "read_key r = do {
     a \<leftarrow> get_uuid (cell r ''id'');
     b \<leftarrow> get_text (cell r ''name'');
     c \<leftarrow> get_text (cell r ''prefix'');
     d \<leftarrow> get_text (cell r ''key_hash'');
     e \<leftarrow> get_null get_text (cell r ''signing_secret'');
     f \<leftarrow> get_null get_text (cell r ''bound_ips'');
     g \<leftarrow> get_bool (cell r ''is_master'');
     h \<leftarrow> get_bool (cell r ''can_manage_keys'');
     i \<leftarrow> get_null get_uuid (cell r ''parent_key_id'');
     j \<leftarrow> get_null get_uuid (cell r ''owner_key_id'');
     k \<leftarrow> get_time (cell r ''created_at'');
     l \<leftarrow> get_time (cell r ''updated_at'');
     Some \<lparr>key_id = a, key_name = b, key_prefix = c, key_hash = d, signing_secret = e, key_bound_ips = f,
       is_master = g, can_manage_keys = h, parent_key_id = i, key_owner_key_id = j,
       key_created_at = k, key_updated_at = l\<rparr>
   }"

definition read_endpoint :: "sql_row \<Rightarrow> endpoint option" where
  "read_endpoint r = do {
     a \<leftarrow> get_uuid (cell r ''id'');
     b \<leftarrow> get_null get_uuid (cell r ''owner_key_id'');
     c \<leftarrow> get_text (cell r ''name'');
     d \<leftarrow> get_null get_text (cell r ''description'');
     e \<leftarrow> get_text (cell r ''token_secret'');
     f \<leftarrow> get_text (cell r ''vault_groups'');
     g \<leftarrow> get_int (cell r ''ttl_seconds'');
     h \<leftarrow> get_int (cell r ''max_age_seconds'');
     i \<leftarrow> get_null get_text (cell r ''bound_ips'');
     j \<leftarrow> get_bool (cell r ''filter_rfc1918'');
     k \<leftarrow> get_bool (cell r ''filter_bogons'');
     l \<leftarrow> get_bool (cell r ''filter_loopback'');
     m \<leftarrow> get_null get_time (cell r ''last_synced_at'');
     n \<leftarrow> get_time (cell r ''created_at'');
     q \<leftarrow> get_time (cell r ''updated_at'');
     Some \<lparr>ep_id = a, owner_key_id = b, ep_name = c, description = d, token_secret = e, vault_groups = f,
       ttl_seconds = g, max_age_seconds = h, ep_bound_ips = i, filter_rfc1918 = j, filter_bogons = k,
       filter_loopback = l, ep_last_synced_at = m, ep_created_at = n, ep_updated_at = q\<rparr>
   }"

definition read_permission :: "sql_row \<Rightarrow> vault_group_permission option" where
  "read_permission r = do {
     a \<leftarrow> get_uuid (cell r ''id'');
     b \<leftarrow> get_uuid (cell r ''api_key_id'');
     c \<leftarrow> get_uuid (cell r ''vault_group_id'');
     d \<leftarrow> get_text (cell r ''vault_group_name'');
     e \<leftarrow> get_time (cell r ''created_at'');
     Some \<lparr>perm_id = a, perm_api_key_id = b, vault_group_id = c, vault_group_name = d, perm_created_at = e\<rparr>
   }"

definition read_audit_log :: "sql_row \<Rightarrow> audit_log option" where
  "read_audit_log r = do {
     a \<leftarrow> get_uuid (cell r ''id'');
     b \<leftarrow> get_null get_uuid (cell r ''api_key_id'');
     c \<leftarrow> get_text (cell r ''api_key_name'');
     d \<leftarrow> get_text (cell r ''api_key_prefix'');
     e \<leftarrow> get_text (cell r ''client_ip'');
     f \<leftarrow> get_text (cell r ''action'');
     g \<leftarrow> get_null get_text (cell r ''target_resource'');
     h \<leftarrow> get_null get_text (cell r ''details'');
     i \<leftarrow> get_time (cell r ''timestamp'');
     Some \<lparr>log_id = a, log_api_key_id = b, log_api_key_name = c, log_api_key_prefix = d, log_client_ip = e,
       log_action = f, target_resource = g, log_details = h, log_timestamp = i\<rparr>
   }"

text \<open>The database a catalogue holds, as the handlers query it.\<close>

definition all_read :: "(sql_row \<Rightarrow> 'a option) \<Rightarrow> sql_row list \<Rightarrow> 'a list option" where
  "all_read f rows = those (map f rows)"

definition catalog_indexes :: "catalog \<Rightarrow> (string \<times> string) list" where
  "catalog_indexes cat = map (\<lambda>i. (idx_table i, idx_name i)) (cat_indexes cat)"

definition catalog_view :: "catalog \<Rightarrow> database option" where
  "catalog_view cat = do {
     ks \<leftarrow> all_read read_key (rows_of cat ''api_keys'');
     es \<leftarrow> all_read read_endpoint (rows_of cat ''endpoints'');
     ps \<leftarrow> all_read read_permission (rows_of cat ''vault_group_permissions'');
     ls \<leftarrow> all_read read_audit_log (rows_of cat ''audit_logs'');
     Some \<lparr>engine = cat_backend cat, api_keys = ks, endpoints = es, permissions = ps, audit_logs = ls,
       indexes = catalog_indexes cat\<rparr>
   }"

text \<open>The relations the entities declare, an action not given being the engine's default.\<close>

definition belongs_to :: "string \<Rightarrow> fk_action \<Rightarrow> fk_action \<Rightarrow> string \<Rightarrow> foreign_key" where
  "belongs_to from deleted updated n =
     \<lparr>fk_name = n, fk_column = from, fk_table = ''api_keys'', fk_target = ''id'',
      fk_on_delete = deleted, fk_on_update = updated\<rparr>"

definition endpoint_relations :: "string \<Rightarrow> foreign_key list" where
  "endpoint_relations n = [belongs_to ''owner_key_id'' SetNull NoAction n]"

definition audit_log_relations :: "string \<Rightarrow> foreign_key list" where
  "audit_log_relations n = [belongs_to ''api_key_id'' SetNull NoAction n]"

definition vault_group_permission_relations :: "string \<Rightarrow> foreign_key list" where
  "vault_group_permission_relations n = [belongs_to ''api_key_id'' Cascade Cascade n]"

text \<open>\<open>api_key::Relation\<close>: the tables declared to hold many rows of a key.\<close>

definition api_key_has_many :: "string list" where
  "api_key_has_many = [''endpoints'', ''vault_group_permissions'']"

subsection \<open>The schema the migrations leave\<close>

definition api_keys_table :: table_def where
  "api_keys_table = api_keys_create\<lparr>tbl_columns := tbl_columns api_keys_create @ [marker_column_def]\<rparr>"

definition endpoints_table :: table_def where
  "endpoints_table = endpoints_create\<lparr>tbl_columns := tbl_columns endpoints_create @ [max_age_column]\<rparr>"

definition schema_tables :: "table_def list" where
  "schema_tables = [api_keys_table, endpoints_table, audit_logs_create, vault_group_permissions_create]"

definition indexes_created :: "ddl list \<Rightarrow> index_def list" where
  "indexes_created xs = concat (map (\<lambda>x. case x of CreateIndex i \<Rightarrow> [i] | _ \<Rightarrow> []) xs)"

definition stored :: "database \<Rightarrow> catalog" where
  "stored d =
     \<lparr>cat_backend = engine d, cat_tables = schema_tables,
      cat_indexes = indexes_created (concat (map mig_up (migrations (engine d)))),
      cat_rows = table_rows d, cat_applied = map mig_name (migrations (engine d))\<rparr>"

text \<open>A database of the version before the retention window of an endpoint.\<close>

definition stored_v3 :: "database \<Rightarrow> catalog" where
  "stored_v3 d =
     (stored d)\<lparr>
       cat_tables := map (\<lambda>t. if tbl_name t = ''endpoints'' then endpoints_create else t) schema_tables,
       cat_rows := [(''api_keys'', map key_row (api_keys d)), (''endpoints'', map endpoint_row_v3 (endpoints d)),
         (''audit_logs'', map audit_row (audit_logs d)),
         (''vault_group_permissions'', map permission_row (permissions d))],
       cat_applied := take 3 (map mig_name (migrations (engine d)))\<rparr>"

text \<open>The rows Rust can hold: \<open>ttl_seconds\<close> is an \<open>i32\<close>, \<open>max_age_seconds\<close> an \<open>i64\<close>.\<close>

definition fits_columns :: "database \<Rightarrow> bool" where
  "fits_columns d \<longleftrightarrow>
     list_all (\<lambda>e. - (2 ^ 31) \<le> ttl_seconds e \<and> ttl_seconds e < 2 ^ 31
       \<and> - (2 ^ 63) \<le> max_age_seconds e \<and> max_age_seconds e < 2 ^ 63) (endpoints d)"

text \<open>
  Deleting the rows of a table that carry an id: each foreign key that points to the table acts on
  the rows that carry it. No table references one whose rows a deletion removes by cascade.
\<close>

definition set_cell :: "string \<Rightarrow> sql_cell \<Rightarrow> sql_row \<Rightarrow> sql_row" where
  "set_cell c v r = map (\<lambda>(m, x). (m, if m = c then v else x)) r"

definition referential :: "string \<Rightarrow> sql_value \<Rightarrow> foreign_key \<Rightarrow> sql_row list \<Rightarrow> sql_row list" where
  "referential n v fk rows =
     (if fk_table fk \<noteq> n then rows
      else case fk_on_delete fk of
             NoAction \<Rightarrow> rows
           | SetNull \<Rightarrow> map (\<lambda>r. if cell r (fk_column fk) = Some v then set_cell (fk_column fk) None r else r) rows
           | Cascade \<Rightarrow> filter (\<lambda>r. cell r (fk_column fk) \<noteq> Some v) rows)"

definition delete_row :: "string \<Rightarrow> sql_value \<Rightarrow> catalog \<Rightarrow> catalog" where
  "delete_row n v cat =
     cat\<lparr>cat_rows := map (\<lambda>(m, rows).
       (m, if m = n then filter (\<lambda>r. cell r ''id'' \<noteq> Some v) rows
           else case find_table m cat of
                  None \<Rightarrow> rows
                | Some t \<Rightarrow> fold (referential n v) (tbl_foreign_keys t) rows)) (cat_rows cat)\<rparr>"

lemmas column_simps = new_column_def not_null_def primary_key_def unique_key_def with_default_def
  max_age_column_def marker_column_def_def MARKER_COLUMN_def

lemmas table_simps = api_keys_table_def endpoints_table_def api_keys_create_def endpoints_create_def audit_logs_create_def
  vault_group_permissions_create_def

lemmas row_simps = key_row_def endpoint_row_def endpoint_row_v3_def audit_row_def permission_row_def

subsection \<open>Building the schema\<close>

lemmas catalog_simps = create_table_def create_index_def add_column_def drop_column_def drop_table_def
  find_table_def find_column_def alter_columns_def alter_rows_def rows_of_def Let_def

lemmas migration_simps = migrations_def initial_schema_up_def add_audit_logs_up_def
  add_vault_group_permissions_up_def add_endpoint_max_age_seconds_up_def index_on_def unique_index_on_def
  indexes_created_def

lemmas schema_simps = stored_def stored_v3_def schema_tables_def table_rows_def

lemma migrations_run_empty:
  "run_migrations apply_pending (empty_catalog b) = (Ok (), stored (migrated\<lparr>engine := b\<rparr>))"
  by (simp add: run_migrations_def empty_catalog_def migration_simps catalog_simps record_applied_def schema_simps
      unique_over_def key_values_def table_simps column_simps MARKER_INDEX_def migrated_def)

lemma migrations_run_v3:
  "run_migrations apply_pending (stored_v3 d) =
     (Ok (), stored (d\<lparr>endpoints := map (\<lambda>e. e\<lparr>max_age_seconds := 0\<rparr>) (endpoints d)\<rparr>))"
  by (simp add: run_migrations_def migration_simps catalog_simps record_applied_def schema_simps
      table_simps column_simps row_simps)

lemma migrations_run_again: "run_migrations apply_pending (stored d) = (Ok (), stored d)"
  by (simp add: run_migrations_def migrations_def stored_def)

lemma stored_indexes: "catalog_indexes (stored d) = indexes migrated"
  by (simp add: catalog_indexes_def stored_def migration_simps migrated_def)

lemma migrations_reverted:
  "exec_ddls (concat (map mig_down (rev (migrations b)))) (stored d)
   = (Ok (), (empty_catalog (engine d))\<lparr>cat_applied := map mig_name (migrations (engine d))\<rparr>)"
  by (simp add: migration_simps initial_schema_down_def add_audit_logs_down_def add_vault_group_permissions_down_def
      add_endpoint_max_age_seconds_down_def catalog_simps schema_simps table_simps column_simps empty_catalog_def)

text \<open>
  Where the statements of a migration are not one transaction, a first migration that was cut short is
  not resumed: its tables tolerate a second run, its indexes and the generated column do not.
\<close>

definition interrupted :: "nat \<Rightarrow> catalog" where
  "interrupted n = snd (exec_ddls (take n (initial_schema_up Sqlite)) (empty_catalog Sqlite))"

lemma interrupted_stuck:
  "map (\<lambda>n. is_ok (fst (run_migrations apply_pending (interrupted n)))) [0..<10]
   = [True, True, False, False, False, False, False, False, False, False]"
  by code_simp

subsection \<open>Rows against columns\<close>

lemma key_row_conforms: "row_conforms api_keys_table (key_row k)"
  by (simp add: row_conforms_def table_simps column_simps key_row_def column_value_def cell_def
      null_or_def split: option.split)

lemma endpoint_row_conforms:
  "row_conforms endpoints_table (endpoint_row e) \<longleftrightarrow>
     - (2 ^ 31) \<le> ttl_seconds e \<and> ttl_seconds e < 2 ^ 31 \<and> - (2 ^ 63) \<le> max_age_seconds e \<and> max_age_seconds e < 2 ^ 63"
  by (auto simp: row_conforms_def table_simps column_simps endpoint_row_def endpoint_row_v3_def
      column_value_def cell_def null_or_def split: option.split)

lemma audit_row_conforms: "row_conforms audit_logs_create (audit_row l)"
  by (simp add: row_conforms_def table_simps column_simps audit_row_def column_value_def cell_def
      null_or_def split: option.split)

lemma permission_row_conforms: "row_conforms vault_group_permissions_create (permission_row p)"
  by (simp add: row_conforms_def table_simps column_simps permission_row_def
      column_value_def cell_def split: option.split)

lemmas get_simps = get_uuid_def get_text_def get_bool_def get_int_def get_time_def get_null_def null_or_def cell_def

lemma get_null_or [simp]:
  "get_null get_uuid (null_or VUuid x) = Some x" "get_null get_text (null_or VText y) = Some y"
  "get_null get_time (null_or VTime z) = Some z"
  by (simp_all add: get_simps split: option.split)

lemma read_rows [simp]:
  "read_key (key_row k) = Some k" "read_endpoint (endpoint_row e) = Some e"
  "read_permission (permission_row p) = Some p" "read_audit_log (audit_row l) = Some l"
  by (simp_all add: read_key_def read_endpoint_def read_permission_def read_audit_log_def row_simps cell_def
      get_uuid_def get_text_def get_bool_def get_int_def get_time_def)

lemma all_read_map: "(\<And>x. f (g x) = Some x) \<Longrightarrow> all_read f (map g xs) = Some xs"
  by (induction xs) (simp_all add: all_read_def)

lemma rows_of_stored:
  "rows_of (stored d) ''api_keys'' = map key_row (api_keys d)"
  "rows_of (stored d) ''endpoints'' = map endpoint_row (endpoints d)"
  "rows_of (stored d) ''audit_logs'' = map audit_row (audit_logs d)"
  "rows_of (stored d) ''vault_group_permissions'' = map permission_row (permissions d)"
  by (simp_all add: rows_of_def stored_def table_rows_def)

lemma view_stored: "catalog_view (stored d) = Some (d\<lparr>indexes := indexes migrated\<rparr>)"
  by (simp add: catalog_view_def rows_of_stored all_read_map stored_indexes) (simp add: stored_def)

lemma conforming_rows:
  "list_all (row_conforms api_keys_table) (map key_row (api_keys d))"
  "list_all (row_conforms endpoints_table) (map endpoint_row (endpoints d)) \<longleftrightarrow> fits_columns d"
  "list_all (row_conforms audit_logs_create) (map audit_row (audit_logs d))"
  "list_all (row_conforms vault_group_permissions_create) (map permission_row (permissions d))"
  by (simp_all add: list_all_iff key_row_conforms endpoint_row_conforms audit_row_conforms permission_row_conforms
      fits_columns_def)

lemma schema_names [simp]:
  "tbl_name api_keys_table = ''api_keys''" "tbl_name endpoints_table = ''endpoints''"
  "tbl_name audit_logs_create = ''audit_logs''" "tbl_name vault_group_permissions_create = ''vault_group_permissions''"
  by (simp_all add: table_simps)

text \<open>
  C23: Every entity is a row of its table. The row written for a key, an endpoint, an audit entry or a
  grant has exactly the columns the migrations declare, in their order, each of the declared type and
  none NULL where that is forbidden, provided the endpoint's time to live is a 32-bit and its window a
  64-bit integer and only then; and reading the rows back gives the entities.
\<close>

theorem rows_have_schema_types:
  "(list_all2 (\<lambda>t (n, rows). n = tbl_name t \<and> list_all (row_conforms t) rows)
      (cat_tables (stored d)) (cat_rows (stored d)) \<longleftrightarrow> fits_columns d)
   \<and> catalog_view (stored d) = Some (d\<lparr>indexes := indexes migrated\<rparr>)"
proof -
  have "list_all2 (\<lambda>t (n, rows). n = tbl_name t \<and> list_all (row_conforms t) rows) schema_tables (table_rows d)
      \<longleftrightarrow> fits_columns d"
    using conforming_rows [of d] by (simp add: schema_tables_def table_rows_def)
  then show ?thesis by (simp add: view_stored) (simp add: stored_def)
qed

subsection \<open>The constraints of the schema\<close>

lemma unique_over_total:
  assumes "\<And>r c. r \<in> set rows \<Longrightarrow> c \<in> set cols \<Longrightarrow> table_cell t r c \<noteq> None"
  shows "unique_over t cols rows \<longleftrightarrow> distinct (map (\<lambda>r. map (table_cell t r) cols) rows)"
proof -
  have "filter (\<lambda>vs. None \<notin> set vs) (map (\<lambda>r. map (table_cell t r) cols) rows) = map (\<lambda>r. map (table_cell t r) cols) rows"
    using assms by (intro filter_True) force
  then show ?thesis by (simp add: unique_over_def key_values_def)
qed

lemmas cell_simps = table_cell_def find_column_def column_value_def cell_def column_simps table_simps row_simps

lemma key_cells:
  "table_cell api_keys_table (key_row k) ''id'' = Some (VUuid (key_id k))"
  "table_cell api_keys_table (key_row k) ''key_hash'' = Some (VText (key_hash k))"
  "table_cell api_keys_table (key_row k) ''master_marker'' = (if is_master k then Some (VInt 1) else None)"
  "cell (key_row k) ''id'' = Some (VUuid (key_id k))"
  by (simp_all add: cell_simps)

lemma endpoint_cells:
  "table_cell endpoints_table (endpoint_row e) ''id'' = Some (VUuid (ep_id e))"
  "table_cell endpoints_table (endpoint_row e) ''token_secret'' = Some (VText (token_secret e))"
  "table_cell endpoints_table (endpoint_row e) ''owner_key_id'' = null_or VUuid (owner_key_id e)"
  by (simp_all add: cell_simps)

lemma audit_cells:
  "table_cell audit_logs_create (audit_row l) ''id'' = Some (VUuid (log_id l))"
  "table_cell audit_logs_create (audit_row l) ''api_key_id'' = null_or VUuid (log_api_key_id l)"
  by (simp_all add: cell_simps)

lemma permission_cells:
  "table_cell vault_group_permissions_create (permission_row p) ''id'' = Some (VUuid (perm_id p))"
  "table_cell vault_group_permissions_create (permission_row p) ''api_key_id'' = Some (VUuid (perm_api_key_id p))"
  "table_cell vault_group_permissions_create (permission_row p) ''vault_group_id'' = Some (VUuid (vault_group_id p))"
  by (simp_all add: cell_simps)

lemma unique_column:
  assumes "\<And>x. table_cell t (g x) c = Some (v (f x))" "\<And>x y. v x = v y \<Longrightarrow> x = y"
  shows "unique_over t [c] (map g xs) \<longleftrightarrow> distinct (map f xs)"
proof -
  have "unique_over t [c] (map g xs) \<longleftrightarrow> distinct (map (\<lambda>y. [Some (v y)]) (map f xs))"
    using assms(1) by (subst unique_over_total) (auto simp: comp_def)
  also have "\<dots> \<longleftrightarrow> distinct (map f xs)" using assms(2) by (subst distinct_map) (auto simp: inj_on_def)
  finally show ?thesis .
qed

text \<open>The generated column makes a unique index of at most one row that is a Master.\<close>

lemma marker_unique:
  "unique_over api_keys_table [''master_marker''] (map key_row ks) \<longleftrightarrow> length (filter is_master ks) \<le> 1"
proof -
  have "key_values api_keys_table [''master_marker''] (map key_row ks)
      = replicate (length (filter is_master ks)) [Some (VInt 1)]"
    by (induction ks) (simp_all add: key_values_def key_cells)
  moreover have "distinct (replicate n x) \<longleftrightarrow> n \<le> 1" for n and x :: "sql_cell list"
    by (cases n; cases "n - 1") auto
  ultimately show ?thesis by (simp add: unique_over_def)
qed

lemma grant_unique:
  "unique_over vault_group_permissions_create [''api_key_id'', ''vault_group_id''] (map permission_row ps)
   \<longleftrightarrow> distinct (map (\<lambda>p. (perm_api_key_id p, vault_group_id p)) ps)"
proof -
  have "unique_over vault_group_permissions_create [''api_key_id'', ''vault_group_id''] (map permission_row ps)
      \<longleftrightarrow> distinct (map (\<lambda>(a, b). [Some (VUuid a), Some (VUuid b)]) (map (\<lambda>p. (perm_api_key_id p, vault_group_id p)) ps))"
    by (subst unique_over_total) (auto simp: permission_cells comp_def)
  also have "\<dots> \<longleftrightarrow> distinct (map (\<lambda>p. (perm_api_key_id p, vault_group_id p)) ps)"
    by (subst distinct_map) (auto simp: inj_on_def)
  finally show ?thesis .
qed

lemma unique_columns:
  "unique_over api_keys_table [''id''] (map key_row ks) \<longleftrightarrow> distinct (map key_id ks)"
  "unique_over api_keys_table [''key_hash''] (map key_row ks) \<longleftrightarrow> distinct (map key_hash ks)"
  "unique_over endpoints_table [''id''] (map endpoint_row es) \<longleftrightarrow> distinct (map ep_id es)"
  "unique_over endpoints_table [''token_secret''] (map endpoint_row es) \<longleftrightarrow> distinct (map token_secret es)"
  "unique_over audit_logs_create [''id''] (map audit_row ls) \<longleftrightarrow> distinct (map log_id ls)"
  "unique_over vault_group_permissions_create [''id''] (map permission_row ps) \<longleftrightarrow> distinct (map perm_id ps)"
  by (rule unique_column [where v = VUuid] unique_column [where v = VText];
      simp add: key_cells endpoint_cells audit_cells permission_cells)+

lemma key_ref: "Some (VUuid u) \<in> set (map (\<lambda>q. cell q ''id'') (map key_row (api_keys d))) \<longleftrightarrow> key_exists d u"
  by (auto simp: key_exists_def key_cells)

lemma null_or_ref:
  "null_or VUuid x = None \<or> null_or VUuid x \<in> set (map (\<lambda>q. cell q ''id'') (map key_row (api_keys d)))
   \<longleftrightarrow> nullable_fk d x"
  using key_ref [of _ d] by (cases x) (simp_all add: null_or_def nullable_fk_def)

lemma stored_unique_indexes:
  "filter (\<lambda>i. idx_table i = n \<and> idx_unique i) (cat_indexes (stored d)) =
     (if n = ''api_keys'' then [unique_index_on MARKER_INDEX ''api_keys'' [''master_marker'']] else [])
     @ (if n = ''endpoints'' then [unique_index_on ''idx_endpoints_token_secret'' ''endpoints'' [''token_secret'']] else [])
     @ (if n = ''vault_group_permissions''
        then [unique_index_on ''idx_vault_group_permissions_key_group'' ''vault_group_permissions''
                [''api_key_id'', ''vault_group_id'']] else [])"
  by (auto simp: stored_def migration_simps MARKER_COLUMN_def)

lemma schema_keys:
  "map col_name (filter (\<lambda>c. col_primary c \<or> col_unique c) (tbl_columns api_keys_table)) = [''id'', ''key_hash'']"
  "map col_name (filter (\<lambda>c. col_primary c \<or> col_unique c) (tbl_columns endpoints_table)) = [''id'', ''token_secret'']"
  "map col_name (filter (\<lambda>c. col_primary c \<or> col_unique c) (tbl_columns audit_logs_create)) = [''id'']"
  "map col_name (filter (\<lambda>c. col_primary c \<or> col_unique c) (tbl_columns vault_group_permissions_create)) = [''id'']"
  by (simp_all add: table_simps column_simps)

lemma table_holds_keys:
  "table_holds cat t \<longleftrightarrow>
     list_all (row_conforms t) (rows_of cat (tbl_name t))
     \<and> list_all (\<lambda>c. unique_over t [c] (rows_of cat (tbl_name t)))
         (map col_name (filter (\<lambda>c. col_primary c \<or> col_unique c) (tbl_columns t)))
     \<and> list_all (\<lambda>i. unique_over t (idx_columns i) (rows_of cat (tbl_name t)))
         (filter (\<lambda>i. idx_table i = tbl_name t \<and> idx_unique i) (cat_indexes cat))
     \<and> list_all (fk_holds cat t) (tbl_foreign_keys t)"
  by (simp add: table_holds_def list_all_iff)

lemma schema_foreign_keys:
  "tbl_foreign_keys api_keys_table = []"
  "tbl_foreign_keys endpoints_table = endpoint_relations ''fk_endpoints_owner_key_id''"
  "tbl_foreign_keys audit_logs_create = audit_log_relations ''fk_audit_logs_api_key_id''"
  "tbl_foreign_keys vault_group_permissions_create
     = vault_group_permission_relations ''fk_vault_group_permissions_api_key_id''"
  by (simp_all add: table_simps endpoint_relations_def audit_log_relations_def vault_group_permission_relations_def
      belongs_to_def)

lemmas relation_simps = schema_foreign_keys endpoint_relations_def audit_log_relations_def
  vault_group_permission_relations_def belongs_to_def

lemma fk_stored:
  "list_all (fk_holds (stored d) endpoints_table) (tbl_foreign_keys endpoints_table)
     \<longleftrightarrow> list_all (\<lambda>e. nullable_fk d (owner_key_id e)) (endpoints d)"
  "list_all (fk_holds (stored d) audit_logs_create) (tbl_foreign_keys audit_logs_create)
     \<longleftrightarrow> list_all (\<lambda>l. nullable_fk d (log_api_key_id l)) (audit_logs d)"
  "list_all (fk_holds (stored d) vault_group_permissions_create) (tbl_foreign_keys vault_group_permissions_create)
     \<longleftrightarrow> list_all (\<lambda>p. key_exists d (perm_api_key_id p)) (permissions d)"
  unfolding relation_simps fk_holds_def
  by (simp_all only: list.pred_inject foreign_key.simps schema_names rows_of_stored endpoint_cells audit_cells
      permission_cells list.pred_map comp_def null_or_ref key_ref option.distinct simp_thms)

lemma tables_hold:
  assumes "indexes d = indexes migrated"
  shows "table_holds (stored d) api_keys_table \<longleftrightarrow> api_keys_valid d"
    and "table_holds (stored d) endpoints_table \<longleftrightarrow> fits_columns d \<and> endpoints_valid d"
    and "table_holds (stored d) audit_logs_create \<longleftrightarrow> audit_logs_valid d"
    and "table_holds (stored d) vault_group_permissions_create \<longleftrightarrow> permissions_valid d"
  unfolding table_holds_keys schema_keys stored_unique_indexes fk_stored schema_names rows_of_stored
  using conforming_rows [of d] assms
  by (auto simp: unique_columns marker_unique grant_unique api_keys_valid_def endpoints_valid_def audit_logs_valid_def
      permissions_valid_def masters_def migrated_def unique_index_on_def schema_foreign_keys)

text \<open>
  C20: The migrations' constraints are the ones every statement of the model enforces. On the schema they
  leave, the engine's checks of a database's rows (types, NOT NULL, primary keys, unique columns and
  indexes with the generated marker, foreign keys) hold exactly when the integers fit their columns
  and \<open>db_valid\<close> holds.
\<close>

theorem schema_enforces_db_valid:
  assumes "indexes d = indexes migrated"
  shows "constraints_hold (stored d) \<longleftrightarrow> fits_columns d \<and> db_valid d"
proof -
  have "constraints_hold (stored d) \<longleftrightarrow> table_holds (stored d) api_keys_table \<and> table_holds (stored d) endpoints_table
      \<and> table_holds (stored d) audit_logs_create \<and> table_holds (stored d) vault_group_permissions_create"
    by (simp add: constraints_hold_def stored_def schema_tables_def)
  then show ?thesis unfolding tables_hold [OF assms] db_valid_def by blast
qed

definition sample_key :: "uuid \<Rightarrow> bool \<Rightarrow> api_key" where
  "sample_key i m =
     \<lparr>key_id = i, key_name = ''key'', key_prefix = ''key'', key_hash = (if m then ''a'' else ''b''), signing_secret = None,
      key_bound_ips = None, is_master = m, can_manage_keys = m, parent_key_id = None, key_owner_key_id = None,
      key_created_at = 0, key_updated_at = 0\<rparr>"

definition sample_db :: database where
  "sample_db = migrated\<lparr>api_keys := [sample_key 1 True, sample_key 2 False],
     permissions := [\<lparr>perm_id = 1, perm_api_key_id = 2, vault_group_id = 7, vault_group_name = ''g'', perm_created_at = 0\<rparr>],
     audit_logs := [\<lparr>log_id = 1, log_api_key_id = Some 2, log_api_key_name = ''key'', log_api_key_prefix = ''key'',
       log_client_ip = ''::1'', log_action = ''KEY_CREATE'', target_resource = None, log_details = None, log_timestamp = 0\<rparr>]\<rparr>"

lemma sample_db_valid: "indexes sample_db = indexes migrated" "fits_columns sample_db" "db_valid sample_db"
  by code_simp+

theorem schema_enforces_db_valid_witness:
  "constraints_hold (stored sample_db)
   \<and> \<not> constraints_hold (stored (sample_db\<lparr>api_keys := [sample_key 1 True, (sample_key 2 True)\<lparr>key_hash := ''b''\<rparr>]\<rparr>))"
proof -
  let ?two = "sample_db\<lparr>api_keys := [sample_key 1 True, (sample_key 2 True)\<lparr>key_hash := ''b''\<rparr>]\<rparr>"
  have "\<not> db_valid ?two" by code_simp
  moreover have "indexes ?two = indexes migrated" using sample_db_valid by simp
  ultimately show ?thesis
    using schema_enforces_db_valid [of sample_db] schema_enforces_db_valid [of ?two] sample_db_valid by blast
qed



subsection \<open>Deleting a key\<close>

text \<open>What \<open>DELETE FROM api_keys\<close> leaves of a database.\<close>

definition without_key :: "uuid \<Rightarrow> database \<Rightarrow> database" where
  "without_key k d =
     d\<lparr>api_keys := filter (\<lambda>r. key_id r \<noteq> k) (api_keys d),
       endpoints := map (\<lambda>e. e\<lparr>owner_key_id := unlink k (owner_key_id e)\<rparr>) (endpoints d),
       permissions := filter (\<lambda>p. perm_api_key_id p \<noteq> k) (permissions d),
       audit_logs := map (\<lambda>l. l\<lparr>log_api_key_id := unlink k (log_api_key_id l)\<rparr>) (audit_logs d)\<rparr>"

lemma linked_rows:
  "cell (endpoint_row e) ''owner_key_id'' = Some (VUuid k) \<longleftrightarrow> owner_key_id e = Some k"
  "cell (audit_row l) ''api_key_id'' = Some (VUuid k) \<longleftrightarrow> log_api_key_id l = Some k"
  "cell (permission_row p) ''api_key_id'' = Some (VUuid (perm_api_key_id p))"
  "set_cell ''owner_key_id'' None (endpoint_row e) = endpoint_row (e\<lparr>owner_key_id := None\<rparr>)"
  "set_cell ''api_key_id'' None (audit_row l) = audit_row (l\<lparr>log_api_key_id := None\<rparr>)"
  by (auto simp: row_simps cell_def set_cell_def null_or_def)

lemma referential_rows:
  "fold (referential ''api_keys'' (VUuid k)) (tbl_foreign_keys endpoints_table) (map endpoint_row es)
     = map endpoint_row (map (\<lambda>e. e\<lparr>owner_key_id := unlink k (owner_key_id e)\<rparr>) es)"
  "fold (referential ''api_keys'' (VUuid k)) (tbl_foreign_keys audit_logs_create) (map audit_row ls)
     = map audit_row (map (\<lambda>l. l\<lparr>log_api_key_id := unlink k (log_api_key_id l)\<rparr>) ls)"
  "fold (referential ''api_keys'' (VUuid k)) (tbl_foreign_keys vault_group_permissions_create) (map permission_row ps)
     = map permission_row (filter (\<lambda>p. perm_api_key_id p \<noteq> k) ps)"
  by (simp_all add: relation_simps referential_def linked_rows filter_map comp_def unlink_def)

lemma find_schema_tables:
  "find_table ''endpoints'' (stored d) = Some endpoints_table"
  "find_table ''audit_logs'' (stored d) = Some audit_logs_create"
  "find_table ''vault_group_permissions'' (stored d) = Some vault_group_permissions_create"
  by (simp_all add: find_table_def stored_def schema_tables_def)

lemma delete_row_stored: "delete_row ''api_keys'' (VUuid k) (stored d) = stored (without_key k d)"
proof -
  have rows: "cat_rows (stored d) = table_rows d" by (simp add: stored_def)
  show ?thesis
    by (simp add: delete_row_def rows table_rows_def find_schema_tables referential_rows key_cells filter_map comp_def
        del: map_map) (simp add: stored_def table_rows_def without_key_def)
qed

lemma unlinked_fk: "nullable_fk d x \<Longrightarrow> nullable_fk (without_key k d) (unlink k x)"
  by (auto simp: nullable_fk_def unlink_def key_exists_def without_key_def split: option.splits if_splits)

lemma without_key_valid:
  assumes "db_valid d"
  shows "db_valid (without_key k d)"
proof -
  have "length (masters (without_key k d)) \<le> length (masters d)"
    using length_filter_le [of "\<lambda>r. key_id r \<noteq> k" "masters d"]
    by (simp add: masters_def without_key_def conj_commute)
  moreover have "key_exists d u \<Longrightarrow> u \<noteq> k \<Longrightarrow> key_exists (without_key k d) u" for u
    by (auto simp: key_exists_def without_key_def)
  moreover have "indexes (without_key k d) = indexes d" by (simp add: without_key_def)
  ultimately show ?thesis
    using assms unlinked_fk [of d _ k]
    by (auto simp: db_valid_def api_keys_valid_def endpoints_valid_def permissions_valid_def audit_logs_valid_def
        list_all_iff distinct_map_filter without_key_def comp_def)
qed

text \<open>
  C22: Deleting a key does what the migrations declare. On a valid database the statement always succeeds, and
  what it leaves is what the engine's referential actions leave: the endpoints and the audit entries
  stay and lose the link, the grants go, nothing else changes, and the constraints still hold.
\<close>

theorem key_deletion_follows_schema:
  assumes "db_valid d"
  shows "\<exists>d'. delete_key_by_id k d = Ok (length (filter (\<lambda>r. key_id r = k) (api_keys d)), d')
    \<and> stored d' = delete_row ''api_keys'' (VUuid k) (stored d)
    \<and> db_valid d' \<and> \<not> key_exists d' k"
proof -
  have "delete_key_by_id k d = enforce (length (filter (\<lambda>r. key_id r = k) (api_keys d))) (without_key k d)"
    by (simp add: delete_key_by_id_def without_key_def)
  moreover have "\<not> key_exists (without_key k d) k" by (auto simp: key_exists_def without_key_def)
  ultimately show ?thesis using without_key_valid [OF assms, of k] by (simp add: enforce_def delete_row_stored)
qed

theorem key_deletion_follows_schema_witness:
  "\<exists>d'. delete_key_by_id 2 sample_db = Ok (1, d') \<and> permissions d' = [] \<and> map log_api_key_id (audit_logs d') = [None]"
proof -
  obtain d' where d': "delete_key_by_id 2 sample_db = Ok (length (filter (\<lambda>r. key_id r = 2) (api_keys sample_db)), d')"
    using key_deletion_follows_schema [OF sample_db_valid(3), of 2] by blast
  have "case delete_key_by_id 2 sample_db of
      Ok (n, d) \<Rightarrow> n = 1 \<and> permissions d = [] \<and> map log_api_key_id (audit_logs d) = [None] | Err _ \<Rightarrow> False"
    by code_simp
  with d' show ?thesis by simp
qed

text \<open>The keys' own relations: both tables that hold many rows of a key reference it; the audit trail does
  too, undeclared.\<close>

lemma has_many_matches:
  "filter (\<lambda>n. n \<noteq> ''audit_logs'')
     (map tbl_name (filter (\<lambda>t. list_ex (\<lambda>fk. fk_table fk = ''api_keys'') (tbl_foreign_keys t)) schema_tables))
   = api_key_has_many"
  by (simp add: schema_tables_def relation_simps api_key_has_many_def)

end
