(* ===== verification/Startup.thy ===== *)
theory Startup
  imports Boot Schema Authorization
begin

text \<open>
  The life of the process, \<open>src/db.rs\<close> and \<open>src/main.rs\<close>: the database is opened with its options, the
  session pragmas are issued, the pending migrations run, the start of theory \<open>Boot\<close> follows, the
  listener is bound, and the service runs its events until a shutdown signal it listens for. The drivers
  (\<open>sqlx\<close>, SeaORM) are the record \<open>drivers\<close>, a connection being the catalogue behind it; binding an
  address is a parameter as well. The texts of the refusals a start can end with close the theory.
\<close>

subsection \<open>Opening the database\<close>

definition SQLITE_BUSY_TIMEOUT_MS :: nat where "SQLITE_BUSY_TIMEOUT_MS = 5000"

definition SQLITE_MAX_CONNECTIONS :: nat where "SQLITE_MAX_CONNECTIONS = 1"

datatype journal_mode = JournalWal | JournalOther string

datatype synchronous_mode = SynchronousNormal | SynchronousOther string

record sqlite_options =
  so_filename :: string
  so_create_if_missing :: bool
  so_foreign_keys :: bool
  so_journal_mode :: journal_mode
  so_synchronous :: synchronous_mode
  so_busy_timeout_ms :: nat

text \<open>\<open>query_one_raw\<close> gives the row the statement returns, if any, as the attempt to read its column.\<close>

record drivers =
  database_connect :: "string \<Rightarrow> (catalog, db_err) result"
  sqlite_options_from_str :: "string \<Rightarrow> (sqlite_options, string) result"
  sqlite_connect_with :: "nat \<Rightarrow> sqlite_options \<Rightarrow> (catalog, string) result"
  query_one_raw :: "string \<Rightarrow> catalog \<Rightarrow> ((string, db_err) result option, db_err) result"
  execute_raw :: "string \<Rightarrow> catalog \<Rightarrow> (unit, db_err) result"
  db_err_text :: "db_err \<Rightarrow> string"

definition connect :: "drivers \<Rightarrow> string \<Rightarrow> (catalog, db_err) result" where
  "connect V db_url =
     (if \<not> prefix ''sqlite:'' db_url then database_connect V db_url
      else case sqlite_options_from_str V db_url of
             Err _ \<Rightarrow> Err DbConn
           | Ok options \<Rightarrow>
               (case sqlite_connect_with V SQLITE_MAX_CONNECTIONS
                       (options\<lparr>so_create_if_missing := True, so_foreign_keys := True, so_journal_mode := JournalWal,
                          so_synchronous := SynchronousNormal, so_busy_timeout_ms := SQLITE_BUSY_TIMEOUT_MS\<rparr>) of
                  Err _ \<Rightarrow> Err DbConn
                | Ok db \<Rightarrow> Ok db))"

definition to_ascii_lowercase :: "char \<Rightarrow> char" where
  "to_ascii_lowercase c = (if 65 \<le> byte c \<and> byte c \<le> 90 then char_of (byte c + 32) else c)"

definition eq_ignore_ascii_case :: "string \<Rightarrow> string \<Rightarrow> bool" where
  "eq_ignore_ascii_case a b \<longleftrightarrow> map to_ascii_lowercase a = map to_ascii_lowercase b"

datatype log_line = LogInfo string | LogWarn string

definition journal_mode_log :: "drivers \<Rightarrow> ((string, db_err) result option, db_err) result \<Rightarrow> log_line" where
  "journal_mode_log V answer =
     (case answer of
        Ok (Some (Ok mode)) \<Rightarrow>
          if eq_ignore_ascii_case mode ''wal'' then LogInfo ''SQLite journal mode: WAL.''
          else LogInfo (''SQLite journal mode is '' @ [CHR 0x27] @ mode @ [CHR 0x27]
             @ '' rather than WAL; normal for in-memory databases.'')
      | Ok (Some (Err e)) \<Rightarrow> LogWarn (''Could not read back the SQLite journal mode: '' @ db_err_text V e)
      | Ok None \<Rightarrow> LogWarn ''PRAGMA journal_mode returned no row; leaving the default.''
      | Err e \<Rightarrow> LogWarn (''Could not enable SQLite WAL mode: '' @ db_err_text V e @ ''. Continuing without it.''))"

definition session_pragmas :: "(string \<times> string) list" where
  "session_pragmas =
     [(''foreign key enforcement'', ''PRAGMA foreign_keys=ON;''),
      (''synchronous mode'', ''PRAGMA synchronous=NORMAL;''),
      (''busy timeout'', ''PRAGMA busy_timeout='' @ nat_digits SQLITE_BUSY_TIMEOUT_MS @ '';'')]"

definition apply_sqlite_pragmas :: "drivers \<Rightarrow> catalog \<Rightarrow> (unit, db_err) result \<times> log_line list" where
  "apply_sqlite_pragmas V db =
     (if cat_backend db \<noteq> Sqlite then (Ok (), [])
      else (Ok (), journal_mode_log V (query_one_raw V ''PRAGMA journal_mode=WAL;'' db)
             # concat (map (\<lambda>(label, statement).
                 case execute_raw V statement db of
                   Err e \<Rightarrow> [LogWarn (''Could not set the SQLite '' @ label @ '': '' @ db_err_text V e
                                @ ''. Continuing with the default.'')]
                 | Ok _ \<Rightarrow> []) session_pragmas)))"

definition database_url :: "environment \<Rightarrow> string" where
  "database_url env =
     (case env ''DATABASE_URL'' of Some url \<Rightarrow> url | None \<Rightarrow> ''sqlite://simply_ip_exporter.db?mode=rwc'')"

type_synonym runner = "migration list \<Rightarrow> catalog \<Rightarrow> (unit, db_err) result \<times> catalog"

text \<open>Connect, pragmas, migrations, and the log of it; an error of the pragmas would only be logged.\<close>

definition open_database :: "drivers \<Rightarrow> runner \<Rightarrow> environment \<Rightarrow> (catalog, db_err) result \<times> log_line list" where
  "open_database V up env =
     (case connect V (database_url env) of
        Err e \<Rightarrow> (Err e, [])
      | Ok db \<Rightarrow>
         (case apply_sqlite_pragmas V db of
            (pragmas, said) \<Rightarrow>
              let said' = (case pragmas of
                    Err e \<Rightarrow> said @ [LogWarn (''Could not apply the SQLite concurrency pragmas: '' @ db_err_text V e
                                @ ''. Starting anyway.'')]
                  | Ok _ \<Rightarrow> said)
              in case run_migrations up db of
                   (Err e, _) \<Rightarrow> (Err e, said')
                 | (Ok _, db') \<Rightarrow> (Ok db', said')))"

text \<open>The database as the queries of the service read it.\<close>

definition opened :: "drivers \<Rightarrow> runner \<Rightarrow> environment \<Rightarrow> (database, db_err) result" where
  "opened V up env =
     (case fst (open_database V up env) of
        Err e \<Rightarrow> Err e
      | Ok db \<Rightarrow> ok_or (DbCustom ''a row does not match its entity'') (catalog_view db))"

subsection \<open>Serving until the shutdown\<close>

datatype process_signal = CtrlC | SigTerm

text \<open>
  \<open>shutdown_signal\<close>: whichever of the two comes first ends the wait; one whose handler could not be
  installed never does.
\<close>

definition shutdown_signal :: "bool \<Rightarrow> bool \<Rightarrow> process_signal \<Rightarrow> bool" where
  "shutdown_signal ctrl_c_listens sigterm_listens received =
     (case received of CtrlC \<Rightarrow> ctrl_c_listens | SigTerm \<Rightarrow> sigterm_listens)"

datatype process_event = Work event | Signal process_signal

text \<open>The listener and the workers, until the shutdown: nothing is run afterwards.\<close>

fun serve ::
    "'net crates \<Rightarrow> (request \<Rightarrow> api_call) \<Rightarrow> bool \<times> bool \<Rightarrow> process_event list \<Rightarrow> 'net app \<Rightarrow> bool \<times> 'net app" where
  "serve L route listens [] s = (False, s)"
| "serve L route listens (Work ev # evs) s = serve L route listens evs (service_step L route ev s)"
| "serve L route listens (Signal received # evs) s =
     (if shutdown_signal (fst listens) (snd listens) received then (True, s) else serve L route listens evs s)"

datatype main_error = StartFailed boot_error | BindFailed string

text \<open>\<open>main\<close>: the error the process ends with, or whether it was shut down and its last state.\<close>

definition main ::
    "'net crates \<Rightarrow> request_env \<Rightarrow> environment \<Rightarrow> bool \<Rightarrow> drivers \<Rightarrow> runner \<Rightarrow> (nat \<Rightarrow> request_env) \<Rightarrow> budget
       \<Rightarrow> (ipaddr \<times> int \<Rightarrow> (unit, string) result) \<Rightarrow> (request \<Rightarrow> api_call) \<Rightarrow> bool \<times> bool \<Rightarrow> process_event list
       \<Rightarrow> (bool \<times> 'net app, main_error) result" where
  "main L E env http_builds V up Es b bind_to route listens evs =
     (case start L E env http_builds (opened V up env) Es b of
        Err e \<Rightarrow> Err (StartFailed e)
      | Ok s \<Rightarrow>
         (case bind_to (resolve_bind_addr env) of
            Err e \<Rightarrow> Err (BindFailed e)
          | Ok _ \<Rightarrow> Ok (serve L route listens evs s)))"

fun worked :: "bool \<times> bool \<Rightarrow> process_event list \<Rightarrow> event list" where
  "worked listens [] = []"
| "worked listens (Work ev # evs) = ev # worked listens evs"
| "worked listens (Signal received # evs) =
     (if shutdown_signal (fst listens) (snd listens) received then [] else worked listens evs)"

lemma serve_run: "snd (serve L route listens evs s) = fold (service_step L route) (worked listens evs) s"
  by (induction L route listens evs s rule: serve.induct) auto

subsection \<open>The texts of a refused start\<close>

definition crypto_error_text :: "crypto_error \<Rightarrow> string" where
  "crypto_error_text e =
     (case e of
        InvalidKey \<Rightarrow> KEY_ENV_VAR @ '' must be exactly '' @ nat_digits (KEY_LEN * 2) @ '' hex characters ('' @ nat_digits KEY_LEN
          @ '' bytes); generate one with `openssl rand -hex '' @ nat_digits KEY_LEN @ ''`''
      | MalformedCiphertext \<Rightarrow> ''Stored secret is malformed or was written by a newer version''
      | DecryptionFailed \<Rightarrow> ''Stored secret could not be decrypted. This usually means '' @ KEY_ENV_VAR
          @ '' does not match the key the secret was written with''
      | EncryptionFailed \<Rightarrow> ''Encryption failed'')"

definition secret_cipher_debug :: "secret_cipher \<Rightarrow> string" where
  "secret_cipher_debug c =
     (case c of Plaintext \<Rightarrow> ''SecretCipher::Plaintext'' | Sealed _ \<Rightarrow> ''SecretCipher::Sealed(<redacted>)'')"

definition encryption_key_mismatch_text :: "crypto_error \<Rightarrow> string" where
  "encryption_key_mismatch_text e =
     ''EXPORTER_ENCRYPTION_KEY does not match the key this database's secrets were sealed with ('' @ crypto_error_text e
     @ ''). Refusing to start: continuing would leave every stored signing secret unreadable and silently break ''
     @ ''authentication for every API key. Restore the correct EXPORTER_ENCRYPTION_KEY, or if rotating it intentionally, ''
     @ ''re-seal every key's signing_secret with the new key first.''"

definition section_sign :: string where "section_sign = [CHR 0xC2, CHR 0xA7]"

definition master_pin_error_text :: "'net crates \<Rightarrow> drivers \<Rightarrow> master_pin_error \<Rightarrow> string" where
  "master_pin_error_text L V e =
     (case e of
        NoMaster \<Rightarrow> ''no key has is_master = true; restart the service and the bootstrap path will re-mint it.''
      | Duplicates ids \<Rightarrow> nat_digits (length ids) @ '' keys have is_master = true ('' @ join '', '' (map (uuid_to_string L) ids)
          @ ''), but RBAC_MODEL.md '' @ section_sign @ ''5 requires exactly one. Decide which key is the Master and demote ''
          @ ''the others with `UPDATE api_keys SET is_master = false WHERE id IN (...);`, then restart.''
      | MissingConstraint \<Rightarrow> ''the unique index '' @ [CHR 0x27] @ MARKER_INDEX @ [CHR 0x27] @ '' is missing from ''
          @ [CHR 0x27] @ ''api_keys'' @ [CHR 0x27] @ ''. Re-run migrations.''
      | PinDb e \<Rightarrow> ''could not query the database to establish the master key: '' @ db_err_text V e)"

text \<open>No rendering of a cipher tells its key.\<close>

lemma secret_cipher_debug_redacts: "secret_cipher_debug (Sealed k) = secret_cipher_debug (Sealed k')"
  by (simp add: secret_cipher_debug_def)

subsection \<open>What a start opens\<close>

text \<open>
  A SQLite database is opened through one connection, on which foreign keys are enforced from the first
  statement; the pragmas are issued again and cannot stop a start.
\<close>

lemma connect_sqlite:
  assumes "prefix ''sqlite:'' url" "connect V url = Ok db"
  shows "\<exists>options. sqlite_connect_with V 1 options = Ok db \<and> so_foreign_keys options \<and> so_create_if_missing options
    \<and> so_journal_mode options = JournalWal \<and> so_busy_timeout_ms options = 5000"
  using assms
  by (auto simp: connect_def SQLITE_MAX_CONNECTIONS_def SQLITE_BUSY_TIMEOUT_MS_def split: sum.splits
      intro: exI [of _ "_\<lparr>so_create_if_missing := True, so_foreign_keys := True, so_journal_mode := JournalWal,
        so_synchronous := SynchronousNormal, so_busy_timeout_ms := 5000\<rparr>"])

lemma pragmas_never_fail: "fst (apply_sqlite_pragmas V db) = Ok ()"
  by (simp add: apply_sqlite_pragmas_def)

lemma stored_indexes_irrelevant: "stored (d\<lparr>indexes := is\<rparr>) = stored d"
  by (simp add: stored_def table_rows_def)

lemma opened_migrated:
  assumes "migrator up" and "connect V (database_url env) = Ok db"
    and "run_migrations apply_pending db = (Ok (), stored d)"
  shows "opened V up env = Ok (d\<lparr>indexes := indexes migrated\<rparr>)"
  using migrator.run_Ok [OF assms(1,3)] assms(2)
  by (simp add: opened_def open_database_def apply_sqlite_pragmas_def view_stored ok_or_def Let_def)

lemma opened_empty:
  "migrator up \<Longrightarrow> connect V (database_url env) = Ok (empty_catalog Sqlite) \<Longrightarrow> opened V up env = Ok migrated"
  by (frule opened_migrated [OF _ _ migrations_run_empty]) (simp_all add: migrated_def)

lemma constraints_db_valid: "constraints_hold (stored d) \<Longrightarrow> db_valid (d\<lparr>indexes := indexes migrated\<rparr>)"
proof -
  let ?d = "d\<lparr>indexes := indexes migrated\<rparr>"
  assume "constraints_hold (stored d)"
  then have "constraints_hold (stored ?d)" by (simp only: stored_indexes_irrelevant)
  then have "table_holds (stored ?d) api_keys_table \<and> table_holds (stored ?d) endpoints_table
      \<and> table_holds (stored ?d) audit_logs_create \<and> table_holds (stored ?d) vault_group_permissions_create"
    by (simp add: constraints_hold_def stored_def schema_tables_def)
  then show ?thesis by (simp add: tables_hold db_valid_def)
qed

lemma opened_valid:
  assumes "migrator up" "connect V (database_url env) = Ok db" "constraints_hold db"
    and "db = empty_catalog b \<or> db = stored d"
  shows "\<exists>d'. opened V up env = Ok d' \<and> db_valid d' \<and> (db = stored d \<longrightarrow> masters d' = masters d)"
  using assms(4)
proof
  assume e: "db = empty_catalog b"
  have "stored d \<noteq> empty_catalog b" by (simp add: stored_def empty_catalog_def schema_tables_def)
  moreover have "db_valid (migrated\<lparr>engine := b, indexes := indexes migrated\<rparr>)"
    by (simp add: migrated_def db_valid_def api_keys_valid_def endpoints_valid_def permissions_valid_def
        audit_logs_valid_def masters_def)
  ultimately show ?thesis using opened_migrated [OF assms(1,2), of "migrated\<lparr>engine := b\<rparr>"] migrations_run_empty e by auto
next
  assume "db = stored d"
  then show ?thesis
    using opened_migrated [OF assms(1,2), of d] migrations_run_again constraints_db_valid assms(3)
    by (simp add: masters_def)
qed

text \<open>
  C18: One Master for the life of a process, and across restarts. Started on an empty database or on one a
  process left, with its constraints intact, a process that comes up ends, whatever it served until the
  shutdown, with exactly one Master row and a valid database; where there was a Master before the
  start it is still that one, every column but its binding and modification time unchanged.
\<close>

theorem process_keeps_one_master:
  assumes up: "migrator up"
    and opens: "connect V (database_url env) = Ok db" "constraints_hold db" "db = empty_catalog b \<or> db = stored d"
    and alone: "db_others E = (\<lambda>_ d. d)" "\<And>n cs. others_keep (Es n) (masters_are cs)"
      "\<And>ev E' cs. ev \<in> set (worked listens evs) \<Longrightarrow> E' \<in> event_envs ev \<Longrightarrow> others_keep E' (masters_are cs)"
    and run: "main L E env http_builds V up Es budget bind_to route listens evs = Ok (stopped, s)"
  shows "length (masters (app_db s)) = 1 \<and> db_valid (app_db s)
    \<and> (db = stored d \<and> masters d \<noteq> [] \<longrightarrow> map key_core (masters (app_db s)) = map key_core (masters d))"
proof -
  obtain d' where d': "opened V up env = Ok d'" "db_valid d'" "db = stored d \<longrightarrow> masters d' = masters d"
    using opened_valid [OF up opens] by blast
  obtain s0 where s0: "boot L E env http_builds (Ok d') = Ok s0"
    and s: "(stopped, s) = serve L route listens evs (run_boot_sync L Es budget s0)"
    using run by (auto simp: main_def start_def d' split: sum.splits)
  obtain m where m: "masters (app_db s0) = [m]"
    "app_db s0 = d' \<or> masters d' = [] \<and> db_valid (app_db s0) \<and> app_db s0 = d'\<lparr>api_keys := api_keys d' @ [m]\<rparr>"
    using boot_sound [OF alone(1) s0] by blast
  let ?J = "masters_are (map key_core (masters (app_db s0)))"
  have "?J (app_db s0)" using m(2) d'(2) by (auto simp: masters_are_def)
  then have "?J (app_db (run_boot_sync L Es budget s0))" by (rule master_service.boot_sync_keeps [OF alone(2)])
  then have "?J (app_db (fold (service_step L route) (worked listens evs) (run_boot_sync L Es budget s0)))"
    by (rule master_service.service_run_keeps [rotated]) (rule alone(3))
  then have J: "?J (app_db s)" unfolding serve_run [symmetric] s [symmetric] by simp
  then have "length (masters (app_db s)) = length (masters (app_db s0))"
    by (metis masters_are_def length_map)
  moreover have "db = stored d \<and> masters d \<noteq> [] \<longrightarrow> masters (app_db s0) = masters d" using m(2) d'(3) by auto
  ultimately show ?thesis using J m(1) by (auto simp: masters_are_def dest: sym)
qed

definition demo_drivers :: "catalog \<Rightarrow> drivers" where
  "demo_drivers db =
     \<lparr>database_connect = (\<lambda>_. Ok db),
      sqlite_options_from_str = (\<lambda>url. Ok \<lparr>so_filename = url, so_create_if_missing = False, so_foreign_keys = False,
        so_journal_mode = JournalOther ''delete'', so_synchronous = SynchronousOther ''full'', so_busy_timeout_ms = 0\<rparr>),
      sqlite_connect_with = (\<lambda>_ _. Ok db), query_one_raw = (\<lambda>_ _. Ok (Some (Ok ''WAL''))), execute_raw = (\<lambda>_ _. Ok ()),
      db_err_text = (\<lambda>_. [])\<rparr>"

lemma demo_connect: "connect (demo_drivers db) url = Ok db"
  by (simp add: connect_def demo_drivers_def)

theorem process_keeps_one_master_witness:
  "\<exists>s. main demo_crates calm_env (\<lambda>_. None) True (demo_drivers (stored demo_db)) apply_pending (\<lambda>_. calm_env) InTime
       (\<lambda>_. Ok ()) (\<lambda>_. GetMe) (True, True) [Work (CleanupPass calm_env), Signal SigTerm] = Ok (True, s)
     \<and> map key_core (masters (app_db s)) = map key_core (masters demo_db)"
proof -
  let ?V = "demo_drivers (stored demo_db)" and ?env = "(\<lambda>_. None) :: environment"
  let ?evs = "[Work (CleanupPass calm_env), Signal SigTerm]"
  let ?main = "main demo_crates calm_env ?env True ?V apply_pending (\<lambda>_. calm_env) InTime (\<lambda>_. Ok ()) (\<lambda>_. GetMe) (True, True) ?evs"
  have idx: "indexes demo_db = indexes migrated" by (simp add: demo_db_def)
  then have same: "demo_db\<lparr>indexes := indexes migrated\<rparr> = demo_db" by simp
  have "opened ?V apply_pending ?env = Ok demo_db"
    using opened_migrated [OF pending.migrator_axioms demo_connect migrations_run_again, of demo_db ?env] by (simp add: same)
  moreover have "is_ok (boot demo_crates calm_env ?env True (Ok demo_db))" by code_simp
  ultimately obtain s where s: "?main = Ok (True, s)"
    by (auto simp: is_ok_iff main_def start_def shutdown_signal_def)
  have "constraints_hold (stored demo_db)" by code_simp
  moreover have others: "others_keep calm_env J" for J by (simp add: others_keep_def calm_env_def)
  moreover have "others_keep E' J" if "ev \<in> set (worked (True, True) ?evs)" "E' \<in> event_envs ev" for ev E' J
    using that others by (auto simp: shutdown_signal_def)
  moreover have "db_others calm_env = (\<lambda>_ d. d)" by (simp add: calm_env_def)
  moreover have "masters demo_db \<noteq> []" by code_simp
  ultimately have "map key_core (masters (app_db s)) = map key_core (masters demo_db)"
    using process_keeps_one_master [OF pending.migrator_axioms demo_connect _ _ _ _ _ s, of Sqlite demo_db] by blast
  with s show ?thesis by blast
qed

text \<open>
  C19: A first start comes up and stops when told to. On an empty SQLite file, with a configuration, an initial
  key and an encryption key the checks accept, a database that answers and an address that can be
  bound, the process migrates the file, creates one key, the Master, made of the configured or
  generated key text, whose signing secret opens to the configured or generated one, and serves
  until the first signal it listens for.
\<close>

theorem first_start:
  assumes up: "migrator up" and opens: "connect V (database_url env) = Ok (empty_catalog Sqlite)"
    and alone: "db_others E = (\<lambda>_ d. d)" "db_fails E = (\<lambda>_. False)"
    and crypto: "hex_laws (crypto_crate L)" "aead_correct (crypto_crate L)" "length (nonce_bytes E) = NONCE_LEN"
    and config: "runtime_config_from_env (ipnet_crate L) env = Ok config"
      "validate_initial_master_key (env ''INITIAL_MASTER_KEY'') = Ok initial"
      "cipher_from_env (crypto_crate L) env = Ok cipher"
    and secret: "is_utf8 (bootstrap_secret L E env)"
      "seal (crypto_crate L) (nonce_bytes E) cipher (bootstrap_secret L E env) = Ok sealed"
    and listen: "bind_to (resolve_bind_addr env) = Ok ()" "shutdown_signal (fst listens) (snd listens) received"
  shows "\<exists>s. api_keys (app_db s) = [bootstrap_row L E env (bootstrap_key_text L E initial) sealed]
    \<and> app_master_pin s = Some (fresh_id E)
    \<and> open_secret (crypto_crate L) cipher sealed = Ok (bootstrap_secret L E env)
    \<and> main L E env http_builds V up Es budget bind_to route listens (map Work evs @ Signal received # rest)
        = Ok (True, fold (service_step L route) evs (run_boot_sync L Es budget s))"
proof -
  obtain s where s: "boot L E env http_builds (Ok migrated) = Ok s"
    "api_keys (app_db s) = [bootstrap_row L E env (bootstrap_key_text L E initial) sealed]"
    "app_master_pin s = Some (fresh_id E)"
    "open_secret (crypto_crate L) cipher sealed = Ok (bootstrap_secret L E env)"
    using boot_fresh [OF alone crypto config secret] by blast
  have "serve L route listens (map Work evs @ Signal received # rest) t = (True, fold (service_step L route) evs t)" for t
    using listen(2) by (induction evs arbitrary: t) simp_all
  with s show ?thesis by (auto simp: main_def start_def opened_empty [OF up opens] listen(1))
qed

theorem first_start_witness:
  "\<exists>s. main demo_crates demo_boot_env (\<lambda>_. None) True (demo_drivers (empty_catalog Sqlite)) apply_pending
     (\<lambda>_. calm_env) InTime (\<lambda>_. Ok ()) (\<lambda>_. GetMe) (True, False) [Work (CleanupPass calm_env), Signal CtrlC] = Ok (True, s)"
proof -
  let ?env = "(\<lambda>_. None) :: environment"
  obtain config where c: "runtime_config_from_env (ipnet_crate demo_crates) ?env = Ok config"
    using demo_boot_accepted(7) by blast
  obtain sealed where x: "seal (crypto_crate demo_crates) (nonce_bytes demo_boot_env) Plaintext
      (bootstrap_secret demo_crates demo_boot_env ?env) = Ok sealed"
    using demo_boot_accepted(11) by blast
  have "shutdown_signal (fst (True, False)) (snd (True, False)) CtrlC" by (simp add: shutdown_signal_def)
  from first_start [OF pending.migrator_axioms demo_connect demo_boot_accepted(1-5) c demo_boot_accepted(8-10) x _ this,
      where evs = "[CleanupPass calm_env]" and rest = "[]" and bind_to = "\<lambda>_. Ok ()"]
  show ?thesis by fastforce
qed

end
