(* ===== verification/Web_Crypto.thy ===== *)
theory Web_Crypto
  imports Crypto
begin

unbundle bit_operations_syntax

text \<open>
  The web interface's own SHA-256 and HMAC, \<open>PureCrypto\<close> in \<open>static/app.js\<close>, which signs requests
  where the browser offers no \<open>crypto.subtle\<close>. A JavaScript number that the code uses is an
  integer; its bitwise operators read 32 bits of it, two's complement, and \<open>+\<close> is exact up to
  \<open>2 ^ 53\<close>. Against it stand the algorithms of FIPS 180-4 and RFC 2104 on 32-bit words, with the
  constants of the standard computed from their description.
\<close>

subsection \<open>JavaScript's bitwise operators\<close>

definition ToInt32 :: "int \<Rightarrow> int" where "ToInt32 x = signed_take_bit 31 x"
definition ToUint32 :: "int \<Rightarrow> int" where "ToUint32 x = take_bit 32 x"
definition js_or :: "int \<Rightarrow> int \<Rightarrow> int" where "js_or x y = (ToInt32 x OR ToInt32 y)"
definition js_xor :: "int \<Rightarrow> int \<Rightarrow> int" where "js_xor x y = (ToInt32 x XOR ToInt32 y)"
definition js_and :: "int \<Rightarrow> int \<Rightarrow> int" where "js_and x y = (ToInt32 x AND ToInt32 y)"
definition js_not :: "int \<Rightarrow> int" where "js_not x = NOT (ToInt32 x)"
definition js_shl :: "int \<Rightarrow> nat \<Rightarrow> int" where "js_shl x n = ToInt32 (push_bit (n mod 32) (ToInt32 x))"
definition js_ushr :: "int \<Rightarrow> nat \<Rightarrow> int" where "js_ushr x n = drop_bit (n mod 32) (ToUint32 x)"

subsection \<open>\<open>PureCrypto\<close>\<close>

definition PureCrypto_K :: "int list" where
  "PureCrypto_K =
    [0x428a2f98, 0x71374491, 0xb5c0fbcf, 0xe9b5dba5, 0x3956c25b, 0x59f111f1, 0x923f82a4, 0xab1c5ed5,
     0xd807aa98, 0x12835b01, 0x243185be, 0x550c7dc3, 0x72be5d74, 0x80deb1fe, 0x9bdc06a7, 0xc19bf174,
     0xe49b69c1, 0xefbe4786, 0x0fc19dc6, 0x240ca1cc, 0x2de92c6f, 0x4a7484aa, 0x5cb0a9dc, 0x76f988da,
     0x983e5152, 0xa831c66d, 0xb00327c8, 0xbf597fc7, 0xc6e00bf3, 0xd5a79147, 0x06ca6351, 0x14292967,
     0x27b70a85, 0x2e1b2138, 0x4d2c6dfc, 0x53380d13, 0x650a7354, 0x766a0abb, 0x81c2c92e, 0x92722c85,
     0xa2bfe8a1, 0xa81a664b, 0xc24b8b70, 0xc76c51a3, 0xd192e819, 0xd6990624, 0xf40e3585, 0x106aa070,
     0x19a4c116, 0x1e376c08, 0x2748774c, 0x34b0bcb5, 0x391c0cb3, 0x4ed8aa4a, 0x5b9cca4f, 0x682e6ff3,
     0x748f82ee, 0x78a5636f, 0x84c87814, 0x8cc70208, 0x90befffa, 0xa4506ceb, 0xbef9a3f7, 0xc67178f2]"

definition PureCrypto_h :: "int list" where
  "PureCrypto_h =
    [0x6a09e667, 0xbb67ae85, 0x3c6ef372, 0xa54ff53a, 0x510e527f, 0x9b05688c, 0x1f83d9ab, 0x5be0cd19]"

definition rotr :: "int \<Rightarrow> nat \<Rightarrow> int" where
  "rotr x n = js_or (js_ushr x n) (js_shl x (32 - n))"

text \<open>The padding: \<open>0x80\<close>, zeros up to 56 modulo 64, then the length in bits, high byte first.\<close>

lemma pad_room: "(120 - n mod 64) mod 64 = (if n mod 64 \<le> 56 then 56 - n mod 64 else 120 - n mod 64)" for n :: nat
proof (cases "n mod 64 \<le> 56")
  case True
  then have "120 - n mod 64 = 64 + (56 - n mod 64)" by simp
  then show ?thesis using True by (simp only: mod_add_self1) simp
qed simp

function push_zeros :: "int list \<Rightarrow> int list" where
  "push_zeros padded = (if length padded mod 64 \<noteq> 56 then push_zeros (padded @ [0]) else padded)"
  by pat_completeness auto
termination
proof (relation "measure (\<lambda>p. (120 - length p mod 64) mod 64)")
  fix padded :: "int list"
  assume "length padded mod 64 \<noteq> 56"
  then show "(padded @ [0], padded) \<in> measure (\<lambda>p. (120 - length p mod 64) mod 64)"
    by (auto simp: pad_room mod_Suc)
qed simp

declare push_zeros.simps [simp del]

definition push_length :: "int \<Rightarrow> int list \<Rightarrow> int list" where
  "push_length bitLen padded =
     fold (\<lambda>i padded. padded @ [js_and (bitLen div 2 ^ (i * 8)) 0xff]) (rev [0..<8]) padded"

definition sha256_padded :: "int list \<Rightarrow> int list" where
  "sha256_padded bytes = push_length (int (length bytes) * 8) (push_zeros (bytes @ [0x80]))"

text \<open>The message schedule \<open>w\<close>, one array reused for every chunk: loaded, then extended.\<close>

definition sha256_load :: "int list \<Rightarrow> nat \<Rightarrow> int list \<Rightarrow> int list" where
  "sha256_load padded chunk =
     fold (\<lambda>i w. w[i := js_or (js_or (js_or
         (js_shl (padded ! (chunk + i * 4)) 24)
         (js_shl (padded ! (chunk + i * 4 + 1)) 16))
         (js_shl (padded ! (chunk + i * 4 + 2)) 8))
         (padded ! (chunk + i * 4 + 3))]) [0..<16]"

definition extend_at :: "nat \<Rightarrow> int list \<Rightarrow> int list" where
  "extend_at i w =
     (let s0 = js_xor (js_xor (rotr (w ! (i - 15)) 7) (rotr (w ! (i - 15)) 18)) (js_ushr (w ! (i - 15)) 3);
          s1 = js_xor (js_xor (rotr (w ! (i - 2)) 17) (rotr (w ! (i - 2)) 19)) (js_ushr (w ! (i - 2)) 10)
      in w[i := js_or (w ! (i - 16) + s0 + w ! (i - 7) + s1) 0])"

definition sha256_extend :: "int list \<Rightarrow> int list" where
  "sha256_extend = fold extend_at [16..<64]"

type_synonym 'a working = "'a \<times> 'a \<times> 'a \<times> 'a \<times> 'a \<times> 'a \<times> 'a \<times> 'a"

fun sha256_round :: "int list \<Rightarrow> nat \<Rightarrow> int working \<Rightarrow> int working" where
  "sha256_round w i (a, b, c, d, e, f, g, hh) =
     (let S1 = js_xor (js_xor (rotr e 6) (rotr e 11)) (rotr e 25);
          ch = js_xor (js_and e f) (js_and (js_not e) g);
          t1 = js_or (hh + S1 + ch + PureCrypto_K ! i + w ! i) 0;
          S0 = js_xor (js_xor (rotr a 2) (rotr a 13)) (rotr a 22);
          maj = js_xor (js_xor (js_and a b) (js_and a c)) (js_and b c);
          t2 = js_or (S0 + maj) 0
      in (js_or (t1 + t2) 0, a, b, c, js_or (d + t1) 0, e, f, g))"

definition sha256_chunk :: "int list \<Rightarrow> nat \<Rightarrow> int list \<times> int list \<Rightarrow> int list \<times> int list" where
  "sha256_chunk padded chunk hw =
     (let h = fst hw;
          w = sha256_extend (sha256_load padded chunk (snd hw));
          (a, b, c, d, e, f, g, hh) =
            fold (sha256_round w) [0..<64] (h ! 0, h ! 1, h ! 2, h ! 3, h ! 4, h ! 5, h ! 6, h ! 7)
      in (map (\<lambda>x. js_or x 0)
            [h ! 0 + a, h ! 1 + b, h ! 2 + c, h ! 3 + d, h ! 4 + e, h ! 5 + f, h ! 6 + g, h ! 7 + hh], w))"

function sha256_chunks :: "int list \<Rightarrow> nat \<Rightarrow> int list \<times> int list \<Rightarrow> int list \<times> int list" where
  "sha256_chunks padded chunk hw =
     (if chunk < length padded
      then sha256_chunks padded (chunk + 64) (sha256_chunk padded chunk hw) else hw)"
  by pat_completeness auto
termination
  by (relation "measure (\<lambda>(padded, chunk, hw). length padded - chunk)") auto

declare sha256_chunks.simps [simp del]

definition sha256_out :: "int list \<Rightarrow> int list" where
  "sha256_out h =
     concat (map (\<lambda>i. [js_and (js_ushr (h ! i) 24) 0xff, js_and (js_ushr (h ! i) 16) 0xff,
                       js_and (js_ushr (h ! i) 8) 0xff, js_and (h ! i) 0xff]) [0..<8])"

text \<open>\<open>new Array(64)\<close> holds no numbers yet; every entry is written before it is read.\<close>

definition PureCrypto_sha256 :: "int list \<Rightarrow> int list" where
  "PureCrypto_sha256 bytes =
     sha256_out (fst (sha256_chunks (sha256_padded bytes) 0 (PureCrypto_h, replicate 64 0)))"

definition blockSize :: nat where "blockSize = 64"

definition PureCrypto_hmacSha256 :: "int list \<Rightarrow> int list \<Rightarrow> int list" where
  "PureCrypto_hmacSha256 keyBytes messageBytes =
     (let key = (if length keyBytes > blockSize then PureCrypto_sha256 keyBytes else keyBytes);
          padded = key @ replicate (blockSize - length key) 0;
          ipad = map (\<lambda>b. js_xor b 0x36) padded;
          opad = map (\<lambda>b. js_xor b 0x5c) padded;
          inner = PureCrypto_sha256 (ipad @ messageBytes)
      in PureCrypto_sha256 (opad @ inner))"

text \<open>\<open>toHex\<close>, and \<open>textToBytes\<close>: a string stands for its UTF-8 encoding.\<close>

definition textToBytes :: "string \<Rightarrow> int list" where
  "textToBytes str = map (\<lambda>c. int (byte c)) str"

definition digit16 :: "int \<Rightarrow> char" where
  "digit16 n = (if n < 10 then char_of (nat (48 + n)) else char_of (nat (87 + n)))"

definition toString16 :: "int \<Rightarrow> string" where
  "toString16 b = (if b < 16 then [digit16 b] else [digit16 (b div 16), digit16 (b mod 16)])"

definition padStart2 :: "string \<Rightarrow> string" where
  "padStart2 s = replicate (2 - length s) (CHR ''0'') @ s"

definition toHex :: "int list \<Rightarrow> string" where
  "toHex bytes = concat (map (\<lambda>b. padStart2 (toString16 b)) bytes)"

subsection \<open>The standard\<close>

text \<open>FIPS 180-4 on 32-bit words.\<close>

definition ROTR :: "nat \<Rightarrow> 32 word \<Rightarrow> 32 word" where "ROTR n x = (drop_bit n x OR push_bit (32 - n) x)"
definition Ch :: "32 word \<Rightarrow> 32 word \<Rightarrow> 32 word \<Rightarrow> 32 word" where "Ch x y z = ((x AND y) XOR (NOT x AND z))"
definition Maj :: "32 word \<Rightarrow> 32 word \<Rightarrow> 32 word \<Rightarrow> 32 word" where
  "Maj x y z = ((x AND y) XOR (x AND z) XOR (y AND z))"
definition Sigma0 :: "32 word \<Rightarrow> 32 word" where "Sigma0 x = (ROTR 2 x XOR ROTR 13 x XOR ROTR 22 x)"
definition Sigma1 :: "32 word \<Rightarrow> 32 word" where "Sigma1 x = (ROTR 6 x XOR ROTR 11 x XOR ROTR 25 x)"
definition sigma0 :: "32 word \<Rightarrow> 32 word" where "sigma0 x = (ROTR 7 x XOR ROTR 18 x XOR drop_bit 3 x)"
definition sigma1 :: "32 word \<Rightarrow> 32 word" where "sigma1 x = (ROTR 17 x XOR ROTR 19 x XOR drop_bit 10 x)"

text \<open>The constants: the first 32 bits of the fractional parts of the cube roots of the first 64
  primes, and of the square roots of the first eight.\<close>

definition first_primes :: "nat list" where
  "first_primes =
    [2, 3, 5, 7, 11, 13, 17, 19, 23, 29, 31, 37, 41, 43, 47, 53, 59, 61, 67, 71, 73, 79, 83, 89, 97,
     101, 103, 107, 109, 113, 127, 131, 137, 139, 149, 151, 157, 163, 167, 173, 179, 181, 191, 193,
     197, 199, 211, 223, 227, 229, 233, 239, 241, 251, 257, 263, 269, 271, 277, 281, 283, 293, 307, 311]"

definition floor_root :: "nat \<Rightarrow> nat \<Rightarrow> nat" where
  "floor_root k x = fold (\<lambda>b r. if (r + 2 ^ b) ^ k \<le> x then r + 2 ^ b else r) (rev [0..<37]) 0"

definition root_fraction :: "nat \<Rightarrow> nat \<Rightarrow> nat" where
  "root_fraction k p = floor_root k (p * 2 ^ (32 * k)) mod 2 ^ 32"

definition K256 :: "32 word list" where "K256 = map (\<lambda>p. of_nat (root_fraction 3 p)) first_primes"
definition H256 :: "32 word list" where "H256 = map (\<lambda>p. of_nat (root_fraction 2 p)) (take 8 first_primes)"

definition fips_pad :: "string \<Rightarrow> string" where
  "fips_pad m =
     m @ CHR 0x80 # replicate ((119 - length m mod 64) mod 64) (CHR 0x00)
       @ map (\<lambda>i. char_of (8 * length m div 2 ^ (8 * i))) (rev [0..<8])"

definition be_word :: "char \<Rightarrow> char \<Rightarrow> char \<Rightarrow> char \<Rightarrow> 32 word" where
  "be_word a b c d = of_nat (byte a * 2 ^ 24 + byte b * 2 ^ 16 + byte c * 2 ^ 8 + byte d)"

fun be32 :: "string \<Rightarrow> 32 word list" where
  "be32 (a # b # c # d # s) = be_word a b c d # be32 s"
| "be32 _ = []"

definition fips_next :: "nat \<Rightarrow> 32 word list \<Rightarrow> 32 word" where
  "fips_next t W = sigma1 (W ! (t - 2)) + W ! (t - 7) + sigma0 (W ! (t - 15)) + W ! (t - 16)"

definition fips_schedule :: "32 word list \<Rightarrow> 32 word list" where
  "fips_schedule = fold (\<lambda>t W. W @ [fips_next t W]) [16..<64]"

fun fips_round :: "32 word list \<Rightarrow> nat \<Rightarrow> 32 word working \<Rightarrow> 32 word working" where
  "fips_round W t (a, b, c, d, e, f, g, h) =
     (let T1 = h + Sigma1 e + Ch e f g + K256 ! t + W ! t; T2 = Sigma0 a + Maj a b c
      in (T1 + T2, a, b, c, d + T1, e, f, g))"

definition fips_block :: "32 word list \<Rightarrow> 32 word list \<Rightarrow> 32 word list" where
  "fips_block M H =
     (case fold (fips_round (fips_schedule M)) [0..<64] (H ! 0, H ! 1, H ! 2, H ! 3, H ! 4, H ! 5, H ! 6, H ! 7) of
        (a, b, c, d, e, f, g, h) \<Rightarrow>
          [a + H ! 0, b + H ! 1, c + H ! 2, d + H ! 3, e + H ! 4, f + H ! 5, g + H ! 6, h + H ! 7])"

definition word_bytes :: "32 word \<Rightarrow> string" where
  "word_bytes x = map (\<lambda>k. char_of (unat (drop_bit k x))) [24, 16, 8, 0]"

definition sha256_fips :: "string \<Rightarrow> string" where
  "sha256_fips m =
     (let M = fips_pad m
      in concat (map word_bytes
           (fold (\<lambda>i. fips_block (be32 (take 64 (drop (64 * i) M)))) [0..<length M div 64] H256)))"

text \<open>RFC 2104.\<close>

definition hmac_rfc :: "(string \<Rightarrow> string) \<Rightarrow> string \<Rightarrow> string \<Rightarrow> string" where
  "hmac_rfc H key message =
     (let K0 = (if length key > 64 then H key else key);
          K = K0 @ replicate (64 - length K0) (CHR 0x00);
          pad = (\<lambda>v. map (\<lambda>c. char_of (byte c XOR v)) K)
      in H (pad 0x5c @ H (pad 0x36 @ message)))"

subsection \<open>The operators on words\<close>

abbreviation w32 :: "int \<Rightarrow> 32 word" where "w32 \<equiv> word_of_int"

named_theorems w32_hom \<open>JavaScript's operators are the word operations on the low 32 bits\<close>

lemma w32_ToInt32 [w32_hom]: "w32 (ToInt32 x) = w32 x"
proof (rule bit_word_eqI)
  fix n assume "n < LENGTH(32)"
  then have "min n 31 = n" by simp
  then show "bit (w32 (ToInt32 x)) n = bit (w32 x) n"
    by (simp add: ToInt32_def bit_word_of_int_iff bit_signed_take_bit_iff)
qed

lemma w32_js_or [w32_hom]: "w32 (js_or x y) = (w32 x OR w32 y)"
  unfolding js_or_def by (simp flip: w32_ToInt32 [of x] w32_ToInt32 [of y] add: of_int_or_eq)

lemma w32_js_xor [w32_hom]: "w32 (js_xor x y) = (w32 x XOR w32 y)"
  unfolding js_xor_def by (simp flip: w32_ToInt32 [of x] w32_ToInt32 [of y] add: of_int_xor_eq)

lemma w32_js_and [w32_hom]: "w32 (js_and x y) = (w32 x AND w32 y)"
  unfolding js_and_def by (simp flip: w32_ToInt32 [of x] w32_ToInt32 [of y] add: of_int_and_eq)

lemma w32_js_not [w32_hom]: "w32 (js_not x) = NOT (w32 x)"
  unfolding js_not_def by (simp flip: w32_ToInt32 [of x] add: of_int_not_eq)

lemma w32_js_shl [w32_hom]: "w32 (js_shl x n) = push_bit (n mod 32) (w32 x)"
  unfolding js_shl_def w32_ToInt32
  by (simp flip: w32_ToInt32 [of x] add: of_int_push_bit)

lemma w32_js_ushr [w32_hom]: "w32 (js_ushr x n) = drop_bit (n mod 32) (w32 x)"
  by (rule bit_word_eqI)
    (auto simp: js_ushr_def ToUint32_def bit_word_of_int_iff bit_drop_bit_eq bit_take_bit_iff)

lemma w32_rotr [w32_hom]: "0 < n \<Longrightarrow> n < 32 \<Longrightarrow> w32 (rotr x n) = ROTR n (w32 x)"
  by (simp add: rotr_def ROTR_def w32_hom)

lemma js_and_byte: "js_and x 0xff = x mod 256"
proof -
  have "ToInt32 255 = mask 8" by (simp add: ToInt32_def mask_eq_exp_minus_1)
  then have "js_and x 0xff = take_bit 8 (ToInt32 x)" by (simp add: js_and_def take_bit_eq_mask)
  also have "\<dots> = take_bit 8 x" by (simp add: ToInt32_def take_bit_signed_take_bit)
  also have "\<dots> = x mod 256" by (simp add: take_bit_eq_mod)
  finally show ?thesis .
qed

lemma js_xor_byte:
  assumes "0 \<le> x" "x < 256" "0 \<le> y" "y < 256"
  shows "js_xor x y = (x XOR y)"
  using assms by (simp add: js_xor_def ToInt32_def signed_take_bit_int_eq_self)

subsection \<open>Padding\<close>

lemma length_textToBytes [simp]: "length (textToBytes m) = length m"
  by (simp add: textToBytes_def)

lemma textToBytes_append: "textToBytes (a @ b) = textToBytes a @ textToBytes b"
  by (simp add: textToBytes_def)

lemma push_zeros_eq: "push_zeros p = p @ replicate ((120 - length p mod 64) mod 64) 0"
proof (induction p rule: push_zeros.induct)
  case (1 p)
  show ?case
  proof (cases "length p mod 64 = 56")
    case True
    then show ?thesis by (subst push_zeros.simps) simp
  next
    case False
    then have "(120 - length p mod 64) mod 64 = Suc ((120 - Suc (length p) mod 64) mod 64)"
      unfolding pad_room by (auto simp: mod_Suc)
    with 1 False show ?thesis by (subst push_zeros.simps) simp
  qed
qed

lemma byte_char_of_mod: "byte (char_of (n :: nat)) = n mod 256"
  by (simp add: byte_def)

lemma fold_push: "fold (\<lambda>i p. p @ [g i]) is p = p @ map g is"
  by (induction "is" arbitrary: p) auto

lemma sha256_padded_eq: "sha256_padded (textToBytes m) = textToBytes (fips_pad m)"
proof -
  let ?size = "\<lambda>i. char_of (8 * length m div 2 ^ (8 * i)) :: char"
  have zeros: "(120 - Suc (length m) mod 64) mod 64 = (119 - length m mod 64) mod 64"
    by (simp add: mod_Suc)
  have "js_and (int (length m) * 8 div 2 ^ (i * 8)) 0xff = int (byte (?size i))" for i
    by (simp only: js_and_byte byte_char_of_mod) (simp add: zmod_int zdiv_int mult.commute)
  then have "push_length (int (length m) * 8) p = p @ map (\<lambda>i. int (byte (?size i))) (rev [0..<8])" for p
    unfolding push_length_def fold_push by (simp only:)
  moreover have "push_zeros (textToBytes m @ [0x80])
      = textToBytes m @ 0x80 # replicate ((119 - length m mod 64) mod 64) 0"
    using zeros by (simp add: push_zeros_eq)
  moreover have "int (byte (CHR 0x80)) = 0x80" "int (byte (CHR 0x00)) = 0" by (simp_all add: byte_def)
  ultimately show ?thesis
    unfolding sha256_padded_def fips_pad_def length_textToBytes
    by (simp only: textToBytes_def map_append list.map map_replicate map_map o_def append_assoc append_Cons)
qed

lemma length_fips_pad: "length (fips_pad m) mod 64 = 0"
proof -
  define r where "r = length m mod 64"
  have "(119 - r) mod 64 = (if r \<le> 55 then 55 - r else 119 - r)"
    using pad_room [of "Suc r"] by (auto simp: mod_Suc r_def split: if_splits)
  then have "(r + ((119 - r) mod 64) + 9) mod 64 = 0" by (auto simp: r_def)
  moreover have "length (fips_pad m) = 64 * (length m div 64) + (r + (119 - r) mod 64 + 9)"
    by (simp add: fips_pad_def r_def)
  ultimately show ?thesis by (simp only: mod_mult_self4)
qed

subsection \<open>The message schedule\<close>

lemma fold_update:
  "n \<le> length w \<Longrightarrow> fold (\<lambda>i w. w[i := f i]) [0..<n] w = map f [0..<n] @ drop n w"
proof (induction n)
  case (Suc n)
  then have "fold (\<lambda>i w. w[i := f i]) [0..<Suc n] w = (map f [0..<n] @ drop n w)[n := f n]" by simp
  also have "drop n w = w ! n # drop (Suc n) w" using Suc.prems by (simp add: Cons_nth_drop_Suc)
  finally show ?case by (simp add: list_update_append)
qed simp

lemma byte_bits: "bit (of_nat (byte c) :: 32 word) n \<Longrightarrow> n < 8"
proof -
  assume "bit (of_nat (byte c) :: 32 word) n"
  then have "bit (byte c) n" by (simp add: bit_of_nat_iff)
  moreover have "take_bit 8 (byte c) = byte c" using byte_less [of c] by (simp add: take_bit_nat_eq_self_iff)
  ultimately show ?thesis by (metis bit_take_bit_iff)
qed

lemma disjoint_or:
  fixes x y :: "32 word"
  assumes "\<And>n. bit x n \<Longrightarrow> bit y n \<Longrightarrow> False"
  shows "(x OR y) = x + y"
proof -
  have "(x AND y) = 0" using assms by (auto intro!: bit_word_eqI simp: bit_and_iff)
  then show ?thesis using word_plus_and_or [of x y] by simp
qed

lemma be_word_or:
  "(push_bit 24 (of_nat (byte a)) OR push_bit 16 (of_nat (byte b)) OR push_bit 8 (of_nat (byte c))
     OR of_nat (byte d) :: 32 word) = be_word a b c d"
proof -
  let ?w = "\<lambda>c. of_nat (byte c) :: 32 word"
  have "(push_bit 8 (?w c) OR ?w d) = push_bit 8 (?w c) + ?w d"
    by (rule disjoint_or) (auto simp: bit_push_bit_iff dest!: byte_bits)
  moreover have "(push_bit 16 (?w b) OR push_bit 8 (?w c) OR ?w d) = push_bit 16 (?w b) + (push_bit 8 (?w c) OR ?w d)"
    by (rule disjoint_or) (auto simp: bit_push_bit_iff bit_or_iff dest!: byte_bits)
  moreover have "(push_bit 24 (?w a) OR push_bit 16 (?w b) OR push_bit 8 (?w c) OR ?w d)
      = push_bit 24 (?w a) + (push_bit 16 (?w b) OR push_bit 8 (?w c) OR ?w d)"
    by (rule disjoint_or) (auto simp: bit_push_bit_iff bit_or_iff dest!: byte_bits)
  ultimately show ?thesis by (simp add: be_word_def push_bit_eq_mult algebra_simps)
qed

lemma be32_nth:
  "4 * n \<le> length s \<Longrightarrow> i < n \<Longrightarrow> be32 s ! i =
     be_word (s ! (4 * i)) (s ! (4 * i + 1)) (s ! (4 * i + 2)) (s ! (4 * i + 3))"
proof (induction s arbitrary: n i rule: be32.induct)
  case (1 a b c d s)
  then show ?case by (cases i; cases n) (auto simp: numeral_eq_Suc)
qed auto

lemma length_be32: "length (be32 s) = length s div 4"
  by (induction s rule: be32.induct) auto

lemma sha256_load_eq:
  assumes "length w = 64" and "chunk + 64 \<le> length M"
  shows "map w32 (take 16 (sha256_load (textToBytes M) chunk w)) = be32 (take 64 (drop chunk M))"
    and "length (sha256_load (textToBytes M) chunk w) = 64"
proof -
  let ?f = "\<lambda>i. js_or (js_or (js_or (js_shl (textToBytes M ! (chunk + i * 4)) 24)
      (js_shl (textToBytes M ! (chunk + i * 4 + 1)) 16)) (js_shl (textToBytes M ! (chunk + i * 4 + 2)) 8))
      (textToBytes M ! (chunk + i * 4 + 3))"
  have load: "sha256_load (textToBytes M) chunk w = map ?f [0..<16] @ drop 16 w"
    unfolding sha256_load_def by (rule fold_update) (simp add: assms(1))
  then show "length (sha256_load (textToBytes M) chunk w) = 64" using assms(1) by simp
  show "map w32 (take 16 (sha256_load (textToBytes M) chunk w)) = be32 (take 64 (drop chunk M))"
  proof (rule nth_equalityI)
    fix i assume "i < length (map w32 (take 16 (sha256_load (textToBytes M) chunk w)))"
    then have i: "i < 16" by simp
    have "w32 (?f i) = be32 (take 64 (drop chunk M)) ! i"
      using i assms(2) be32_nth [of 16 "take 64 (drop chunk M)" i]
      by (simp add: w32_hom textToBytes_def be_word_or or.assoc mult.commute add.assoc)
    then show "map w32 (take 16 (sha256_load (textToBytes M) chunk w)) ! i = be32 (take 64 (drop chunk M)) ! i"
      using i by (simp add: load)
  qed (use assms in \<open>simp add: load length_be32\<close>)
qed

lemma length_extend_at [simp]: "length (extend_at i w) = length w"
  by (simp add: extend_at_def Let_def)

lemma extend_at_eq:
  assumes "length w = 64" and "map w32 (take i w) = W" and "16 \<le> i" "i < 64"
  shows "map w32 (take (Suc i) (extend_at i w)) = W @ [fips_next i W]"
proof -
  have nth: "w32 (w ! j) = W ! j" if "j < i" for j
    using that assms(1,4) by (simp add: assms(2) [symmetric])
  show ?thesis
    using assms(1,3,4)
    by (simp add: extend_at_def Let_def take_Suc_conv_app_nth assms(2) w32_hom nth fips_next_def sigma0_def
        sigma1_def xor.assoc)
qed

lemma sha256_extend_eq:
  assumes "length w = 64" and "map w32 (take 16 w) = M"
  shows "map w32 (sha256_extend w) = fips_schedule M" and "length (sha256_extend w) = 64"
proof -
  have run: "m \<le> 64 \<Longrightarrow> length (fold extend_at [16..<m] w) = 64
      \<and> map w32 (take m (fold extend_at [16..<m] w)) = fold (\<lambda>t W. W @ [fips_next t W]) [16..<m] M"
    if "16 \<le> m" for m
    using that
  proof (induction m rule: dec_induct)
    case (step m)
    let ?v = "fold extend_at [16..<m] w" and ?W = "fold (\<lambda>t W. W @ [fips_next t W]) [16..<m] M"
    have "map w32 (take (Suc m) (extend_at m ?v)) = ?W @ [fips_next m ?W]"
      by (rule extend_at_eq) (use step in simp_all)
    moreover have "length (extend_at m ?v) = 64" using step by simp
    ultimately show ?case using step(1) by simp
  qed (simp add: assms)
  have ext: "length (fold extend_at [16..<64] w) = 64
      \<and> map w32 (take 64 (fold extend_at [16..<64] w)) = fold (\<lambda>t W. W @ [fips_next t W]) [16..<64] M"
    by (rule run) simp_all
  then show "length (sha256_extend w) = 64" unfolding sha256_extend_def by blast
  from ext have "take 64 (fold extend_at [16..<64] w) = fold extend_at [16..<64] w" by (metis order_refl take_all)
  with ext show "map w32 (sha256_extend w) = fips_schedule M"
    unfolding sha256_extend_def fips_schedule_def by argo
qed

subsection \<open>Compression\<close>

text \<open>Bisection finds the root, so the tables of the code can be checked against their description.\<close>

lemma floor_root_bisect:
  fixes r x :: nat
  shows "r ^ k \<le> x \<Longrightarrow> x < (r + 2 ^ n) ^ k \<Longrightarrow>
   (let q = fold (\<lambda>b r. if (r + 2 ^ b) ^ k \<le> x then r + 2 ^ b else r) (rev [0..<n]) r
    in q ^ k \<le> x \<and> x < (q + 1) ^ k)"
proof (induction n arbitrary: r)
  case (Suc n)
  show ?case
  proof (cases "(r + 2 ^ n) ^ k \<le> x")
    case True
    then show ?thesis using Suc.IH [of "r + 2 ^ n"] Suc.prems by (simp add: Let_def mult_2 add.assoc)
  next
    case False
    then show ?thesis using Suc.IH [of r] Suc.prems by (simp add: Let_def)
  qed
qed (simp add: Let_def)

lemma root_fraction_eq:
  assumes "(c * 2 ^ 32 + f) ^ k \<le> p * 2 ^ (32 * k)" and "p * 2 ^ (32 * k) < (c * 2 ^ 32 + f + 1) ^ k"
    and "f < 2 ^ 32" and "c < 31" and "0 < k"
  shows "root_fraction k p = f"
proof -
  let ?x = "p * 2 ^ (32 * k)" and ?r = "c * 2 ^ 32 + f"
  have "(?r + 1) ^ k \<le> (2 ^ 37) ^ k" using assms(3,4) by (intro power_mono) auto
  then have "?x < (0 + 2 ^ 37) ^ k" using assms(2) by simp
  then have "floor_root k ?x ^ k \<le> ?x \<and> ?x < (floor_root k ?x + 1) ^ k"
    using floor_root_bisect [of 0 k ?x 37] assms(5) by (simp add: floor_root_def Let_def power_0_left)
  then have "floor_root k ?x ^ k < (?r + 1) ^ k" "?r ^ k < (floor_root k ?x + 1) ^ k"
    using assms(1,2) by linarith+
  then have "floor_root k ?x < ?r + 1" "?r < floor_root k ?x + 1"
    using power_less_imp_less_base zero_le by blast+
  then have "floor_root k ?x = ?r" by simp
  then show ?thesis using assms(3) by (simp add: root_fraction_def)
qed

definition is_root :: "nat \<Rightarrow> nat \<Rightarrow> nat \<Rightarrow> int \<Rightarrow> bool" where
  "is_root k c p f \<longleftrightarrow>
     0 \<le> f \<and> f < 2 ^ 32 \<and> (int c * 2 ^ 32 + f) ^ k \<le> int p * 2 ^ (32 * k)
     \<and> int p * 2 ^ (32 * k) < (int c * 2 ^ 32 + f + 1) ^ k"

lemma is_root_word:
  assumes "is_root k c p f" and "c < 31" and "0 < k"
  shows "of_nat (root_fraction k p) = w32 f"
proof -
  obtain n where n: "f = int n" using assms(1) nonneg_int_cases by (auto simp: is_root_def)
  have "int ((c * 2 ^ 32 + n) ^ k) \<le> int (p * 2 ^ (32 * k))"
    using assms(1) unfolding is_root_def n by simp
  then have le: "(c * 2 ^ 32 + n) ^ k \<le> p * 2 ^ (32 * k)" by (simp only: of_nat_le_iff)
  have "int (p * 2 ^ (32 * k)) < int ((c * 2 ^ 32 + n + 1) ^ k)"
    using assms(1) unfolding is_root_def n by (simp add: add.commute)
  then have lt: "p * 2 ^ (32 * k) < (c * 2 ^ 32 + n + 1) ^ k" by (simp only: of_nat_less_iff)
  have "n < 2 ^ 32" using assms(1) by (simp add: is_root_def n)
  then have "root_fraction k p = n" using root_fraction_eq [OF le lt _ assms(2,3)] by blast
  then show ?thesis by (simp add: n)
qed

definition cube_floor :: "nat \<Rightarrow> nat" where
  "cube_floor p = (if p < 8 then 1 else if p < 27 then 2 else if p < 64 then 3 else if p < 125 then 4
                   else if p < 216 then 5 else 6)"

definition square_floor :: "nat \<Rightarrow> nat" where
  "square_floor p = (if p < 4 then 1 else if p < 9 then 2 else if p < 16 then 3 else 4)"

lemma K256_roots: "list_all2 (\<lambda>p. is_root 3 (cube_floor p) p) first_primes PureCrypto_K"
  by (simp add: first_primes_def PureCrypto_K_def cube_floor_def is_root_def)

lemma H256_roots: "list_all2 (\<lambda>p. is_root 2 (square_floor p) p) (take 8 first_primes) PureCrypto_h"
  by (simp add: first_primes_def PureCrypto_h_def square_floor_def is_root_def)

lemma roots_words:
  assumes "list_all2 (\<lambda>p. is_root k (g p) p) ps fs" and "\<And>p. g p < 31" and "0 < k"
  shows "map (\<lambda>p. of_nat (root_fraction k p)) ps = map w32 fs"
  using assms(1) by (induction ps fs rule: list_all2_induct) (auto intro: is_root_word assms(2,3))

lemma K256_table: "K256 = map w32 PureCrypto_K"
  unfolding K256_def by (rule roots_words [OF K256_roots]) (simp_all add: cube_floor_def)

lemma H256_table: "H256 = map w32 PureCrypto_h"
  unfolding H256_def by (rule roots_words [OF H256_roots]) (simp_all add: square_floor_def)

fun words8 :: "int working \<Rightarrow> 32 word working" where
  "words8 (a, b, c, d, e, f, g, h) = (w32 a, w32 b, w32 c, w32 d, w32 e, w32 f, w32 g, w32 h)"

lemma sha256_round_eq:
  assumes "i < 64" and "length w = 64"
  shows "words8 (sha256_round w i s) = fips_round (map w32 w) i (words8 s)"
proof -
  have "length PureCrypto_K = 64" by (simp add: PureCrypto_K_def)
  then show ?thesis
    using assms
    by (cases s rule: words8.cases) (simp add: Let_def w32_hom K256_table Sigma0_def Sigma1_def Ch_def Maj_def xor.assoc)
qed

lemma sha256_rounds_eq:
  assumes "length w = 64"
  shows "n \<le> 64 \<Longrightarrow> words8 (fold (sha256_round w) [0..<n] s) = fold (fips_round (map w32 w)) [0..<n] (words8 s)"
  by (induction n) (simp_all add: sha256_round_eq assms)

lemma sha256_chunk_eq:
  assumes "length h = 8" and "length w = 64" and "chunk + 64 \<le> length M"
    and "sha256_chunk (textToBytes M) chunk (h, w) = (h', w')"
  shows "map w32 h' = fips_block (be32 (take 64 (drop chunk M))) (map w32 h)" "length h' = 8" "length w' = 64"
proof -
  let ?w = "sha256_extend (sha256_load (textToBytes M) chunk w)"
  let ?s = "(h ! 0, h ! 1, h ! 2, h ! 3, h ! 4, h ! 5, h ! 6, h ! 7)"
  obtain a b c d e f g hh where r: "fold (sha256_round ?w) [0..<64] ?s = (a, b, c, d, e, f, g, hh)"
    by (rule words8.cases)
  have ext: "map w32 ?w = fips_schedule (be32 (take 64 (drop chunk M)))" "length ?w = 64"
    using sha256_extend_eq [OF sha256_load_eq(2) sha256_load_eq(1), OF assms(2,3) assms(2,3)] by blast+
  have "fold (fips_round (map w32 ?w)) [0..<64] (words8 ?s) = words8 (a, b, c, d, e, f, g, hh)"
    unfolding r [symmetric] by (rule sha256_rounds_eq [OF ext(2) order_refl, symmetric])
  then show "map w32 h' = fips_block (be32 (take 64 (drop chunk M))) (map w32 h)"
    using assms r unfolding sha256_chunk_def fips_block_def ext(1)
    by (auto simp: w32_hom add.commute simp del: upt_rec_numeral)
  show "length h' = 8" "length w' = 64"
    using assms r ext(2) unfolding sha256_chunk_def by (auto simp del: upt_rec_numeral)
qed

lemma sha256_chunks_fold:
  assumes "length padded = 64 * n"
  shows "k \<le> n \<Longrightarrow> sha256_chunks padded (64 * (n - k)) hw = fold (\<lambda>i. sha256_chunk padded (64 * i)) [n - k..<n] hw"
proof (induction k arbitrary: hw)
  case 0
  then show ?case by (subst sha256_chunks.simps) (simp add: assms)
next
  case (Suc k)
  then have "n - Suc k < n" and next_chunk: "64 * (n - Suc k) + 64 = 64 * (n - k)" and "Suc (n - Suc k) = n - k"
    by simp_all
  then have "[n - Suc k..<n] = (n - Suc k) # [n - k..<n]" by (simp add: upt_conv_Cons)
  then show ?case
    using Suc assms by (subst sha256_chunks.simps) (simp add: next_chunk del: diff_Suc_less)
qed

lemma sha256_chunks_eq:
  assumes "length M = 64 * n" and "length h = 8" and "length w = 64"
  shows "m \<le> n \<Longrightarrow>
    (case fold (\<lambda>i. sha256_chunk (textToBytes M) (64 * i)) [0..<m] (h, w) of (h', w') \<Rightarrow>
       map w32 h' = fold (\<lambda>i. fips_block (be32 (take 64 (drop (64 * i) M)))) [0..<m] (map w32 h)
       \<and> length h' = 8 \<and> length w' = 64)"
proof (induction m)
  case (Suc m)
  obtain h1 w1 where r: "fold (\<lambda>i. sha256_chunk (textToBytes M) (64 * i)) [0..<m] (h, w) = (h1, w1)" by fastforce
  obtain h2 w2 where c: "sha256_chunk (textToBytes M) (64 * m) (h1, w1) = (h2, w2)" by fastforce
  have "64 * m + 64 \<le> length M" using Suc.prems assms(1) by simp
  then show ?case using Suc r c sha256_chunk_eq [OF _ _ _ c] by simp
qed (simp add: assms)

subsection \<open>The digest\<close>

lemma digest_byte: "js_and x 0xff = int (byte (char_of (unat (w32 x))))"
proof -
  have "int (unat (w32 x)) = x mod 2 ^ 32" by (simp add: uint_nat [symmetric] uint_word_of_int)
  then show ?thesis by (simp only: js_and_byte byte_char_of_mod zmod_int) (simp add: mod_mod_cancel)
qed

lemma sha256_out_eq:
  assumes "length h = 8"
  shows "sha256_out h = textToBytes (concat (map word_bytes (map w32 h)))"
proof -
  have "textToBytes (word_bytes (w32 x))
      = [js_and (js_ushr x 24) 0xff, js_and (js_ushr x 16) 0xff, js_and (js_ushr x 8) 0xff, js_and x 0xff]" for x
    by (simp add: word_bytes_def textToBytes_def digest_byte w32_hom)
  then have "sha256_out h = concat (map (\<lambda>i. textToBytes (word_bytes (w32 (h ! i)))) [0..<length h])"
    by (simp only: sha256_out_def assms)
  also have "\<dots> = concat (map (\<lambda>x. textToBytes (word_bytes (w32 x))) (map ((!) h) [0..<length h]))"
    by (simp only: map_map o_def)
  finally show ?thesis by (simp add: map_nth textToBytes_def map_concat o_def)
qed

lemma PureCrypto_sha256_eq: "PureCrypto_sha256 (textToBytes m) = textToBytes (sha256_fips m)"
proof -
  define M where "M = fips_pad m"
  define n where "n = length M div 64"
  have n: "length M = 64 * n" using length_fips_pad [of m] by (auto simp: M_def n_def)
  obtain h w where r: "fold (\<lambda>i. sha256_chunk (textToBytes M) (64 * i)) [0..<n] (PureCrypto_h, replicate 64 0) = (h, w)"
    by fastforce
  have "length PureCrypto_h = 8" by (simp add: PureCrypto_h_def)
  then have "map w32 h = fold (\<lambda>i. fips_block (be32 (take 64 (drop (64 * i) M)))) [0..<n] H256" "length h = 8"
    using sha256_chunks_eq [OF n, of PureCrypto_h "replicate 64 0" n] by (simp_all add: r H256_table)
  moreover have "sha256_chunks (textToBytes M) 0 (PureCrypto_h, replicate 64 0) = (h, w)"
    using sha256_chunks_fold [of "textToBytes M" n n] n by (simp add: r)
  ultimately show ?thesis
    by (simp add: PureCrypto_sha256_def sha256_padded_eq M_def [symmetric] sha256_out_eq sha256_fips_def
        n_def [symmetric] Let_def)
qed

lemma length_sha256_fips: "length (sha256_fips m) = 32"
proof -
  have "length (fips_block M H) = 8" for M H by (simp add: fips_block_def split: prod.split)
  then have "length (fold (\<lambda>i. fips_block (f i)) is H) = 8" if "length H = 8" for f and "is" :: "nat list" and H
    using that by (induction "is" arbitrary: H) simp_all
  moreover have "length H256 = 8" by (simp add: H256_table PureCrypto_h_def)
  ultimately have "length (fold (\<lambda>i. fips_block (f i)) is H256) = 8" for f and "is" :: "nat list" by blast
  then show ?thesis by (simp add: sha256_fips_def Let_def length_concat word_bytes_def o_def sum_list_triv)
qed

subsection \<open>HMAC and hexadecimal\<close>

lemma js_xor_text:
  assumes "v < 256"
  shows "js_xor (int (byte c)) (int v) = int (byte (char_of (byte c XOR v)))"
proof -
  have "(byte c XOR v) = take_bit 8 (byte c XOR v)"
    using assms byte_less [of c] by (simp add: take_bit_xor take_bit_nat_eq_self)
  also have "\<dots> < 256" by (simp add: take_bit_eq_mod)
  finally have "(byte c XOR v) < 256" .
  then show ?thesis
    using assms byte_less [of c] js_xor_byte [of "int (byte c)" "int v"]
    by (simp add: byte_char_of_mod of_nat_xor_eq)
qed

lemma PureCrypto_hmacSha256_eq:
  "PureCrypto_hmacSha256 (textToBytes key) (textToBytes m) = textToBytes (hmac_rfc sha256_fips key m)"
proof -
  have pad: "map (\<lambda>b. js_xor b (int v)) (textToBytes s) = textToBytes (map (\<lambda>c. char_of (byte c XOR v)) s)"
    if "v < 256" for v s using that by (simp add: textToBytes_def js_xor_text)
  have zeros: "textToBytes s @ replicate n 0 = textToBytes (s @ replicate n (CHR 0x00))" for s n
    by (simp add: textToBytes_def byte_def)
  have key: "(if length (textToBytes key) > blockSize then PureCrypto_sha256 (textToBytes key) else textToBytes key)
      = textToBytes (if length key > 64 then sha256_fips key else key)"
    by (simp add: PureCrypto_sha256_eq blockSize_def)
  have ipad: "map (\<lambda>b. js_xor b 0x36) (textToBytes s) = textToBytes (map (\<lambda>c. char_of (byte c XOR 0x36)) s)"
    and opad: "map (\<lambda>b. js_xor b 0x5c) (textToBytes s) = textToBytes (map (\<lambda>c. char_of (byte c XOR 0x5c)) s)"
    for s using pad [of 54 s] pad [of 92 s] by simp_all
  show ?thesis
    unfolding PureCrypto_hmacSha256_def hmac_rfc_def Let_def key zeros ipad opad
    by (simp only: textToBytes_append [symmetric] PureCrypto_sha256_eq length_textToBytes blockSize_def)
qed

lemma length_hmac_rfc: "length (hmac_rfc sha256_fips key m) = 32"
  by (simp add: hmac_rfc_def Let_def length_sha256_fips)

lemma toHex_text: "toHex (textToBytes s) = hex_of_bytes s"
proof -
  have "padStart2 (toString16 (int (byte c))) = [nibble (byte c div 16), nibble (byte c mod 16)]" for c
  proof -
    have "digit16 (int n) = nibble n" for n by (simp add: digit16_def nibble_def nat_add_distrib)
    moreover have "nibble 0 = CHR ''0''" by code_simp
    moreover have "int (byte c) div 16 = int (byte c div 16)" "int (byte c) mod 16 = int (byte c mod 16)"
      by (simp_all add: zdiv_int zmod_int)
    ultimately show ?thesis by (simp add: padStart2_def toString16_def)
  qed
  then show ?thesis by (simp add: toHex_def hex_of_bytes_def textToBytes_def o_def)
qed

subsection \<open>No sum is rounded\<close>

text \<open>Results of the bitwise operators are below \<open>2 ^ 32\<close>, so each sum the code forms of at most five of
  them is an integer a double holds exactly.\<close>

definition below32 :: "int \<Rightarrow> bool" where "below32 x \<longleftrightarrow> \<bar>x\<bar> \<le> 2 ^ 32"
definition exact_double :: "int \<Rightarrow> bool" where "exact_double x \<longleftrightarrow> \<bar>x\<bar> \<le> 2 ^ 53"

lemma below32_ToInt32: "below32 (ToInt32 x)"
  using signed_take_bit_int_less_exp [of 31 x] signed_take_bit_int_greater_eq_minus_exp [of 31 x]
  unfolding below32_def ToInt32_def by simp

lemma js_ops_ToInt32:
  "js_or x y = ToInt32 (x OR y)" "js_xor x y = ToInt32 (x XOR y)" "js_and x y = ToInt32 (x AND y)"
  by (auto intro!: bit_eqI simp: js_or_def js_xor_def js_and_def ToInt32_def bit_signed_take_bit_iff bit_or_iff
      bit_xor_iff bit_and_iff)

lemma below32_ops [simp]:
  "below32 (js_or x y)" "below32 (js_xor x y)" "below32 (js_and x y)" "below32 (rotr x n)"
  by (simp_all add: js_ops_ToInt32 below32_ToInt32 rotr_def)

lemma below32_tables [simp]: "i < 64 \<Longrightarrow> below32 (PureCrypto_K ! i)"
proof -
  assume "i < 64"
  moreover have "list_all below32 PureCrypto_K" by (simp add: PureCrypto_K_def below32_def)
  moreover have "length PureCrypto_K = 64" by (simp add: PureCrypto_K_def)
  ultimately show ?thesis by (simp add: list_all_length)
qed

lemma sums_exact:
  "below32 a \<Longrightarrow> below32 b \<Longrightarrow> exact_double (a + b)"
  "below32 a \<Longrightarrow> below32 b \<Longrightarrow> below32 c \<Longrightarrow> below32 d \<Longrightarrow> exact_double (a + b + c + d)"
  "below32 a \<Longrightarrow> below32 b \<Longrightarrow> below32 c \<Longrightarrow> below32 d \<Longrightarrow> below32 e \<Longrightarrow> exact_double (a + b + c + d + e)"
  by (simp_all add: below32_def exact_double_def)

fun all_below32 :: "int working \<Rightarrow> bool" where
  "all_below32 (a, b, c, d, e, f, g, h) \<longleftrightarrow>
     below32 a \<and> below32 b \<and> below32 c \<and> below32 d \<and> below32 e \<and> below32 f \<and> below32 g \<and> below32 h"

lemma rounds_below32: "all_below32 s \<Longrightarrow> all_below32 (fold (sha256_round w) is s)"
proof (induction "is" arbitrary: s)
  case (Cons i "is")
  moreover have "all_below32 (sha256_round w i s)"
    using Cons.prems by (cases s rule: words8.cases) (simp add: Let_def)
  ultimately show ?case by simp
qed simp

lemma round_sums_exact:
  assumes "i < 64" and "below32 (w ! i)" and "all_below32 (a, b, c, d, e, f, g, h)"
  shows "exact_double (h + js_xor x y + js_xor u v + PureCrypto_K ! i + w ! i)"
    and "exact_double (js_xor x y + js_xor u v)" and "exact_double (d + js_or x y)" and "exact_double (js_or x y + js_or u v)"
  by (rule sums_exact(3), use assms in simp_all) (rule sums_exact(1), use assms in simp_all)+

subsection \<open>Properties\<close>

text \<open>
  C25: the web interface's hashing is the standard's. For every byte string, the digest and the
  message authentication code that \<open>PureCrypto\<close> computes with JavaScript's signed 32-bit operators
  are SHA-256 of FIPS 180-4 and HMAC of RFC 2104 over it, and both are 32 bytes.
\<close>

theorem PureCrypto_standard:
  "PureCrypto_sha256 (textToBytes m) = textToBytes (sha256_fips m)
   \<and> PureCrypto_hmacSha256 (textToBytes key) (textToBytes m) = textToBytes (hmac_rfc sha256_fips key m)
   \<and> length (PureCrypto_sha256 (textToBytes m)) = 32
   \<and> length (PureCrypto_hmacSha256 (textToBytes key) (textToBytes m)) = 32"
  by (simp add: PureCrypto_sha256_eq PureCrypto_hmacSha256_eq length_sha256_fips length_hmac_rfc)

end
