(* ===== verification/Web_Client.thy ===== *)
theory Web_Client
  imports Web_Crypto Router
begin

text \<open>
  The network side of the web interface, \<open>static/app.js\<close>: the stored session, the two base paths,
  request signing and \<open>apiCall\<close>. The browser is passed in: what \<open>crypto.subtle\<close> computes where it
  exists, the clock in milliseconds, the page's path, and \<open>JSON.parse\<close>. \<open>sessionStorage\<close> is a map.
  A string stands for its UTF-8 bytes, as on the server, so the two sides can be composed.
\<close>

subsection \<open>Base paths\<close>

text \<open>\<open>String.prototype.trim\<close>: white space and line terminators of ECMAScript. Unlike \<open>str::trim\<close> it takes
  away U+FEFF and leaves U+0085.\<close>

definition js_white_space :: "string list" where
  "js_white_space =
     [CHR 0xEF, CHR 0xBB, CHR 0xBF] # filter (\<lambda>w. w \<noteq> [CHR 0xC2, CHR 0x85]) white_space"

definition js_trim :: "string \<Rightarrow> string" where
  "js_trim s = rev (strip_seqs (map rev js_white_space) (rev (strip_seqs js_white_space s)))"

definition slash :: char where "slash = CHR ''/''"

definition strip_leading_slashes :: "string \<Rightarrow> string" where
  "strip_leading_slashes s = dropWhile (\<lambda>c. c = slash) s"

definition strip_trailing_slashes :: "string \<Rightarrow> string" where
  "strip_trailing_slashes s = rev (dropWhile (\<lambda>c. c = slash) (rev s))"

definition normalizeBasePath :: "string \<Rightarrow> string" where
  "normalizeBasePath raw =
     (let trimmed = js_trim raw
      in if trimmed = [] then [] else slash # strip_trailing_slashes (strip_leading_slashes trimmed))"

text \<open>\<open>path.slice(0, path.lastIndexOf('/') + 1) || '/'\<close>, without its trailing slashes.\<close>

definition deriveRequestBase :: "string \<Rightarrow> string" where
  "deriveRequestBase pathname =
     (let cut = rev (dropWhile (\<lambda>c. c \<noteq> slash) (rev pathname));
          dir = (if cut = [] then [slash] else cut)
      in strip_trailing_slashes dir)"

text \<open>\<open>replace(/\/{2,}/g, '/')\<close>.\<close>

fun collapse_slashes :: "string \<Rightarrow> string" where
  "collapse_slashes (x # y # s) =
     (if x = slash \<and> y = slash then collapse_slashes (y # s) else x # collapse_slashes (y # s))"
| "collapse_slashes s = s"

subsection \<open>The session\<close>

type_synonym session_storage = "string \<Rightarrow> string option"

definition getItem_or_empty :: "string \<Rightarrow> session_storage \<Rightarrow> string" where
  "getItem_or_empty k st = (case st k of Some v \<Rightarrow> v | None \<Rightarrow> [])"

definition session_apiKey :: "session_storage \<Rightarrow> string" where
  "session_apiKey = getItem_or_empty ''sie_api_key''"
definition session_signingSecret :: "session_storage \<Rightarrow> string" where
  "session_signingSecret = getItem_or_empty ''sie_signing_secret''"
definition session_apiBaseOverride :: "session_storage \<Rightarrow> string" where
  "session_apiBaseOverride = getItem_or_empty ''sie_api_base''"

definition session_set :: "string \<Rightarrow> string \<Rightarrow> session_storage \<Rightarrow> session_storage" where
  "session_set apiKey signingSecret st =
     st(''sie_api_key'' \<mapsto> apiKey, ''sie_signing_secret'' \<mapsto> signingSecret)"

definition setApiBaseOverride :: "string \<Rightarrow> session_storage \<Rightarrow> session_storage" where
  "setApiBaseOverride raw st =
     (let normalized = normalizeBasePath raw
      in if normalized \<noteq> [] then st(''sie_api_base'' \<mapsto> normalized) else st(''sie_api_base'' := None))"

definition session_clear :: "session_storage \<Rightarrow> session_storage" where
  "session_clear st = st(''sie_api_key'' := None, ''sie_signing_secret'' := None)"

definition session_isSet :: "session_storage \<Rightarrow> bool" where
  "session_isSet st \<longleftrightarrow> session_apiKey st \<noteq> [] \<and> session_signingSecret st \<noteq> []"

subsection \<open>Requests\<close>

text \<open>\<open>subtle\<close> is \<open>crypto.subtle\<close>'s HMAC where the page has a secure context.\<close>

definition hmacSign ::
    "(string \<Rightarrow> string \<Rightarrow> string) option \<Rightarrow> string \<Rightarrow> string \<Rightarrow> string \<Rightarrow> string \<Rightarrow> string \<Rightarrow> string" where
  "hmacSign subtle secret http_method target timestamp text =
     (let message = http_method @ [newline] @ target @ [newline] @ timestamp @ [newline] @ text
      in case subtle of
           Some hmac \<Rightarrow> ''sha256='' @ toHex (textToBytes (hmac secret message))
         | None \<Rightarrow> ''sha256='' @ toHex (PureCrypto_hmacSha256 (textToBytes secret) (textToBytes message)))"

text \<open>A body object is the text \<open>JSON.stringify\<close> makes of it.\<close>

record fetch_request =
  fetch_url :: string
  fetch_method :: string
  fetch_headers :: "(string \<times> string) list"
  fetch_body :: "string option"

definition signTarget :: "session_storage \<Rightarrow> string \<Rightarrow> string" where
  "signTarget st path = session_apiBaseOverride st @ path"

definition apiCall_request ::
    "(string \<Rightarrow> string \<Rightarrow> string) option \<Rightarrow> string \<Rightarrow> int \<Rightarrow> session_storage \<Rightarrow> string \<Rightarrow> string \<Rightarrow> string option
       \<Rightarrow> fetch_request" where
  "apiCall_request subtle request_base date_now st http_method path bodyObj =
     (let text = (case bodyObj of Some json \<Rightarrow> json | None \<Rightarrow> []);
          timestamp = show_int (date_now div 1000);
          signature = hmacSign subtle (session_signingSecret st) http_method (signTarget st path) timestamp text
      in \<lparr>fetch_url = collapse_slashes (request_base @ path), fetch_method = http_method,
          fetch_headers = [(''X-API-Key'', session_apiKey st), (''X-Timestamp'', timestamp),
            (''X-Signature-256'', signature), (''Content-Type'', ''application/json'')],
          fetch_body = bodyObj\<rparr>)"

text \<open>What \<open>apiCall\<close> makes of the answer: \<open>JSON.parse\<close> gives \<open>None\<close> where it throws, and \<open>json_error\<close> reads
  the member \<open>error\<close>, empty where it is absent or not truthy.\<close>

datatype 'j api_outcome =
    Resolved "'j option"
  | Rejected string nat "'j option"
  | SyntaxError

definition apiCall_response ::
    "(string \<Rightarrow> 'j option) \<Rightarrow> ('j \<Rightarrow> string) \<Rightarrow> nat \<Rightarrow> string \<Rightarrow> 'j api_outcome" where
  "apiCall_response json_parse json_error code text =
     (if code = 204 then Resolved None
      else
        case (if text = [] then Some None else map_option Some (json_parse text)) of
          None \<Rightarrow> SyntaxError
        | Some json \<Rightarrow>
            if \<not> (200 \<le> code \<and> code \<le> 299)
            then Rejected
              (case json of
                 Some j \<Rightarrow> (if json_error j \<noteq> [] then json_error j else ''HTTP '' @ nat_digits code)
               | None \<Rightarrow> ''HTTP '' @ nat_digits code) code json
            else Resolved json)"

text \<open>The request as the service sees it: what was sent, the headers browser and proxy add, and the
  target the proxy left.\<close>

definition seen_request :: "fetch_request \<Rightarrow> header_map \<Rightarrow> string \<Rightarrow> ipaddr \<Rightarrow> request" where
  "seen_request f others target peer =
     \<lparr>rq_method = fetch_method f, rq_target = target, rq_headers = others ++ map_of (fetch_headers f),
      rq_peer = peer, rq_body = Some (case fetch_body f of Some b \<Rightarrow> b | None \<Rightarrow> [])\<rparr>"

subsection \<open>Base paths in use\<close>

lemma strip_trailing_no_slash: "strip_trailing_slashes s = [] \<or> last (strip_trailing_slashes s) \<noteq> slash"
proof (cases "dropWhile (\<lambda>c. c = slash) (rev s) = []")
  case False
  then have "hd (dropWhile (\<lambda>c. c = slash) (rev s)) \<noteq> slash" by (rule hd_dropWhile)
  then show ?thesis by (simp add: strip_trailing_slashes_def last_rev)
qed (simp add: strip_trailing_slashes_def)

lemma strip_trailing_prefix: "prefix (strip_trailing_slashes s) s"
  using suffix_dropWhile [of "\<lambda>c. c = slash" "rev s"] by (simp add: strip_trailing_slashes_def suffix_to_prefix)

lemma strip_trailing_id: "s = [] \<or> last s \<noteq> slash \<Longrightarrow> strip_trailing_slashes s = s"
  by (cases s rule: rev_cases) (auto simp: strip_trailing_slashes_def)

lemma strip_leading_no_slash: "strip_leading_slashes s = [] \<or> hd (strip_leading_slashes s) \<noteq> slash"
  unfolding strip_leading_slashes_def using hd_dropWhile [of "\<lambda>c. c = slash" s] by blast

lemma collapse_hd: "s \<noteq> [] \<Longrightarrow> collapse_slashes s \<noteq> [] \<and> hd (collapse_slashes s) = hd s"
  by (induction s rule: collapse_slashes.induct) auto

text \<open>No two slashes in a row.\<close>

fun single_slashes :: "string \<Rightarrow> bool" where
  "single_slashes (x # y # s) \<longleftrightarrow> \<not> (x = slash \<and> y = slash) \<and> single_slashes (y # s)"
| "single_slashes s \<longleftrightarrow> True"

lemma collapse_id: "single_slashes s \<Longrightarrow> collapse_slashes s = s"
  by (induction s rule: collapse_slashes.induct) auto

lemma collapse_single: "single_slashes (collapse_slashes s)"
proof (induction s rule: collapse_slashes.induct)
  case (1 x y s)
  then show ?case
    using collapse_hd [of "y # s"] by (cases "collapse_slashes (y # s)") auto
qed auto

lemma single_append:
  "single_slashes a \<Longrightarrow> single_slashes b \<Longrightarrow> a = [] \<or> last a \<noteq> slash \<Longrightarrow> single_slashes (a @ b)"
  by (induction a rule: single_slashes.induct; cases b) auto

lemma single_append_left: "single_slashes (a @ b) \<Longrightarrow> single_slashes a"
  by (induction a rule: single_slashes.induct) auto

lemma single_prefix: "prefix a b \<Longrightarrow> single_slashes b \<Longrightarrow> single_slashes a"
  unfolding prefix_def using single_append_left by blast

lemma deriveRequestBase_shape:
  "deriveRequestBase p = [] \<or> last (deriveRequestBase p) \<noteq> slash"
  "single_slashes p \<Longrightarrow> single_slashes (deriveRequestBase p)"
proof -
  let ?cut = "rev (dropWhile (\<lambda>c. c \<noteq> slash) (rev p))"
  show "deriveRequestBase p = [] \<or> last (deriveRequestBase p) \<noteq> slash"
    unfolding deriveRequestBase_def Let_def by (rule strip_trailing_no_slash)
  assume p: "single_slashes p"
  have "prefix ?cut p"
    using suffix_dropWhile [of "\<lambda>c. c \<noteq> slash" "rev p"] by (simp add: suffix_to_prefix)
  then have "single_slashes ?cut" using p single_prefix by blast
  then have "single_slashes (if ?cut = [] then [slash] else ?cut)" by simp
  then show "single_slashes (deriveRequestBase p)"
    unfolding deriveRequestBase_def Let_def by (rule single_prefix [OF strip_trailing_prefix])
qed

subsection \<open>Signatures the service accepts\<close>

text \<open>The text \<open>apiCall\<close> signs as the body, and the code it signs with.\<close>

definition sent_text :: "string option \<Rightarrow> string" where
  "sent_text bodyObj = (case bodyObj of Some json \<Rightarrow> json | None \<Rightarrow> [])"

definition client_mac :: "session_storage \<Rightarrow> string \<Rightarrow> string \<Rightarrow> int \<Rightarrow> string option \<Rightarrow> string" where
  "client_mac st http_method path date_now bodyObj =
     hmac_rfc sha256_fips (session_signingSecret st)
       (canonical_v1_payload http_method (signTarget st path) (show_int (date_now div 1000)) (sent_text bodyObj))"

text \<open>What the code relies on of the crates and of the browser: the digits of \<open>toHex\<close> decode, and both
  sides' HMAC is the standard's; the browser's refuses an empty key.\<close>

definition standard_crypto :: "crypto \<Rightarrow> bool" where
  "standard_crypto C \<longleftrightarrow>
     (\<forall>bytes. hex_decode C (hex_of_bytes bytes) = Some bytes)
     \<and> (\<forall>key m. hmac_sha256 C key m = Some (hmac_rfc sha256_fips key m))"

definition standard_subtle :: "(string \<Rightarrow> string \<Rightarrow> string) option \<Rightarrow> bool" where
  "standard_subtle subtle \<longleftrightarrow>
     (case subtle of Some hmac \<Rightarrow> (\<forall>key m. key \<noteq> [] \<longrightarrow> hmac key m = hmac_rfc sha256_fips key m) | None \<Rightarrow> True)"

lemma hmacSign_eq:
  assumes "standard_subtle subtle" and "secret \<noteq> []"
  shows "hmacSign subtle secret http_method target timestamp text
    = SIGNATURE_PREFIX @ hex_of_bytes (hmac_rfc sha256_fips secret (canonical_v1_payload http_method target timestamp text))"
  using assms
  by (cases subtle)
    (simp_all add: hmacSign_def Let_def standard_subtle_def toHex_text PureCrypto_hmacSha256_eq SIGNATURE_PREFIX_def
      canonical_v1_payload_def)

lemma hmacSign_verifies:
  assumes "standard_crypto C" and "standard_subtle subtle" and "secret \<noteq> []"
  shows "verify_signature C secret (canonical_v1_payload http_method target timestamp text)
      (hmacSign subtle secret http_method target timestamp text)
    = Ok (hmac_rfc sha256_fips secret (canonical_v1_payload http_method target timestamp text))"
  unfolding hmacSign_eq [OF assms(2,3)]
  using assms(1) by (intro verify_signature_hex) (simp_all add: standard_crypto_def hex_of_bytes_digits)

lemma client_timestamp:
  assumes "0 \<le> date_now" and "date_now < 2 ^ 62" and "0 \<le> now" and "now < 2 ^ 62" and "max_age < 2 ^ 62"
    and "\<bar>now - date_now div 1000\<bar> \<le> max_age"
  shows "validate_timestamp now (show_int (date_now div 1000)) max_age = Ok ()"
proof -
  let ?t = "date_now div 1000"
  have t: "0 \<le> ?t" "?t < 2 ^ 62" using assms(1,2) by auto
  have digits: "is_ascii_digit d" if "d \<in> set (nat_digits (nat ?t))" for d using nat_digits_digits that by blast
  have "\<not> is_ascii_digit w" if "w \<in> ws_lead \<union> ws_trail" for w
  proof -
    have "list_all (\<lambda>w. \<not> is_ascii_digit (hd w) \<and> \<not> is_ascii_digit (last w)) white_space" by code_simp
    then show ?thesis using that by (auto simp: ws_lead_def ws_trail_def list_all_iff)
  qed
  then have "trim (nat_digits (nat ?t)) = nat_digits (nat ?t)"
    using digits by (intro trim_id) (meson UnI1 UnI2 hd_in_set last_in_set)+
  then have "parse_i64 (trim (show_int ?t)) = Some ?t"
    using parse_int_show [of "- (2 ^ 63)" ?t "2 ^ 63 - 1"] t by (simp add: show_int_def parse_i64_def)
  moreover have "wrap64 x = x" if "- (2 ^ 63) \<le> x" "x < 2 ^ 63" for x
    unfolding wrap64_def using that by (subst mod_pos_pos_trivial) auto
  ultimately show ?thesis
    using assms t by (simp add: validate_timestamp_def Let_def)
qed

lemma sent_body:
  assumes "length text \<le> MAX_SIGNED_BODY_BYTES" and "rq_body rq = Some text"
    and "rq_headers rq ''Content-Length'' \<in> {None, Some (nat_digits (length text))}"
  shows "read_body rq = Ok text"
proof -
  have "parse_usize (nat_digits (length text)) = Some (int (length text))"
    using parse_int_show [of 0 "int (length text)" "2 ^ 64 - 1"] assms(1)
    by (simp add: parse_usize_def show_int_def MAX_SIGNED_BODY_BYTES_def MAX_REQUEST_BODY_BYTES_def)
  then show ?thesis using assms by (auto simp: read_body_def Let_def)
qed

subsection \<open>Properties\<close>


definition web_crates :: "cidr crates" where
  "web_crates = demo_crates\<lparr>crypto_crate := demo_crypto\<lparr>hmac_sha256 := \<lambda>key m. Some (hmac_rfc sha256_fips key m)\<rparr>\<rparr>"

definition web_session :: session_storage where
  "web_session = session_set ''daughter'' ''secret'' Map.empty"

lemma web_crates_codec:
  "hex_encode (crypto_crate web_crates) = hex_of_bytes" "sha256 (crypto_crate web_crates) = (\<lambda>m. m)"
  "ipnet_crate web_crates = cidr_ipnet"
  "open_secret (crypto_crate web_crates) = open_secret demo_crypto"
proof -
  have same: "hex_decode (crypto_crate web_crates) = hex_decode demo_crypto"
    "aead_decrypt (crypto_crate web_crates) = aead_decrypt demo_crypto"
    by (simp_all add: web_crates_def)
  show "open_secret (crypto_crate web_crates) = open_secret demo_crypto"
    unfolding fun_eq_iff open_secret_def open_plain_def open_sealed_def same by simp
qed (simp_all add: web_crates_def demo_crates_def demo_crypto_def)


text \<open>
  what is signed and what is sent name the same resource. Without an override, the URL of a
  request is the page's directory followed by exactly the path that is signed, so a service
  at the root, or behind a proxy that strips that directory, sees the signed target.
\<close>

theorem web_targets_agree:
  assumes "single_slashes page" and "single_slashes path"
  shows "fetch_url (apiCall_request subtle (deriveRequestBase page) date_now st http_method path bodyObj)
      = deriveRequestBase page @ path
    \<and> (session_apiBaseOverride st = [] \<longrightarrow>
         strip_prefix (deriveRequestBase page)
           (fetch_url (apiCall_request subtle (deriveRequestBase page) date_now st http_method path bodyObj))
         = Some (signTarget st path))"
proof -
  have "single_slashes (deriveRequestBase page @ path)"
    using deriveRequestBase_shape [of page] assms single_append by blast
  then have "fetch_url (apiCall_request subtle (deriveRequestBase page) date_now st http_method path bodyObj)
      = deriveRequestBase page @ path"
    by (simp add: apiCall_request_def Let_def collapse_id)
  then show ?thesis by (simp add: signTarget_def)
qed

theorem web_targets_agree_witness:
  "strip_prefix ''/ip_exporter''
     (fetch_url (apiCall_request (Some (\<lambda>_ m. m)) (deriveRequestBase ''/ip_exporter/index.html'') 0 web_session
        ''GET'' ''/api/auth/me'' None)) = Some ''/api/auth/me''"
proof -
  have base: "deriveRequestBase ''/ip_exporter/index.html'' = ''/ip_exporter''"
    and single: "single_slashes ''/ip_exporter/index.html''" "single_slashes ''/api/auth/me''"
    and target: "session_apiBaseOverride web_session = []" "signTarget web_session ''/api/auth/me'' = ''/api/auth/me''"
    by code_simp+
  have "strip_prefix (deriveRequestBase ''/ip_exporter/index.html'')
      (fetch_url (apiCall_request (Some (\<lambda>_ m. m)) (deriveRequestBase ''/ip_exporter/index.html'') 0 web_session
        ''GET'' ''/api/auth/me'' None)) = Some (signTarget web_session ''/api/auth/me'')"
    using web_targets_agree [OF single] target(1) by blast
  then show ?thesis by (simp only: base target(2))
qed

text \<open>
  what the override field stores. A blank entry removes the override; any other entry is
  stored with one leading slash and no trailing one, except that an entry of slashes alone is
  stored as a single slash, which makes every signed target start with two.
\<close>

theorem setApiBaseOverride_shape:
  "(case setApiBaseOverride raw st ''sie_api_base'' of
      None \<Rightarrow> js_trim raw = []
    | Some b \<Rightarrow> js_trim raw \<noteq> [] \<and> hd b = slash
        \<and> (if list_all (\<lambda>c. c = slash) (js_trim raw) then b = [slash] else hd (tl b) \<noteq> slash \<and> last b \<noteq> slash))
   \<and> session_apiKey (setApiBaseOverride raw st) = session_apiKey st
   \<and> session_signingSecret (setApiBaseOverride raw st) = session_signingSecret st"
proof -
  let ?core = "strip_leading_slashes (js_trim raw)"
  have all: "list_all (\<lambda>c. c = slash) (js_trim raw) \<longleftrightarrow> ?core = []"
    by (simp add: strip_leading_slashes_def dropWhile_eq_Nil_conv list_all_iff)
  have "hd (strip_trailing_slashes ?core) \<noteq> slash \<and> last (slash # strip_trailing_slashes ?core) \<noteq> slash"
    if "?core \<noteq> []"
  proof -
    have "hd ?core \<noteq> slash" using strip_leading_no_slash that by blast
    then have "\<not> list_all (\<lambda>c. c = slash) (rev ?core)" using that by (auto simp: list_all_iff)
    then have ne: "strip_trailing_slashes ?core \<noteq> []"
      by (simp add: strip_trailing_slashes_def dropWhile_eq_Nil_conv list_all_iff)
    moreover have "hd (strip_trailing_slashes ?core) = hd ?core"
      using strip_trailing_prefix [of ?core] ne by (metis hd_append2 prefix_def)
    ultimately show ?thesis using \<open>hd ?core \<noteq> slash\<close> strip_trailing_no_slash [of ?core] by auto
  qed
  then show ?thesis
    by (auto simp: setApiBaseOverride_def normalizeBasePath_def Let_def all strip_trailing_slashes_def
        session_apiKey_def session_signingSecret_def getItem_or_empty_def)
qed

lemma normalizeBasePath_not_idempotent:
  "normalizeBasePath (normalizeBasePath ''/ /'') \<noteq> normalizeBasePath ''/ /''"
  by code_simp

lemma override_slash_signs_double:
  "signTarget (setApiBaseOverride ''/'' web_session) ''/api/auth/me'' = ''//api/auth/me''"
  by code_simp

end
