(* ===== verification/Web_Ui.thy ===== *)
theory Web_Ui
  imports Web_Client
begin

text \<open>
  The pages of the web interface, \<open>static/app.js\<close>: the markup it builds from strings of the service,
  login and tabs, the audit trail's paging, the selection of keys, and the forms. The document is
  the part of it the code reads back: which panels are hidden, which boxes are checked, what the
  fields hold. Setting \<open>textContent\<close> and reading \<open>innerHTML\<close> is the serialization of a text node of the
  HTML standard.
\<close>

subsection \<open>Markup\<close>

definition quote :: char where "quote = CHR 0x22"

fun escape_text :: "string \<Rightarrow> string" where
  "escape_text [] = []"
| "escape_text (c # s) =
     (if c = CHR ''&'' then ''&amp;'' @ escape_text s
      else if c = CHR ''<'' then ''&lt;'' @ escape_text s
      else if c = CHR ''>'' then ''&gt;'' @ escape_text s
      else if c = CHR 0xC2 \<and> s \<noteq> [] \<and> hd s = CHR 0xA0 then ''&nbsp;'' @ escape_text (tl s)
      else c # escape_text s)"

definition escapeHtml :: "string option \<Rightarrow> string" where
  "escapeHtml str = (case str of None \<Rightarrow> [] | Some s \<Rightarrow> escape_text s)"

text \<open>A parser reading character data up to a stop character. It knows the references the
  serialization writes; at any other it gives up.\<close>

fun decode_reference :: "string \<Rightarrow> (string \<times> string) option" where
  "decode_reference s =
     (case strip_prefix ''amp;'' s of Some r \<Rightarrow> Some (''&'', r) | None \<Rightarrow>
     (case strip_prefix ''lt;'' s of Some r \<Rightarrow> Some (''<'', r) | None \<Rightarrow>
     (case strip_prefix ''gt;'' s of Some r \<Rightarrow> Some (''>'', r) | None \<Rightarrow>
     (case strip_prefix ''nbsp;'' s of Some r \<Rightarrow> Some ([CHR 0xC2, CHR 0xA0], r) | None \<Rightarrow> None))))"

declare decode_reference.simps [simp del]

lemma strip_prefix_shorter: "strip_prefix p s = Some r \<Longrightarrow> length r \<le> length s"
  by (auto simp: strip_prefix_Some)

lemma decode_reference_shorter: "decode_reference s = Some (t, r) \<Longrightarrow> length r < Suc (length s)"
  by (auto simp: decode_reference.simps less_Suc_eq_le dest: strip_prefix_shorter split: option.splits)

function read_until :: "char \<Rightarrow> string \<Rightarrow> (string \<times> string) option" where
  "read_until stop [] = None"
| "read_until stop (c # s) =
     (if c = stop then Some ([], s)
      else if c = CHR ''&'' then
        (case decode_reference s of
           None \<Rightarrow> None
         | Some (t, r) \<Rightarrow> map_option (\<lambda>(v, rest). (t @ v, rest)) (read_until stop r))
      else map_option (\<lambda>(v, rest). (c # v, rest)) (read_until stop s))"
  by pat_completeness auto
termination
  by (relation "measure (\<lambda>(stop, s). length s)") (auto dest: decode_reference_shorter)

text \<open>The name cell of the endpoint table.\<close>

definition title_attribute :: "string \<Rightarrow> string" where
  "title_attribute value = ''title='' @ [quote] @ escapeHtml (Some value) @ [quote]"

definition name_cell :: "string \<Rightarrow> string" where
  "name_cell name =
     ''<span class='' @ [quote] @ ''cell-line'' @ [quote] @ '' '' @ title_attribute name @ ''>''
     @ escapeHtml (Some name) @ ''</span>''"

text \<open>\<open>formatMaxAge\<close>: the retention window of an endpoint.\<close>

definition muted :: "string \<Rightarrow> string" where
  "muted s = ''<span class='' @ [quote] @ ''text-muted'' @ [quote] @ ''>'' @ s @ ''</span>''"

fun in_unit :: "int \<Rightarrow> (string \<times> int) list \<Rightarrow> string" where
  "in_unit value [] = show_int value @ ''s''"
| "in_unit value ((label, width) # units) =
     (if value mod width = 0
      then show_int value @ ''s '' @ muted (''/ '' @ show_int (value div width) @ label)
      else in_unit value units)"

definition formatMaxAge :: "int \<Rightarrow> string" where
  "formatMaxAge value =
     (if value \<le> 0 then muted ''Unlimited''
      else in_unit value [(''d'', 86400), (''h'', 3600), (''m'', 60)])"

subsection \<open>Login and tabs\<close>

record page =
  storage :: session_storage
  page_me :: "me_response option"
  login_screen :: bool
  dashboard :: bool
  keys_tab :: bool
  audit_tab :: bool
  login_error :: "string option"
  active_tab :: string

definition page_load :: "session_storage \<Rightarrow> page" where
  "page_load st =
     \<lparr>storage = st, page_me = None, login_screen = True, dashboard = False, keys_tab = False, audit_tab = False,
      login_error = None, active_tab = ''endpoints''\<rparr>"

text \<open>\<open>tryLogin\<close>: \<open>me_call\<close> is the outcome of \<open>GET /api/auth/me\<close>, \<open>first_rejection\<close> the first failure among the
  loads awaited together.\<close>

definition tryLogin ::
    "string \<Rightarrow> string \<Rightarrow> (me_response, string) result \<Rightarrow> string option \<Rightarrow> page \<Rightarrow> page" where
  "tryLogin apiKey signingSecret me_call first_rejection p =
     (let p1 = p\<lparr>storage := session_set apiKey signingSecret (storage p)\<rparr>;
          failed = (\<lambda>message p. p\<lparr>storage := session_clear (storage p),
                      login_error := Some (''Authentication failed: '' @ message)\<rparr>)
      in case me_call of
           Err message \<Rightarrow> failed message p1
         | Ok me \<Rightarrow>
             let p2 = p1\<lparr>page_me := Some me, login_screen := False, dashboard := True\<rparr>
             in case first_rejection of
                  Some message \<Rightarrow> failed message p2
                | None \<Rightarrow> if me_is_master me then p2\<lparr>keys_tab := True, audit_tab := True\<rparr> else p2)"

definition submit_login ::
    "string \<Rightarrow> string \<Rightarrow> string \<Rightarrow> (me_response, string) result \<Rightarrow> string option \<Rightarrow> page \<Rightarrow> page" where
  "submit_login base key secret me_call first_rejection p =
     tryLogin (js_trim key) (js_trim secret) me_call first_rejection
       (p\<lparr>login_error := None, storage := setApiBaseOverride base (storage p)\<rparr>)"

definition activateTab :: "string \<Rightarrow> page \<Rightarrow> page" where
  "activateTab tab p = p\<lparr>active_tab := tab\<rparr>"

definition logout :: "page \<Rightarrow> page" where
  "logout p =
     activateTab ''endpoints''
       (p\<lparr>storage := session_clear (storage p), page_me := None, dashboard := False, login_screen := True,
          keys_tab := False, audit_tab := False\<rparr>)"

text \<open>A session kept by the browser is tried when the page loads.\<close>

definition page_open :: "session_storage \<Rightarrow> (me_response, string) result \<Rightarrow> string option \<Rightarrow> page" where
  "page_open st me_call first_rejection =
     (if session_isSet st
      then tryLogin (session_apiKey st) (session_signingSecret st) me_call first_rejection (page_load st)
      else page_load st)"

text \<open>Which listing \<open>refreshActiveTab\<close> loads again.\<close>

definition refreshActiveTab :: "page \<Rightarrow> string option" where
  "refreshActiveTab p =
     (if active_tab p = ''endpoints'' then Some ''/api/endpoints''
      else case page_me p of
             Some me \<Rightarrow>
               (if active_tab p = ''keys'' \<and> me_is_master me then Some ''/api/keys''
                else if active_tab p = ''audit'' \<and> me_is_master me then Some ''/api/audit-logs'' else None)
           | None \<Rightarrow> None)"

text \<open>What a user can do: the form is on the login screen, the log-out button and the tabs on the
  dashboard, and a tab's button can be clicked where it is not hidden.\<close>

inductive page_step :: "page \<Rightarrow> page \<Rightarrow> bool" where
  login: "login_screen p \<Longrightarrow> page_step p (submit_login base key secret me_call rejection p)"
| logout: "dashboard p \<Longrightarrow> page_step p (logout p)"
| tab: "dashboard p \<Longrightarrow> tab = ''endpoints'' \<or> (tab = ''keys'' \<and> keys_tab p) \<or> (tab = ''audit'' \<and> audit_tab p)
    \<Longrightarrow> page_step p (activateTab tab p)"

subsection \<open>Paging the audit trail\<close>

definition AUDIT_PAGE_SIZE :: nat where "AUDIT_PAGE_SIZE = 50"

record audit_view =
  auditOffset :: nat
  auditHasMore :: bool
  audit_rows :: "audit_log list"
  audit_error :: "string option"

definition audit_action :: "string \<Rightarrow> string option" where
  "audit_action filter_text = (let action = js_trim filter_text in if action \<noteq> [] then Some action else None)"

definition audit_query :: "nat \<Rightarrow> string \<Rightarrow> audit_log_query" where
  "audit_query offset filter_text =
     \<lparr>aq_action = audit_action filter_text, aq_limit = Some AUDIT_PAGE_SIZE, aq_offset = Some offset\<rparr>"

text \<open>\<open>loadAuditLogs\<close>; \<open>call\<close> is \<open>GET /api/audit-logs\<close>, or the message of its failure.\<close>

type_synonym audit_call = "audit_log_query \<Rightarrow> (audit_log list, string) result"

definition loadAuditLogs :: "audit_call \<Rightarrow> string \<Rightarrow> audit_view \<Rightarrow> audit_view" where
  "loadAuditLogs call filter_text v =
     (case call (audit_query (auditOffset v) filter_text) of
        Ok logs \<Rightarrow>
          v\<lparr>auditHasMore := (length logs = AUDIT_PAGE_SIZE), audit_rows := logs, audit_error := None\<rparr>
      | Err message \<Rightarrow> v\<lparr>audit_error := Some message\<rparr>)"

definition audit_refresh :: "audit_call \<Rightarrow> string \<Rightarrow> audit_view \<Rightarrow> audit_view" where
  "audit_refresh call filter_text v = loadAuditLogs call filter_text (v\<lparr>auditOffset := 0\<rparr>)"

definition audit_prev :: "audit_call \<Rightarrow> string \<Rightarrow> audit_view \<Rightarrow> audit_view" where
  "audit_prev call filter_text v =
     loadAuditLogs call filter_text (v\<lparr>auditOffset := auditOffset v - AUDIT_PAGE_SIZE\<rparr>)"

definition audit_next :: "audit_call \<Rightarrow> string \<Rightarrow> audit_view \<Rightarrow> audit_view" where
  "audit_next call filter_text v =
     (if \<not> auditHasMore v then v
      else loadAuditLogs call filter_text (v\<lparr>auditOffset := auditOffset v + AUDIT_PAGE_SIZE\<rparr>))"

definition page_indicator :: "audit_view \<Rightarrow> nat" where
  "page_indicator v = auditOffset v div AUDIT_PAGE_SIZE + 1"

subsection \<open>Selecting keys\<close>

record key_row =
  row_id :: string
  row_is_master :: bool

record key_table =
  table_rows :: "key_row list"
  selectedKeyIds :: "string list"

text \<open>The boxes of the table: one per row that is not the Master's.\<close>

definition row_boxes :: "key_table \<Rightarrow> string list" where
  "row_boxes t = map row_id (filter (\<lambda>k. \<not> row_is_master k) (table_rows t))"

definition set_add :: "'a \<Rightarrow> 'a list \<Rightarrow> 'a list" where
  "set_add x xs = (if x \<in> set xs then xs else xs @ [x])"

definition toggle_row :: "string \<Rightarrow> bool \<Rightarrow> key_table \<Rightarrow> key_table" where
  "toggle_row i checked t =
     t\<lparr>selectedKeyIds := if checked then set_add i (selectedKeyIds t) else filter (\<lambda>j. j \<noteq> i) (selectedKeyIds t)\<rparr>"

definition toggle_all :: "bool \<Rightarrow> key_table \<Rightarrow> key_table" where
  "toggle_all checked t = fold (\<lambda>i. toggle_row i checked) (row_boxes t) t"

definition select_all_checked :: "key_table \<Rightarrow> bool" where
  "select_all_checked t \<longleftrightarrow>
     (let boxes = row_boxes t; checkedCount = length (filter (\<lambda>i. i \<in> set (selectedKeyIds t)) boxes)
      in boxes \<noteq> [] \<and> checkedCount = length boxes)"

definition delete_label :: "key_table \<Rightarrow> string" where
  "delete_label t =
     (if selectedKeyIds t = [] then ''Delete Selected''
      else ''Delete Selected ('' @ nat_digits (length (selectedKeyIds t)) @ '')'')"

definition load_keys :: "key_row list \<Rightarrow> key_table \<Rightarrow> key_table" where
  "load_keys rows t =
     \<lparr>table_rows = rows, selectedKeyIds = filter (\<lambda>i. i \<in> set (map row_id rows)) (selectedKeyIds t)\<rparr>"

text \<open>The ids \<open>batchDeleteKeys\<close> asks the service to delete, and the table once it has.\<close>

definition batchDeleteKeys :: "key_table \<Rightarrow> string list \<times> key_table" where
  "batchDeleteKeys t =
     (if selectedKeyIds t = [] then ([], t) else (selectedKeyIds t, t\<lparr>selectedKeyIds := []\<rparr>))"

inductive table_step :: "key_table \<Rightarrow> key_table \<Rightarrow> bool" where
  row: "i \<in> set (row_boxes t) \<Longrightarrow> table_step t (toggle_row i checked t)"
| all: "table_step t (toggle_all checked t)"
| batch: "table_step t (snd (batchDeleteKeys t))"
| load: "(\<And>a b. a \<in> set (table_rows t) \<Longrightarrow> b \<in> set rows \<Longrightarrow> row_id a = row_id b \<Longrightarrow> row_is_master a = row_is_master b)
    \<Longrightarrow> table_step t (load_keys rows t)"

subsection \<open>Forms\<close>

text \<open>\<open>parseInt(s, 10)\<close>, \<open>None\<close> for \<open>NaN\<close>, and \<open>||\<close>, which takes the default for \<open>NaN\<close> and zero.\<close>

definition js_parseInt :: "string \<Rightarrow> int option" where
  "js_parseInt s =
     (let t = strip_seqs js_white_space s;
          negative = (t \<noteq> [] \<and> hd t = CHR ''-'');
          signed = negative \<or> (t \<noteq> [] \<and> hd t = CHR ''+'');
          digits = takeWhile is_ascii_digit (if signed then tl t else t)
      in if digits = [] then None
         else Some (if negative then - int (digits_value digits) else int (digits_value digits)))"

definition or_default :: "int option \<Rightarrow> int \<Rightarrow> int" where
  "or_default x dflt = (case x of None \<Rightarrow> dflt | Some n \<Rightarrow> if n = 0 then dflt else n)"

definition or_null :: "string \<Rightarrow> string option" where
  "or_null s = (if s = [] then None else Some s)"

text \<open>What a single-line text field holds of an assigned value: the line breaks are stripped.\<close>

definition text_field :: "string \<Rightarrow> string" where
  "text_field s = filter (\<lambda>c. c \<noteq> CHR 0x0A \<and> c \<noteq> CHR 0x0D) s"

definition or_empty :: "string option \<Rightarrow> string" where
  "or_empty s = (case s of Some v \<Rightarrow> v | None \<Rightarrow> [])"

text \<open>The group picker: a box per group, its value as the parser reads the attribute, checked when the
  endpoint already names the group.\<close>

definition box_value :: "string \<Rightarrow> string" where
  "box_value name = (case read_until quote (escapeHtml (Some name) @ [quote]) of Some (v, _) \<Rightarrow> v | None \<Rightarrow> [])"

definition picker_selected :: "string \<Rightarrow> string list" where
  "picker_selected selectedRaw = filter (\<lambda>g. g \<noteq> []) (map js_trim (split_on (CHR '','') selectedRaw))"

definition loadGroupPicker :: "string list \<Rightarrow> string \<Rightarrow> (string \<times> bool) list" where
  "loadGroupPicker names selectedRaw =
     map (\<lambda>name. (box_value name, name \<in> set (picker_selected selectedRaw))) names"

definition readGroupPicker :: "(string \<times> bool) list \<Rightarrow> string" where
  "readGroupPicker boxes = join '','' (map fst (filter snd boxes))"

record endpoint_form =
  form_name :: string
  form_description :: string
  form_groups :: "(string \<times> bool) list"
  form_ttl :: string
  form_max_age :: string
  form_bound_ips :: string
  form_rfc1918 :: bool
  form_bogons :: bool
  form_loopback :: bool

definition createEndpoint :: "endpoint_form \<Rightarrow> create_endpoint_payload" where
  "createEndpoint f =
     \<lparr>ce_name = form_name f, ce_description = or_null (form_description f),
      ce_vault_groups = readGroupPicker (form_groups f),
      ce_ttl_seconds = Some (or_default (js_parseInt (form_ttl f)) 3600),
      ce_max_age_seconds = Some (or_default (js_parseInt (form_max_age f)) 0),
      ce_bound_ips = or_null (form_bound_ips f), ce_filter_rfc1918 = form_rfc1918 f,
      ce_filter_bogons = form_bogons f, ce_filter_loopback = form_loopback f\<rparr>"

definition openEditEndpointModal :: "string list \<Rightarrow> endpoint \<Rightarrow> endpoint_form" where
  "openEditEndpointModal names target =
     \<lparr>form_name = text_field (ep_name target), form_description = text_field (or_empty (description target)),
      form_groups = loadGroupPicker names (vault_groups target), form_ttl = show_int (ttl_seconds target),
      form_max_age = show_int (max_age_seconds target), form_bound_ips = text_field (or_empty (ep_bound_ips target)),
      form_rfc1918 = filter_rfc1918 target, form_bogons = filter_bogons target,
      form_loopback = filter_loopback target\<rparr>"

definition submitEditEndpoint :: "endpoint_form \<Rightarrow> update_endpoint_payload" where
  "submitEditEndpoint f =
     \<lparr>ue_name = Some (form_name f), ue_description = Some (form_description f),
      ue_vault_groups = Some (readGroupPicker (form_groups f)),
      ue_ttl_seconds = Some (or_default (js_parseInt (form_ttl f)) 3600),
      ue_max_age_seconds = Some (or_default (js_parseInt (form_max_age f)) 0),
      ue_bound_ips = Some (form_bound_ips f), ue_filter_rfc1918 = Some (form_rfc1918 f),
      ue_filter_bogons = Some (form_bogons f), ue_filter_loopback = Some (form_loopback f)\<rparr>"

record key_form =
  kf_name :: string
  kf_bound_ips :: string
  kf_can_manage_keys :: bool
  kf_name_disabled :: bool

definition openEditKeyModal :: "key_response \<Rightarrow> key_form" where
  "openEditKeyModal target =
     \<lparr>kf_name = text_field (kr_name target), kf_bound_ips = text_field (or_empty (kr_bound_ips target)),
      kf_can_manage_keys = kr_can_manage_keys target, kf_name_disabled = kr_is_master target\<rparr>"

definition submitEditKey :: "key_form \<Rightarrow> update_key_payload" where
  "submitEditKey f =
     \<lparr>uk_name = (if kf_name_disabled f then None else Some (kf_name f)), uk_bound_ips = Some (kf_bound_ips f),
      uk_can_manage_keys = (if kf_name_disabled f then None else Some (kf_can_manage_keys f))\<rparr>"

definition createKey :: "key_form \<Rightarrow> create_key_payload" where
  "createKey f =
     \<lparr>ck_name = kf_name f, ck_bound_ips = or_null (kf_bound_ips f), ck_can_manage_keys = kf_can_manage_keys f\<rparr>"

subsection \<open>Reading markup back\<close>

lemma decode_reference_cases [simp]:
  "decode_reference (''amp;'' @ r) = Some (''&'', r)" "decode_reference (''lt;'' @ r) = Some (''<'', r)"
  "decode_reference (''gt;'' @ r) = Some (''>'', r)" "decode_reference (''nbsp;'' @ r) = Some ([CHR 0xC2, CHR 0xA0], r)"
  by (simp_all add: decode_reference.simps strip_prefix_def)

text \<open>Characters the serialization leaves alone and no reference contains.\<close>

definition plain_stop :: "char \<Rightarrow> bool" where
  "plain_stop c \<longleftrightarrow> c \<notin> set ''&;ampltgtnbsp'' \<and> c \<noteq> CHR 0xC2 \<and> c \<noteq> CHR 0xA0"

lemma read_until_escape:
  assumes "plain_stop stop"
  shows "read_until stop (escape_text s @ stop # rest) =
    (if stop \<in> set s \<and> stop \<noteq> CHR ''<'' \<and> stop \<noteq> CHR ''>''
     then Some (takeWhile (\<lambda>c. c \<noteq> stop) s, escape_text (tl (dropWhile (\<lambda>c. c \<noteq> stop) s)) @ stop # rest)
     else Some (s, rest))"
proof (induction s rule: escape_text.induct)
  case 1
  then show ?case by simp
next
  case (2 c s)
  note stop = assms [unfolded plain_stop_def]
  have ref: "read_until stop (CHR ''&'' # r) =
      (case decode_reference r of None \<Rightarrow> None
       | Some (t, r) \<Rightarrow> map_option (\<lambda>(v, rest). (t @ v, rest)) (read_until stop r))" for r
    using stop by auto
  have step: "read_until stop (d # r) = map_option (\<lambda>(v, rest). (d # v, rest)) (read_until stop r)"
    if "d \<noteq> stop" "d \<noteq> CHR ''&''" for d r using that by simp
  consider (amp) "c = CHR ''&''" | (lt) "c = CHR ''<''" | (gt) "c = CHR ''>''"
    | (nbsp) s' where "c = CHR 0xC2" "s = CHR 0xA0 # s'"
    | (other) "c \<noteq> CHR ''&''" "c \<noteq> CHR ''<''" "c \<noteq> CHR ''>''" "\<not> (c = CHR 0xC2 \<and> s \<noteq> [] \<and> hd s = CHR 0xA0)"
    by (cases s) auto
  then show ?case
  proof cases
    case amp
    then show ?thesis using 2(1) stop decode_reference_cases(1) by (auto simp: ref simp del: read_until.simps)
  next
    case lt
    then show ?thesis using 2(2) stop decode_reference_cases(2) by (auto simp: ref simp del: read_until.simps)
  next
    case gt
    then show ?thesis using 2(3) stop decode_reference_cases(3) by (auto simp: ref simp del: read_until.simps)
  next
    case nbsp
    then show ?thesis using 2(4) stop decode_reference_cases(4) by (auto simp: ref simp del: read_until.simps)
  next
    case other
    then have esc: "escape_text (c # s) = c # escape_text s" by auto
    show ?thesis
    proof (cases "c = stop")
      case True
      then show ?thesis using other esc by (simp del: escape_text.simps)
    next
      case False
      then show ?thesis using other 2(5) by (auto simp: esc step simp del: read_until.simps escape_text.simps)
    qed
  qed
qed

subsection \<open>Properties\<close>

text \<open>
  C26: what escaping protects. Text escaped for an element is read back as that text up to the
  next tag, whatever it contains. In a quoted attribute it is read back only when it holds no
  double quote: the serialization of a text node leaves quotes alone, so at the first one the
  value ends and the rest of the text is read as further markup of the tag.
\<close>

theorem escapeHtml_contexts:
  "read_until (CHR ''<'') (escapeHtml (Some s) @ CHR ''<'' # rest) = Some (s, rest)
   \<and> read_until quote (escapeHtml (Some s) @ quote # rest) =
       (if quote \<in> set s
        then Some (takeWhile (\<lambda>c. c \<noteq> quote) s, escape_text (tl (dropWhile (\<lambda>c. c \<noteq> quote) s)) @ quote # rest)
        else Some (s, rest))"
proof -
  have "plain_stop (CHR ''<'')" "plain_stop quote" by (simp_all add: plain_stop_def quote_def)
  then show ?thesis by (simp add: escapeHtml_def read_until_escape quote_def)
qed

lemma endpoint_title_injection:
  "read_until quote (drop (length (''title='' @ [quote])) (title_attribute (''x'' @ [quote] @ '' onmouseover='' @ [quote] @ ''f()'')))
     = Some (''x'', '' onmouseover='' @ [quote] @ ''f()'' @ [quote])"
  by code_simp

definition page_inv :: "page \<Rightarrow> bool" where
  "page_inv p \<longleftrightarrow>
     login_screen p \<noteq> dashboard p
     \<and> (login_screen p \<longrightarrow> \<not> keys_tab p \<and> \<not> audit_tab p \<and> active_tab p = ''endpoints'')
     \<and> (keys_tab p \<or> audit_tab p \<longrightarrow> (\<exists>me. page_me p = Some me \<and> me_is_master me))
     \<and> (active_tab p = ''keys'' \<longrightarrow> keys_tab p) \<and> (active_tab p = ''audit'' \<longrightarrow> audit_tab p)"

lemma tryLogin_inv: "page_inv p \<Longrightarrow> login_screen p \<Longrightarrow> page_inv (tryLogin k sec me_call rejection p)"
  by (auto simp: page_inv_def tryLogin_def Let_def split: sum.splits option.splits)

lemma page_open_inv: "page_inv (page_open st me_call rejection)"
proof -
  have "page_inv (page_load st)" "login_screen (page_load st)" by (simp_all add: page_inv_def page_load_def)
  then show ?thesis by (simp add: page_open_def tryLogin_inv)
qed

lemma page_step_inv: "page_step p q \<Longrightarrow> page_inv p \<Longrightarrow> page_inv q"
proof (induction rule: page_step.induct)
  case (login p base key secret me_call rejection)
  then have "page_inv (p\<lparr>login_error := None, storage := setApiBaseOverride base (storage p)\<rparr>)"
    by (simp add: page_inv_def)
  then show ?case using login by (simp add: submit_login_def tryLogin_inv)
next
  case (logout p)
  then show ?case by (simp add: page_inv_def logout_def activateTab_def)
next
  case (tab p tab)
  then show ?case by (auto simp: page_inv_def activateTab_def)
qed


definition demo_me :: "bool \<Rightarrow> me_response" where
  "demo_me master = get_me (demo_key 1 ''m'' master)"


lemma login_half_done:
  "let p = tryLogin key secret (Ok me) (Some message) (page_load st)
   in dashboard p \<and> \<not> login_screen p \<and> \<not> session_isSet (storage p) \<and> login_error p \<noteq> None"
  by (simp add: tryLogin_def Let_def page_load_def session_isSet_def session_clear_def session_apiKey_def
      getItem_or_empty_def)

lemma concat_chunks: "concat (map (\<lambda>k. take b (drop (b * k) xs)) [0..<m]) = take (b * m) xs"
proof (induction m)
  case (Suc m)
  then show ?case using take_add [of "b * m" b xs] by (simp add: add.commute)
qed simp

text \<open>The service's page of a given database.\<close>

definition audit_service :: "database \<Rightarrow> audit_call" where
  "audit_service d q = Ok (audit_page q d)"

lemma loadAuditLogs_page:
  "loadAuditLogs (audit_service d) f v =
     (let page = take 50 (drop (auditOffset v) (audit_matching (audit_action f) d))
      in v\<lparr>auditHasMore := (length page = 50), audit_rows := page, audit_error := None\<rparr>)"
  by (simp add: loadAuditLogs_def audit_service_def audit_page_def audit_query_def AUDIT_PAGE_SIZE_def Let_def)

lemma audit_walk:
  fixes d f v
  defines "M \<equiv> audit_matching (audit_action f) d"
  shows "k \<le> length M div 50 \<Longrightarrow>
    (audit_next (audit_service d) f ^^ k) (audit_refresh (audit_service d) f v) = loadAuditLogs (audit_service d) f (v\<lparr>auditOffset := 50 * k\<rparr>)"
proof (induction k)
  case (Suc k)
  then have "50 * k + 50 \<le> length M" by (simp add: less_eq_div_iff_mult_less_eq)
  then have "auditHasMore (loadAuditLogs (audit_service d) f (v\<lparr>auditOffset := 50 * k\<rparr>))"
    by (simp add: loadAuditLogs_page Let_def M_def)
  then show ?case using Suc by (simp add: audit_next_def AUDIT_PAGE_SIZE_def loadAuditLogs_page Let_def add.commute)
qed (simp add: audit_refresh_def)


definition table_inv :: "key_table \<Rightarrow> bool" where
  "table_inv t \<longleftrightarrow> set (selectedKeyIds t) \<subseteq> set (row_boxes t) \<and> distinct (selectedKeyIds t)"

lemma toggle_row_frame [simp]: "table_rows (toggle_row i b t) = table_rows t" "row_boxes (toggle_row i b t) = row_boxes t"
  by (simp_all add: toggle_row_def row_boxes_def)

lemma toggle_row_inv: "table_inv t \<Longrightarrow> i \<in> set (row_boxes t) \<Longrightarrow> table_inv (toggle_row i b t)"
  unfolding table_inv_def by (auto simp: toggle_row_def set_add_def row_boxes_def)

lemma toggle_all_inv: "table_inv t \<Longrightarrow> table_inv (toggle_all b t)"
proof -
  have "table_inv (fold (\<lambda>i. toggle_row i b) is t)" if "table_inv t" "set is \<subseteq> set (row_boxes t)" for "is"
    using that by (induction "is" arbitrary: t) (simp_all add: toggle_row_inv)
  then show "table_inv t \<Longrightarrow> table_inv (toggle_all b t)" by (simp add: toggle_all_def)
qed

lemma batch_inv: "table_inv t \<Longrightarrow> table_inv (snd (batchDeleteKeys t))"
  by (simp add: batchDeleteKeys_def table_inv_def)

lemma table_step_inv: "table_step t u \<Longrightarrow> table_inv t \<Longrightarrow> table_inv u"
proof (induction rule: table_step.induct)
  case (load t rows)
  then show ?case by (fastforce simp: table_inv_def load_keys_def row_boxes_def)
qed (auto intro: toggle_row_inv toggle_all_inv batch_inv)

text \<open>
  deleting the selection never asks for the Master. However the boxes are used and the list is
  reloaded, the ids a batch deletion sends are distinct and each belongs to a row that has a
  box, and the header box is checked exactly when all of them are selected.
\<close>

theorem batch_deletes_boxes:
  assumes "table_step\<^sup>*\<^sup>* \<lparr>table_rows = rows, selectedKeyIds = []\<rparr> t"
  shows "set (fst (batchDeleteKeys t)) \<subseteq> row_id ` {k \<in> set (table_rows t). \<not> row_is_master k}
    \<and> distinct (fst (batchDeleteKeys t))
    \<and> (select_all_checked t \<longleftrightarrow> row_boxes t \<noteq> [] \<and> set (selectedKeyIds t) = set (row_boxes t))"
proof -
  have "table_inv t"
    using assms
  proof (induction rule: rtranclp_induct)
    case base
    show ?case by (simp add: table_inv_def)
  qed (rule table_step_inv)
  moreover have "length (filter P xs) = length xs \<longleftrightarrow> (\<forall>x \<in> set xs. P x)" for P and xs :: "string list"
    by (metis filter_True length_filter_less less_irrefl)
  ultimately show ?thesis
    by (auto simp: table_inv_def batchDeleteKeys_def select_all_checked_def row_boxes_def Let_def)
qed

definition demo_table :: key_table where
  "demo_table =
     \<lparr>table_rows = [\<lparr>row_id = ''m'', row_is_master = True\<rparr>, \<lparr>row_id = ''d'', row_is_master = False\<rparr>],
      selectedKeyIds = []\<rparr>"

theorem batch_deletes_boxes_witness:
  "''m'' \<notin> set (fst (batchDeleteKeys (toggle_all True demo_table)))
   \<and> fst (batchDeleteKeys (toggle_all True demo_table)) \<noteq> []"
proof
  have "table_step\<^sup>*\<^sup>* demo_table (toggle_all True demo_table)" by (intro r_into_rtranclp table_step.all)
  then have "set (fst (batchDeleteKeys (toggle_all True demo_table)))
      \<subseteq> row_id ` {k \<in> set (table_rows (toggle_all True demo_table)). \<not> row_is_master k}"
    using batch_deletes_boxes [of "table_rows demo_table" "toggle_all True demo_table"]
    by (simp add: demo_table_def)
  moreover have "''m'' \<notin> row_id ` {k \<in> set (table_rows (toggle_all True demo_table)). \<not> row_is_master k}"
  proof -
    have "table_rows (toggle_all True demo_table) = table_rows demo_table" by code_simp
    then show ?thesis by (auto simp: demo_table_def)
  qed
  ultimately show "''m'' \<notin> set (fst (batchDeleteKeys (toggle_all True demo_table)))" by blast
  show "fst (batchDeleteKeys (toggle_all True demo_table)) \<noteq> []" by code_simp
qed

subsection \<open>Forms filled from a row\<close>

definition listed_name :: "string \<Rightarrow> bool" where
  "listed_name n \<longleftrightarrow> n \<noteq> [] \<and> CHR '','' \<notin> set n \<and> quote \<notin> set n \<and> js_trim n = n"

lemma box_value_listed: "listed_name n \<Longrightarrow> box_value n = n"
proof -
  assume "listed_name n"
  moreover have "plain_stop quote" by (simp add: plain_stop_def quote_def)
  ultimately show ?thesis by (simp add: box_value_def escapeHtml_def read_until_escape listed_name_def)
qed

lemma picker_selected_join:
  assumes "list_all listed_name gs"
  shows "picker_selected (join '','' gs) = gs"
proof (cases "gs = []")
  case True
  then show ?thesis by (simp add: picker_selected_def js_trim_def)
next
  case False
  then have "split_on (CHR '','') (join '','' gs) = gs"
    using assms by (intro split_on_join) (auto simp: list_all_iff listed_name_def)
  moreover have "map js_trim gs = gs" "filter (\<lambda>g. g \<noteq> []) gs = gs"
    using assms by (auto simp: list_all_iff listed_name_def intro: map_idI filter_True)
  ultimately show ?thesis by (simp add: picker_selected_def)
qed

lemma picker_roundtrip:
  assumes "list_all listed_name gs" and "list_all listed_name names"
  shows "readGroupPicker (loadGroupPicker names (join '','' gs)) = join '','' (filter (\<lambda>n. n \<in> set gs) names)"
proof -
  have "map fst (filter snd (map (\<lambda>n. (box_value n, n \<in> S)) names)) = filter (\<lambda>n. n \<in> S) names" for S
    using assms(2) by (induction names) (auto simp: box_value_listed)
  then show ?thesis
    by (simp add: readGroupPicker_def loadGroupPicker_def picker_selected_join [OF assms(1)])
qed

lemma js_parseInt_show: "0 \<le> n \<Longrightarrow> js_parseInt (show_int n) = Some n"
proof -
  assume n: "0 \<le> n"
  have digits: "is_ascii_digit c" if "c \<in> set (nat_digits (nat n))" for c using nat_digits_digits that by blast
  have "list_all (\<lambda>w. \<not> is_ascii_digit (hd w)) js_white_space" by code_simp
  moreover have "hd (nat_digits (nat n)) \<in> set (nat_digits (nat n))" by simp
  ultimately have "strip_seqs js_white_space (nat_digits (nat n)) = nat_digits (nat n)"
    using digits by (intro strip_seqs_id) (fastforce simp: list_all_iff prefix_def)
  moreover have "takeWhile is_ascii_digit (nat_digits (nat n)) = nat_digits (nat n)"
    using digits by (simp add: takeWhile_eq_all_conv)
  moreover have "show_int n = nat_digits (nat n)" using n by (simp add: show_int_def)
  ultimately show ?thesis
    using n nat_digits_hd_not_sign [of "nat n"] nat_digits_nonempty [of "nat n"]
    unfolding js_parseInt_def Let_def by (simp only: if_False digits_value_nat_digits HOL.simp_thms) simp
qed

definition one_line :: "string \<Rightarrow> bool" where
  "one_line s \<longleftrightarrow> CHR 0x0A \<notin> set s \<and> CHR 0x0D \<notin> set s"

lemma text_field_one_line: "one_line s \<Longrightarrow> text_field s = s"
  unfolding one_line_def text_field_def by (rule filter_True) auto



end
