(* ===== verification/Web_Dialogs.thy ===== *)
theory Web_Dialogs
  imports Web_Ui Handler_Outcomes Schema
begin

text \<open>
  The dialogs of the web interface, \<open>src/static/app.js\<close>: deleting a key and, when it still owns endpoints,
  handing them to another key; the boxes that grant a key the groups of the Vault; and the box that shows
  freshly minted credentials. The lemmas put a dialog and the handlers it calls together.
\<close>

subsection \<open>Deleting a key\<close>

text \<open>The error of a call as \<open>apiCall\<close> throws it: the message, the status and the body.\<close>

definition json_member :: "string \<Rightarrow> json \<Rightarrow> json option" where
  "json_member n j = (case j of JObj ms \<Rightarrow> map_of ms n | _ \<Rightarrow> None)"

definition json_text :: "json option \<Rightarrow> string" where
  "json_text j = (case j of Some (JStr t) \<Rightarrow> t | _ \<Rightarrow> [])"

record reassign_dialog =
  dialog_key :: uuid
  dialog_endpoints :: "string list"
  dialog_options :: "(uuid \<times> string) list"

datatype delete_view = KeyDeleted | AskSuccessor reassign_dialog | DeleteToast string

definition openReassignDialog :: "uuid \<Rightarrow> json list \<Rightarrow> key_response list \<Rightarrow> reassign_dialog" where
  "openReassignDialog keyId ownedEndpoints allKeys =
     \<lparr>dialog_key = keyId,
      dialog_endpoints = map (\<lambda>ep. json_text (json_member ''name'' ep)) ownedEndpoints,
      dialog_options =
        map (\<lambda>k. (kr_id k, kr_name k @ (if kr_is_master k then '' (Master)'' else [])))
          (filter (\<lambda>k. kr_id k \<noteq> keyId) allKeys)\<rparr>"

definition deleteKey :: "uuid \<Rightarrow> key_response list \<Rightarrow> (unit, app_error) result \<Rightarrow> delete_view" where
  "deleteKey keyId allKeys answer =
     (case answer of
        Ok _ \<Rightarrow> KeyDeleted
      | Err e \<Rightarrow>
          let r = into_response e
          in if status r = 409
             then case json_member ''owned_endpoints'' (body r) of
                    Some (JArr owned) \<Rightarrow> AskSuccessor (openReassignDialog keyId owned allKeys)
                  | _ \<Rightarrow> DeleteToast (json_text (json_member ''error'' (body r)))
             else DeleteToast (json_text (json_member ''error'' (body r))))"

text \<open>The confirmation: nothing is sent when there is no other key to choose.\<close>

definition reassign_confirm :: "uuid option \<Rightarrow> (uuid, string) result" where
  "reassign_confirm selected = ok_or ''No other key exists to receive these endpoints.'' selected"

subsection \<open>Minted credentials\<close>

record minted_box =
  minted_api_key :: "string option"
  minted_signing_secret :: string

text \<open>The row of the API key is shown only when there is a new one.\<close>

definition showMintedKey :: "string option \<Rightarrow> string \<Rightarrow> minted_box" where
  "showMintedKey api_key signing =
     \<lparr>minted_api_key = (case api_key of Some k \<Rightarrow> if k = [] then None else Some k | None \<Rightarrow> None),
      minted_signing_secret = signing\<rparr>"

subsection \<open>Access to groups\<close>

record group_box =
  box_group :: uuid
  box_name :: string
  box_checked :: bool
  box_disabled :: bool

record group_panel =
  panel_hidden :: bool
  panel_boxes :: "group_box list"
  panel_grants :: "(uuid \<times> uuid) list"
  panel_note :: string
  panel_error :: "string option"

text \<open>
  \<open>loadKeyGroupAccess\<close> with the answers of its two calls; when both fail, whichever failed first is the
  one reported, here the first.
\<close>

definition loadKeyGroupAccess ::
    "bool \<Rightarrow> (vault_group list, string) result \<Rightarrow> (vault_group_permission list, string) result
       \<Rightarrow> group_panel \<Rightarrow> group_panel" where
  "loadKeyGroupAccess target_is_master all_groups grants p =
     (if target_is_master then p\<lparr>panel_hidden := True\<rparr>
      else
        let p1 = p\<lparr>panel_hidden := False, panel_error := None\<rparr>;
            failed = (\<lambda>e. p1\<lparr>panel_boxes := [], panel_note := [], panel_error := Some e\<rparr>)
        in case all_groups of
             Err e \<Rightarrow> failed e
           | Ok groups \<Rightarrow>
              (case grants of
                 Err e \<Rightarrow> failed e
               | Ok gs \<Rightarrow>
                   if groups = [] then p1\<lparr>panel_boxes := [], panel_note := ''Vault has no groups.''\<rparr>
                   else
                     let permissionIdByGroupId =
                           fold (\<lambda>g. AList.update (vault_group_id g) (perm_id g)) gs []
                     in p1\<lparr>panel_grants := permissionIdByGroupId, panel_note := [],
                          panel_boxes := map (\<lambda>g. \<lparr>box_group = group_id g, box_name = group_name g,
                             box_checked = map_of permissionIdByGroupId (group_id g) \<noteq> None,
                             box_disabled = False\<rparr>) groups\<rparr>))"

text \<open>What a click sends: an id that is not known would be the text \<open>undefined\<close>.\<close>

datatype group_request = GrantGroup uuid | RevokeGroup "uuid option"

definition group_clicked :: "group_box \<Rightarrow> group_panel \<Rightarrow> group_request \<times> group_panel" where
  "group_clicked cb p =
     ((if \<not> box_checked cb then GrantGroup (box_group cb) else RevokeGroup (map_of (panel_grants p) (box_group cb))),
      p\<lparr>panel_error := None,
        panel_boxes := map (\<lambda>b. if b = cb then b\<lparr>box_checked := \<not> box_checked b, box_disabled := True\<rparr> else b)
          (panel_boxes p)\<rparr>)"

definition group_click_failed :: "group_box \<Rightarrow> string \<Rightarrow> group_panel \<Rightarrow> group_panel" where
  "group_click_failed cb message p =
     p\<lparr>panel_error := Some message,
       panel_boxes := map (\<lambda>b. if b = cb\<lparr>box_checked := \<not> box_checked cb, box_disabled := True\<rparr> then cb else b)
         (panel_boxes p)\<rparr>"

text \<open>The routes the two requests reach; the path extractor refuses a path that names no id, in a text of its own.\<close>

definition group_call ::
    "'net crates \<Rightarrow> request_env \<Rightarrow> string \<Rightarrow> api_key \<Rightarrow> ipaddr \<Rightarrow> uuid \<Rightarrow> group_request \<Rightarrow> (unit, 'net) action" where
  "group_call L E rejection caller ip k rq =
     (case rq of
        GrantGroup g \<Rightarrow> and_then (grant_key_group L E caller ip k g) (\<lambda>_. ret ())
      | RevokeGroup (Some i) \<Rightarrow> revoke_key_group L E caller ip k i
      | RevokeGroup None \<Rightarrow> fail (InvalidInput rejection))"

subsection \<open>A click on a group\<close>

definition granted :: "uuid \<Rightarrow> uuid \<Rightarrow> database \<Rightarrow> bool" where
  "granted k g d \<longleftrightarrow> g \<in> vault_group_id ` set (permissions_of k d)"

lemma granted_iff: "granted k g d \<longleftrightarrow> (\<exists>q \<in> set (permissions d). perm_api_key_id q = k \<and> vault_group_id q = g)"
  by (auto simp: granted_def permissions_of_def)

lemma lookup_grants:
  "map_of (fold (\<lambda>g. AList.update (f g) (h g)) gs al) x = Some v \<Longrightarrow>
     (\<exists>g \<in> set gs. f g = x \<and> h g = v) \<or> map_of al x = Some v"
proof (induction gs arbitrary: al)
  case (Cons g gs)
  from Cons.IH [of "AList.update (f g) (h g) al"] Cons.prems show ?case
    by (auto simp: update_conv split: if_splits)
qed simp

lemma lookup_grants_None:
  "map_of (fold (\<lambda>g. AList.update (f g) (h g)) gs al) x = None \<longleftrightarrow> x \<notin> f ` set gs \<and> map_of al x = None"
  by (induction gs arbitrary: al) (auto simp: update_conv)

lemma panel_boxes_loaded:
  "panel_boxes (loadKeyGroupAccess False (Ok groups) (Ok (permissions_of k d)) p)
     = map (\<lambda>g. \<lparr>box_group = group_id g, box_name = group_name g, box_checked = granted k (group_id g) d,
         box_disabled = False\<rparr>) groups"
  by (simp add: loadKeyGroupAccess_def Let_def lookup_grants_None granted_def del: not_None_eq)

lemma granted_after_grant:
  assumes "db_others E = (\<lambda>_ d. d)" "\<not> granted k g (app_db s)" "grant_key_group L E caller ip k g s = (Ok r, s')"
  shows "granted k h (app_db s') \<longleftrightarrow> h = g \<or> granted k h (app_db s)"
proof -
  have none: "grant_of k g (app_db s) = None"
    using assms(2) by (auto simp: grant_of_def granted_def permissions_of_def find_None_iff)
  have "\<exists>p. permissions (app_db s') = permissions (app_db s) @ [p] \<and> perm_api_key_id p = k \<and> vault_group_id p = g"
    using assms(3) none
    by (auto simp: grant_key_group_def handler_ok create_audit_log_def insert_permission_def insert_audit_log_def enforce_Ok
        find_Some_iff dest!: existing_key_alone [OF assms(1)] vault_groups_alone query_alone [OF assms(1)]
        run_stmt_alone [OF assms(1)] split: option.splits)
  then show ?thesis by (auto simp: granted_def permissions_of_def)
qed

lemma granted_after_revoke:
  assumes "db_others E = (\<lambda>_ d. d)" "db_valid (app_db s)"
    and grant: "p \<in> set (permissions (app_db s))" "perm_api_key_id p = k" "vault_group_id p = g"
    and "revoke_key_group L E caller ip k (perm_id p) s = (Ok r, s')"
  shows "granted k h (app_db s') \<longleftrightarrow> h \<noteq> g \<and> granted k h (app_db s)"
proof -
  have perms: "permissions (app_db s') = filter (\<lambda>q. perm_id q \<noteq> perm_id p) (permissions (app_db s))"
    using assms(6)
    by (auto simp: revoke_key_group_def handler_ok insert_audit_log_def delete_permissions_def enforce_Ok
        dest!: existing_key_alone [OF assms(1)] run_stmt_alone [OF assms(1)])
  have ids: "distinct (map perm_id (permissions (app_db s)))"
    and pairs: "distinct (map (\<lambda>q. (perm_api_key_id q, vault_group_id q)) (permissions (app_db s)))"
    using assms(2) by (simp_all add: db_valid_def permissions_valid_def)
  have by_id: "q = p" if "q \<in> set (permissions (app_db s))" "perm_id q = perm_id p" for q
    using distinct_map_eq [OF ids that(1) grant(1) that(2)] .
  have by_pair: "q = p" if "q \<in> set (permissions (app_db s))" "perm_api_key_id q = k" "vault_group_id q = g" for q
    using distinct_map_eq [OF pairs that(1) grant(1)] that(2,3) grant(2,3) by simp
  show ?thesis
  proof
    assume "granted k h (app_db s')"
    then obtain q where q: "q \<in> set (permissions (app_db s))" "perm_id q \<noteq> perm_id p" "perm_api_key_id q = k" "vault_group_id q = h"
      unfolding granted_iff perms by auto
    then show "h \<noteq> g \<and> granted k h (app_db s)" using by_pair [OF q(1,3)] unfolding granted_iff by blast
  next
    assume "h \<noteq> g \<and> granted k h (app_db s)"
    then obtain q where "h \<noteq> g" "q \<in> set (permissions (app_db s))" "perm_api_key_id q = k" "vault_group_id q = h"
      unfolding granted_iff by blast
    then show "granted k h (app_db s')" using by_id grant(3) unfolding granted_iff perms by auto
  qed
qed

text \<open>
  A click on a group does what the box says. On a panel drawn from the service's answers, the request a
  click sends is never one without an id; when the service answers it with success and the panel
  is drawn again, the box of that group has flipped and every other box is as it was.
\<close>

lemma group_click_takes_effect:
  assumes alone: "db_others E = (\<lambda>_ d. d)" and valid: "db_valid (app_db s)"
    and drawn: "p = loadKeyGroupAccess False (Ok groups) (Ok (permissions_of k (app_db s))) p0"
    and cb: "cb \<in> set (panel_boxes p)"
    and call: "group_call L E rejection caller ip k (fst (group_clicked cb p)) s = (Ok (), s')"
  shows "fst (group_clicked cb p) \<noteq> RevokeGroup None
    \<and> panel_boxes (loadKeyGroupAccess False (Ok groups) (Ok (permissions_of k (app_db s'))) (snd (group_clicked cb p)))
        = map (\<lambda>b. if box_group b = box_group cb then b\<lparr>box_checked := \<not> box_checked cb\<rparr> else b) (panel_boxes p)"
proof -
  let ?g = "box_group cb"
  have checked: "box_checked cb \<longleftrightarrow> granted k ?g (app_db s)" and "groups \<noteq> []"
    using cb unfolding drawn panel_boxes_loaded by auto
  then have grants: "panel_grants p = fold (\<lambda>g. AList.update (vault_group_id g) (perm_id g)) (permissions_of k (app_db s)) []"
    by (simp add: drawn loadKeyGroupAccess_def Let_def)
  have *: "\<forall>h. (granted k h (app_db s') \<longleftrightarrow> (if h = ?g then \<not> box_checked cb else granted k h (app_db s)))
      \<and> fst (group_clicked cb p) \<noteq> RevokeGroup None"
  proof (cases "box_checked cb")
    case False
    then show ?thesis
      using call checked granted_after_grant [OF alone, of k ?g s L caller ip]
      by (auto simp: group_clicked_def group_call_def ok_simps)
  next
    case True
    then have "map_of (panel_grants p) ?g \<noteq> None"
      using checked unfolding grants lookup_grants_None granted_def by simp
    then obtain i where i: "map_of (panel_grants p) ?g = Some i" by blast
    then obtain q where "q \<in> set (permissions_of k (app_db s))" "vault_group_id q = ?g" "perm_id q = i"
      using lookup_grants [OF i [unfolded grants]] by auto
    then show ?thesis
      using call True i granted_after_revoke [OF alone valid, of q k ?g L caller ip]
      by (auto simp: group_clicked_def group_call_def permissions_of_def)
  qed
  then have flip: "granted k h (app_db s') \<longleftrightarrow> (if h = ?g then \<not> box_checked cb else granted k h (app_db s))" for h
    by blast
  show ?thesis using * unfolding drawn panel_boxes_loaded map_map comp_def flip by auto
qed

subsection \<open>Handing endpoints over\<close>

definition calm :: "request_env \<Rightarrow> bool" where
  "calm E \<longleftrightarrow> db_others E = (\<lambda>_ d. d) \<and> db_fails E = (\<lambda>_. False)"

lemma run_stmt_calm:
  "calm E \<Longrightarrow> q (app_db s) = Ok (a, d') \<Longrightarrow> run_stmt E q s = (Ok a, s\<lparr>app_db := d', statements := Suc (statements s)\<rparr>)"
  by (simp add: run_stmt_def exec_unfold calm_def Let_def)

lemma txn_stmt_calm:
  "calm E \<Longrightarrow> q (app_db s) = Ok (a, d') \<Longrightarrow> txn_stmt E q s = (Ok a, s\<lparr>app_db := d', statements := Suc (statements s)\<rparr>)"
  unfolding txn_stmt_def by (rule run_stmt_calm) (simp_all add: calm_def)

definition handed_over :: "uuid \<Rightarrow> uuid \<Rightarrow> datetime \<Rightarrow> database \<Rightarrow> database" where
  "handed_over i t now d =
     d\<lparr>endpoints := map (\<lambda>e. if owner_key_id e = Some i then e\<lparr>owner_key_id := Some t, ep_updated_at := now\<rparr> else e)
         (endpoints d)\<rparr>"

lemma handed_over_valid:
  assumes "db_valid d" "key_exists d t"
  shows "db_valid (handed_over i t now d)"
proof -
  have same: "map f (endpoints (handed_over i t now d)) = map f (endpoints d)"
    if "\<And>e. f (e\<lparr>owner_key_id := Some t, ep_updated_at := now\<rparr>) = f e" for f :: "endpoint \<Rightarrow> 'b"
    using that by (simp add: handed_over_def comp_def)
  have "nullable_fk (handed_over i t now d) x = nullable_fk d x" "key_exists (handed_over i t now d) u = key_exists d u" for x u
    by (auto simp: nullable_fk_def key_exists_def handed_over_def split: option.splits)
  moreover have "list_all (\<lambda>e. nullable_fk d (owner_key_id e)) (endpoints (handed_over i t now d))"
    using assms by (auto simp: db_valid_def endpoints_valid_def list_all_iff handed_over_def nullable_fk_def)
  ultimately show ?thesis
    using assms(1) same [of ep_id] same [of token_secret]
    by (simp add: db_valid_def api_keys_valid_def endpoints_valid_def permissions_valid_def audit_logs_valid_def
        masters_def) (simp add: handed_over_def)
qed

lemma audit_insert_valid:
  assumes "db_valid d" "key_exists d (key_id caller)" "audit_id E \<notin> log_id ` set (audit_logs d)"
  shows "insert_audit_log (audit_entry E caller ip action target details) d
    = Ok ((), d\<lparr>audit_logs := audit_logs d @ [audit_entry E caller ip action target details]\<rparr>)"
proof -
  let ?d = "d\<lparr>audit_logs := audit_logs d @ [audit_entry E caller ip action target details]\<rparr>"
  have "nullable_fk ?d x = nullable_fk d x" "key_exists ?d u = key_exists d u" for x u
    by (auto simp: nullable_fk_def key_exists_def split: option.splits)
  then have "db_valid ?d"
    using assms
    by (simp add: db_valid_def api_keys_valid_def endpoints_valid_def permissions_valid_def audit_logs_valid_def masters_def
        audit_entry_def nullable_fk_def)
  then show ?thesis by (simp add: insert_audit_log_def enforce_def)
qed

lemma delete_with_successor:
  assumes calm: "calm E" and valid: "db_valid (app_db s)"
    and caller: "is_master caller" "find_key (key_id caller) (app_db s) = Some caller"
    and key: "find_key i (app_db s) = Some k" "\<not> is_master k"
    and target: "find_key t (app_db s) = Some target" "t \<noteq> i"
    and fresh: "audit_id E \<notin> log_id ` set (audit_logs (app_db s))"
  shows "\<exists>s'. delete_api_key L E caller ip i (Some t) s = (Ok (), s')
    \<and> api_keys (app_db s') = filter (\<lambda>r. key_id r \<noteq> i) (api_keys (app_db s))
    \<and> endpoints (app_db s') = endpoints (handed_over i t (wall_clock E) (app_db s))"
proof -
  let ?d = "app_db s" and ?d1 = "handed_over i t (wall_clock E) (app_db s)"
  let ?d2 = "without_key i ?d1"
  have keys: "api_keys ?d1 = api_keys ?d" by (simp add: handed_over_def)
  have in_keys: "k \<in> set (api_keys ?d)" "key_id k = i" "target \<in> set (api_keys ?d)" "key_id target = t"
    "caller \<in> set (api_keys ?d)"
    using find_key_Some key(1) target(1) caller(2) by blast+
  have v1: "db_valid ?d1" by (rule handed_over_valid [OF valid]) (use in_keys in \<open>auto simp: key_exists_def\<close>)
  have v2: "db_valid ?d2" by (rule without_key_valid [OF v1])
  have "key_id caller \<noteq> i" using caller key by auto
  then have here: "key_exists ?d2 (key_id caller)" using in_keys(5) by (auto simp: key_exists_def without_key_def keys)
  have new: "audit_id E \<notin> log_id ` set (audit_logs ?d2)"
    using fresh by (auto simp: without_key_def handed_over_def)
  have rows: "filter (\<lambda>r. key_id r = i) (api_keys ?d) \<noteq> []" using in_keys by (auto simp: filter_empty_conv)
  have reassign: "reassign_owned i t now d = enforce () (handed_over i t now d)" for now d
    by (simp add: reassign_owned_def handed_over_def)
  have delete: "delete_key_by_id i d = enforce (length (filter (\<lambda>r. key_id r = i) (api_keys d))) (without_key i d)" for d
    by (simp add: delete_key_by_id_def without_key_def)
  have ends: "endpoints ?d2 = endpoints ?d1"
    using target(2) by (auto simp: without_key_def handed_over_def unlink_def)
  note run = run_stmt_calm [OF calm] txn_stmt_calm [OF calm]
  show ?thesis
    by (simp add: delete_api_key_def delete_key_txn_def existing_key_def transaction_def and_then_def action_defs
        require_master_def guard_master_delete_or_rotate_def create_audit_log_txn_def run query_def
        caller(1) key target in_keys reassign delete enforce_def v1 v2 rows ends keys
        audit_insert_valid [OF v2 here new]) (simp add: without_key_def keys)
qed

lemma delete_refused_for_owner:
  assumes calm: "calm E" and caller: "is_master caller"
    and key: "find_key i (app_db s) = Some k" "\<not> is_master k" and owned: "owned_by i (app_db s) \<noteq> []"
  shows "\<exists>s1 message. delete_api_key L E caller ip i None s
      = (Err (ConflictWithDetails message (owned_inventory L (owned_by i (app_db s)))), s1) \<and> app_db s1 = app_db s"
proof -
  note run = run_stmt_calm [OF calm] txn_stmt_calm [OF calm]
  show ?thesis
    by (simp add: delete_api_key_def delete_key_txn_def existing_key_def transaction_def and_then_def action_defs
        require_master_def guard_master_delete_or_rotate_def run query_def caller key owned)
qed


definition demo_owner_db :: database where
  "demo_owner_db = demo_db\<lparr>endpoints := [demo_endpoint]\<rparr>"


end
