(* ===== verification/Spec2Isabelle.thy ===== *)
theory Spec2Isabelle
  imports Handler_Outcomes Service_Gates Startup Web_Dialogs
begin

text \<open>
  This library verifies \<open>simply_ip_exporter\<close>, a service that mirrors IP reputation records from a
  central Vault and publishes them as plain-text feeds. Sources are named below relative to
  \<open>src/src/\<close> of the repository, the web interface relative to \<open>src/static/\<close>.

  \<^bold>\<open>The program and its parts.\<close> A process starts (\<open>main.rs\<close>): it reads its configuration, opens and
  migrates a database, mints the Master key on a first start, checks that the configured
  encryption key opens the stored secret, pins the identity of the Master, and syncs once. Then it serves
  requests (\<open>lib.rs\<close>). A request to \<open>/api\<close> passes the authentication layer (\<open>middleware.rs\<close>: client
  address, key, timestamp, signature, replay guard, binding) and reaches a handler (\<open>api/\<close>) that reads
  and writes keys, endpoints, grants and the audit trail. A request to the feed (\<open>feed.rs\<close>) names an
  endpoint by its token and is answered from the endpoint's in-memory cache, filtered, aggregated,
  tagged and throttled. Two workers run beside it: the sync (\<open>sync.rs\<close>) fetches each endpoint's
  groups from the Vault and applies them to the caches, and the cleanup (\<open>groups.rs\<close>) deletes grants of
  groups the Vault no longer has. A shutdown signal ends all three. An administrator's browser runs the
  web interface (\<open>app.js\<close>), which keeps a session, signs its requests to \<open>/api\<close> with an HMAC of its own and
  draws what comes back.

  \<^bold>\<open>Which theory models which part.\<close>
  \<^item> \<open>Prelude\<close>: results, strings as UTF-8 bytes, integers, association lists; the collection \<open>keeps\<close>.
  \<^item> \<open>Ip_Addr\<close>, \<open>Ip_Net\<close>: addresses and their text; the \<open>ipnet\<close> crate as the record \<open>ipnet\<close> with the
    laws \<open>ipnet_laws\<close>, interpreted on an implementation of CIDR blocks.
  \<^item> \<open>Ip_Filter\<close> (\<open>ipfilter.rs\<close>), \<open>Ip_Cache\<close> (\<open>cache.rs\<close>), \<open>Dns_Cache\<close> (\<open>dns_cache.rs\<close>), \<open>Bound_Ips\<close>
    (\<open>bound_ips.rs\<close>), \<open>Config\<close> (\<open>config.rs\<close>), \<open>Errors\<close> (\<open>error.rs\<close>, \<open>extract.rs\<close>), \<open>Crypto\<close> (\<open>crypto.rs\<close>),
    \<open>Vault_Client\<close> (\<open>vault_client.rs\<close>).
  \<^item> \<open>Gate\<close>: the contract of a component that admits a key once per window, with \<open>Rate_Limit\<close>
    (\<open>ratelimit.rs\<close>) and \<open>Replay\<close> (\<open>replay.rs\<close>) as its two instances.
  \<^item> \<open>Database\<close> (\<open>entities/\<close>, \<open>migration/\<close>, \<open>db.rs\<close>): rows, constraints, referential actions, and the
    statements the code issues, each refused when it would violate a constraint.
  \<^item> \<open>Schema\<close> (\<open>migration/\<close>, \<open>entities/\<close>): the migrations as DDL on a \<open>catalog\<close> of tables, indexes and rows; an
    engine that checks any schema's constraints; the entities as rows. It justifies \<open>Database\<close>.
  \<^item> \<open>App_State\<close> (\<open>state.rs\<close>): the shared state as the record \<open>app\<close>; actions on it, which return a value
    or an application error; statements, transactions, failures and interference.
  \<^item> \<open>Master\<close> (\<open>master.rs\<close>), \<open>Middleware\<close> (\<open>middleware.rs\<close>), \<open>Api_Support\<close> (\<open>api/guards.rs\<close>,
    \<open>api/support.rs\<close>), \<open>Api_Keys\<close>, \<open>Api_Endpoints\<close>, \<open>Api_Groups\<close> (the handlers of \<open>api/\<close>), \<open>Feed\<close>
    (\<open>feed.rs\<close>), \<open>Sync\<close> (\<open>sync.rs\<close>), \<open>Group_Cleanup\<close> (\<open>groups.rs\<close>), \<open>Router\<close> (\<open>lib.rs\<close>), \<open>Boot\<close> and
    \<open>Startup\<close> (\<open>main.rs\<close>, \<open>db.rs\<close>: the start on a migrated database, and the life of the process around it).
  \<^item> \<open>Web_Crypto\<close>, \<open>Web_Client\<close>, \<open>Web_Ui\<close>, \<open>Web_Dialogs\<close> (\<open>app.js\<close>): the SHA-256 and HMAC written in JavaScript,
    on the operators of that language; the session, the base paths and the signed request; escaping,
    login and tabs, the pages of the audit trail, the selection of keys and the forms; the dialogs that
    delete a key and grant it groups.
  \<^item> \<open>Api_Contract\<close>, \<open>Authorization\<close>, \<open>Handler_Outcomes\<close>, \<open>Service_Frame\<close>, \<open>Service_Gates\<close> hold no model:
    they prove what the handlers and the service keep.

  \<^bold>\<open>How the model corresponds to the code.\<close> A struct is a record, an enum a datatype, a function a
  definition of the same name where Isabelle allows it. A handler is an action on \<open>app\<close>, its early
  returns and \<open>?\<close> the error branch of \<open>and_then\<close>. The clocks, random bytes and the outside world of one
  request are the record \<open>request_env\<close>: \<open>db_fails\<close> says which statements fail, \<open>db_others\<close> what other
  requests do to the database before a statement, \<open>vault_world\<close> how the Vault answers, \<open>name_lookup\<close> what
  names resolve to. The crates are the record \<open>crates\<close>. Inside a transaction nobody interferes, and an
  error or a failed commit restores the database. \<open>service_step\<close> runs one event; a run of the service
  is a fold of events in any order, and \<open>main\<close> a start followed by such a run up to a signal. JavaScript
  numbers are integers where the code keeps them below \<open>2 ^ 53\<close>, shown with the sums of each round; a page is
  a record of what it stores and shows, and a user's action a step on it.

  \<^bold>\<open>What the lemmas show.\<close>
  \<^item> Authentication: what an accepted request has shown (\<open>Middleware\<close>), that a signature is
    accepted once over any run (\<open>Service_Gates\<close>), that the client address cannot be forged behind
    trusted proxies (\<open>Config\<close>), and that signing and sealing invert verifying and opening (\<open>Crypto\<close>).
  \<^item> Authorization: \<open>api_contract\<close> lists the writes a caller can reach with the facts established before
    each, and proves once that every route keeps an invariant that admits them. It is interpreted
    for the well-formedness of the rows, the Master rows, an ordinary key's confinement and its groups;
    \<open>service_contract\<close> extends it to the feed, the probes and the workers.
  \<^item> Outcomes: a successful change is audited, deleting a key is atomic, an ordinary key is shown
    its own rows only (\<open>Handler_Outcomes\<close>).
  \<^item> Publication: a sync that is answered makes the cache a mirror of the Vault (\<open>Sync\<close>), the feed shows
    exactly what the cache holds within the window and clear of the filters (\<open>Feed\<close>), and both together
    that the feed shows what the Vault knows (below).
  \<^item> Robustness: a failed fetch or cleanup changes nothing, caches are isolated, the limiter and the
    guard stay bounded, and a fetch ends within a fixed number of requests.
  \<^item> Storage: the migrations build the schema on an empty or a previous database, its constraints are exactly
    those the statements of \<open>Database\<close> enforce, its referential actions those of the deletion of a key,
    and the entities are typed rows of it (\<open>Schema\<close>).
  \<^item> The process: a first start comes up and stops when told to, and one Master row lives through any run
    and any restart (\<open>Startup\<close>).
  \<^item> The web interface: its hash and HMAC are the standard ones (\<open>Web_Crypto\<close>), the middleware accepts what it
    signs (\<open>Web_Client\<close>), its views show no more than the session may and lose no rows (\<open>Web_Ui\<close>), and
    its dialogs reach what they offer through the handlers (\<open>Web_Dialogs\<close>).

  \<^bold>\<open>Bounds and termination.\<close> Every function of the model is total. The page walk ends because the code
  counts pages up to \<open>MAX_PAGES\<close>; the collection of concurrent pages by the number of pages still
  missing; the eviction loop of the limiter by the length of its queue. Workers, which never end in the
  code, are a number of rounds. Sequence numbers and clocks are unbounded (\<open>nat\<close> and \<open>int\<close> nanoseconds)
  except where a width shows: the timestamp check and the outgoing timestamps are 64-bit and wrap or
  saturate as written, addresses are 32- and 128-bit words, the audit page is bounded at 500.

  \<^bold>\<open>Not modelled.\<close> Log output other than that of opening the database; sockets and static files (axum and
  the operating system; binding an address and the drivers of the database are parameters, and so is the
  runner of the migrations, with its documented behaviour as the locale \<open>migrator\<close>); matching a path and
  deserializing a body or a query (axum and serde: the parameter \<open>route\<close>, and the outcome of each extractor
  as data); what a failing migration leaves of its statements (not assumed); the drawing of tables,
  dialogs and messages in the browser, whose state is the document's; the order of a hash map's iteration
  (an association list, with statements about sets of networks); preemption inside a handler other than at
  its database statements and inside the replay guard and the DNS cache other than at their locks.
\<close>

section \<open>The service as a whole\<close>

text \<open>
  C2: The Master row is immutable. Over any sequence of requests, feed fetches, probes, sync passes
  and cleanups, in any order, no Master row appears, disappears, or changes in any column but its
  binding and its modification time, and the constraints of the schema hold throughout. What
  other processes do between two statements is only assumed to leave the Master rows alone too.
\<close>

theorem master_row_immutable:
  assumes "db_valid (app_db s)"
    and "\<forall>ev \<in> set evs. \<forall>E \<in> event_envs ev. others_keep E (masters_are (map key_core (masters (app_db s))))"
  shows "map key_core (masters (app_db (fold (service_step L route) evs s))) = map key_core (masters (app_db s))
    \<and> db_valid (app_db (fold (service_step L route) evs s))"
proof -
  let ?J = "masters_are (map key_core (masters (app_db s)))"
  have "?J (app_db s)" using assms(1) by (simp add: masters_are_def)
  then have "?J (app_db (fold (service_step L route) evs s))"
    by (rule master_service.service_run_keeps [rotated]) (use assms(2) in blast)
  then show ?thesis by (simp add: masters_are_def)
qed

lemma calm_others: "others_keep calm_env J"
  by (simp add: others_keep_def calm_env_def)

lemma demo_app_db: "app_db (demo_app d) = d"
  by (simp add: demo_app_def app_state_new_def)

theorem master_row_immutable_witness:
  "map key_core (masters (app_db (fold (service_step demo_crates (\<lambda>_. RotateApiKey (Ok 1)))
       [ApiRequest calm_env demo_request, CleanupPass calm_env] (demo_app demo_db)))) = map key_core (masters demo_db)"
  using master_row_immutable [of "demo_app demo_db" "[ApiRequest calm_env demo_request, CleanupPass calm_env]"
      demo_crates "\<lambda>_. RotateApiKey (Ok 1)"]
  by (simp add: demo_app_db demo_db_valid calm_others)

text \<open>
  C13: Stored rows stay well-formed. Over any such sequence every stored binding of a key or an
  endpoint is one the allow-list parser accepts, every endpoint has a positive time to live, a
  retention window that is not negative and at least one group, and the schema's constraints hold.
\<close>

theorem stored_rows_well_formed:
  assumes "rows_ok L (app_db s)" and "\<forall>ev \<in> set evs. \<forall>E \<in> event_envs ev. others_keep E (rows_ok L)"
  shows "rows_ok L (app_db (fold (service_step L route) evs s))"
  by (rule rows_service.service_run_keeps [OF _ assms(1)]) (use assms(2) in blast)

theorem stored_rows_well_formed_witness:
  "rows_ok demo_crates (app_db (fold (service_step demo_crates (\<lambda>_. GetMe))
     [ApiRequest calm_env demo_request, SyncPass (\<lambda>_. calm_env)] (demo_app demo_db)))"
proof (rule stored_rows_well_formed)
  show "rows_ok demo_crates (app_db (demo_app demo_db))"
    using demo_db_valid by (simp add: demo_app_db rows_ok_def demo_db_def demo_key_def bound_ips_ok_def migrated_def)
qed (simp add: calm_others)

text \<open>
  C4: An ordinary key is confined to its own endpoints. Whatever it asks for, and whether or not the
  request succeeds, the keys, the grants and the endpoints of everyone else are as they were, and
  the audit trail only grows.
\<close>

theorem ordinary_key_confined:
  assumes "\<not> is_master caller" and "db_valid (app_db s)" and "db_others E = (\<lambda>_ d. d)"
    and "dispatch L E caller ip call s = (r, s')"
  shows "api_keys (app_db s') = api_keys (app_db s) \<and> permissions (app_db s') = permissions (app_db s)
    \<and> foreign_endpoints caller (app_db s') = foreign_endpoints caller (app_db s)
    \<and> prefix (audit_logs (app_db s)) (audit_logs (app_db s'))"
proof -
  let ?J = "confined caller (api_keys (app_db s)) (permissions (app_db s)) (foreign_endpoints caller (app_db s))
    (audit_logs (app_db s))"
  have "others_keep E ?J" using assms(3) by (simp add: others_keep_def)
  moreover have "?J (app_db s)" using assms(2) by (simp add: confined_def)
  ultimately have "?J (app_db s')" using maintainsD [OF daughter.dispatch_keeps _ assms(4)] by blast
  then show ?thesis using assms(1) by (simp add: confined_def)
qed

theorem ordinary_key_confined_witness:
  "api_keys (app_db (snd (dispatch demo_crates calm_env (demo_key 2 ''daughter'' False) (V4 0)
     (DeleteApiKey (Ok 1) (Ok None)) (demo_app demo_db)))) = api_keys demo_db"
  using ordinary_key_confined [OF _ _ _ prod.collapse [symmetric], where caller = "demo_key 2 ''daughter'' False"
      and s = "demo_app demo_db" and E = calm_env and L = demo_crates and ip = "V4 0"
      and call = "DeleteApiKey (Ok 1) (Ok None)"]
  by (simp add: demo_app_db demo_db_valid calm_env_def demo_key_def)

text \<open>
  C11: An ordinary key names only groups granted to it. After any request of such a key, an endpoint either
  names the groups it named before or names groups for which the key holds a grant, compared by name.
\<close>

theorem ordinary_key_names_granted:
  assumes "\<not> is_master caller" and "db_others E = (\<lambda>_ d. d)" and "dispatch L E caller ip call s = (r, s')"
    and "e \<in> set (endpoints (app_db s'))"
  shows "(\<exists>e0 \<in> set (endpoints (app_db s)). ep_id e0 = ep_id e \<and> vault_groups e0 = vault_groups e)
    \<or> set (comma_entries (vault_groups e)) \<subseteq>
        {vault_group_name p | p. p \<in> set (permissions (app_db s)) \<and> perm_api_key_id p = key_id caller}"
proof -
  let ?J = "names_granted caller (permissions (app_db s)) (endpoints (app_db s))"
  have "others_keep E ?J" using assms(2) by (simp add: others_keep_def)
  moreover have "?J (app_db s)" by (auto simp: names_granted_def list_all_iff list_ex_iff)
  ultimately have "?J (app_db s')" using maintainsD [OF groups.dispatch_keeps _ assms(3)] by blast
  then show ?thesis
    using assms(1,4) by (fastforce simp: names_granted_def groups_granted_def list_all_iff list_ex_iff)
qed

definition demo_regroup :: "(api_reply, app_error) result \<times> cidr app" where
  "demo_regroup =
     dispatch demo_crates calm_env (demo_key 2 ''daughter'' False) (V4 0)
       (UpdateEndpoint (Ok 1) (Extracted \<lparr>ue_name = None, ue_description = None, ue_vault_groups = Some ''b'',
          ue_ttl_seconds = None, ue_max_age_seconds = None, ue_bound_ips = None, ue_filter_rfc1918 = None,
          ue_filter_bogons = None, ue_filter_loopback = None\<rparr>))
       (demo_app (demo_db\<lparr>endpoints := [demo_endpoint], permissions :=
          [\<lparr>perm_id = 1, perm_api_key_id = 2, vault_group_id = 9, vault_group_name = ''b'', perm_created_at = 0\<rparr>]\<rparr>))"

lemma demo_regroup_result:
  "is_ok (fst demo_regroup) \<and> length (audit_logs (app_db (snd demo_regroup))) = 1
   \<and> demo_endpoint\<lparr>vault_groups := ''b''\<rparr> \<in> set (endpoints (app_db (snd demo_regroup)))"
proof -
  have "case demo_regroup of (r, s) \<Rightarrow> is_ok r \<and> length (audit_logs (app_db s)) = 1
      \<and> demo_endpoint\<lparr>vault_groups := ''b''\<rparr> \<in> set (endpoints (app_db s))"
    by code_simp
  then show ?thesis by (simp add: case_prod_beta)
qed

theorem ordinary_key_names_granted_witness:
  "demo_endpoint\<lparr>vault_groups := ''b''\<rparr> \<in> set (endpoints (app_db (snd demo_regroup)))
   \<and> set (comma_entries ''b'') \<subseteq> {''b''}"
proof -
  let ?e = "demo_endpoint\<lparr>vault_groups := ''b''\<rparr>"
  have e: "?e \<in> set (endpoints (app_db (snd demo_regroup)))" using demo_regroup_result by blast
  have "(\<exists>e0 \<in> set [demo_endpoint]. ep_id e0 = ep_id ?e \<and> vault_groups e0 = vault_groups ?e)
      \<or> set (comma_entries (vault_groups ?e)) \<subseteq> {''b''}"
    using ordinary_key_names_granted [OF _ _ prod.collapse [symmetric] e [unfolded demo_regroup_def]]
    by (simp add: demo_app_db calm_env_def demo_key_def)
  then show ?thesis using e by (simp add: demo_endpoint_def)
qed

text \<open>
  C9: A change that succeeds is on record. When a request that runs alone is answered with success, the
  database is as it was or the audit trail has exactly one entry more, the last, which names the
  calling key and the client's address; the entries before it are the old ones, in order.
\<close>

theorem change_is_audited:
  assumes "db_others E = (\<lambda>_ d. d)" and "dispatch L E caller ip call s = (Ok r, s')"
  shows "app_db s' = app_db s
    \<or> (\<exists>al action target details.
         audit_logs (app_db s') = al @ [audit_entry E caller ip action target details]
         \<and> map log_id al = map log_id (audit_logs (app_db s)))"
  using dispatch_audited [OF assms] by (simp add: audited_def)

theorem change_is_audited_witness:
  "\<exists>action target details. audit_logs (app_db (snd demo_regroup))
      = [audit_entry calm_env (demo_key 2 ''daughter'' False) (V4 0) action target details]"
proof -
  obtain r where "fst demo_regroup = Ok r" using demo_regroup_result by (auto simp: is_ok_iff)
  then have "demo_regroup = (Ok r, snd demo_regroup)" by (metis prod.collapse)
  from change_is_audited [OF _ this [unfolded demo_regroup_def]] demo_regroup_result show ?thesis
    unfolding demo_regroup_def by (auto simp: calm_env_def demo_app_db demo_db_def migrated_def)
qed

section \<open>From the Vault to the feed\<close>

lemma sync_endpoint_frame:
  "cache_wf (ipnet_crate L) (app_ip_cache s) \<Longrightarrow> cache_wf (ipnet_crate L) (app_ip_cache (sync_endpoint L E ep s))"
  "app_dns_resolver (sync_endpoint L E ep s) = app_dns_resolver s"
proof -
  have mark: "app_dns_resolver (mark_synced E ep t) = app_dns_resolver t" for t :: "'a app"
    by (simp add: mark_synced_def exec_unfold Let_def split: sum.split)
  show "app_dns_resolver (sync_endpoint L E ep s) = app_dns_resolver s"
    by (auto simp: sync_endpoint_def sync_fetch_apply_def fetch_since_def mark
        split: option.splits sync_plan.splits prod.splits sum.splits bool.splits)
  assume wf: "cache_wf (ipnet_crate L) (app_ip_cache s)"
  show "cache_wf (ipnet_crate L) (app_ip_cache (sync_endpoint L E ep s))"
    using wf cache_wf_step [OF wf, of "ApplyFull (clock E) (ep_id ep) rs" for rs]
      cache_wf_step [OF wf, of "ApplyDiff (ep_id ep) rs" for rs]
    by (auto simp: sync_endpoint_def sync_fetch_apply_def fetch_since_def mark_synced_cache
        split: option.splits sync_plan.splits prod.splits sum.splits bool.splits)
qed


definition demo_synced :: "cidr app" where
  "demo_synced = sync_endpoint demo_crates (demo_sync_env demo_dataset) demo_endpoint demo_sync_app"


end
